theory Spec2Isabelle
  imports Complex_Main "HOL-Library.Sublist" "HOL-Library.Log_Nat"
begin

section \<open>Numbers\<close>

text \<open>
  The scanner computes with two kinds of numbers: \<^verbatim>\<open>BigNumber\<close> objects (arbitrary
  precision decimals of the bignumber.js library) and JavaScript numbers, which are
  IEEE 754 doubles. Both have the three special values NaN, +Infinity and -Infinity next
  to the finite values, and in both every comparison with NaN is false. One type models
  both: the finite values are rationals, and a JavaScript number is a value that is a
  double. The arithmetic of \<^verbatim>\<open>BigNumber\<close> is exact, except that the library rounds a
  quotient to 20 decimal places (\<open>bn_div\<close>). The arithmetic of JavaScript numbers rounds
  every result to the nearest double, and so does the conversion of a \<^verbatim>\<open>BigNumber\<close>
  to a number (\<open>to_double\<close> below). Counts of hops and of venues, gas figures and delays
  are integers far below \<open>2 ^ 53\<close>, on which the arithmetic of doubles is exact: they
  are computed as integers. Negative zero is identified with zero.
\<close>

datatype jsnum = NaN | NegInf | Fin rat | PosInf

fun num_neg :: "jsnum \<Rightarrow> jsnum" where
  "num_neg NaN = NaN"
| "num_neg NegInf = PosInf"
| "num_neg PosInf = NegInf"
| "num_neg (Fin x) = Fin (- x)"

fun num_add :: "jsnum \<Rightarrow> jsnum \<Rightarrow> jsnum" where
  "num_add NaN b = NaN"
| "num_add a NaN = NaN"
| "num_add (Fin x) (Fin y) = Fin (x + y)"
| "num_add PosInf NegInf = NaN"
| "num_add NegInf PosInf = NaN"
| "num_add PosInf b = PosInf"
| "num_add a PosInf = PosInf"
| "num_add NegInf b = NegInf"
| "num_add a NegInf = NegInf"

definition num_sub :: "jsnum \<Rightarrow> jsnum \<Rightarrow> jsnum" where
  "num_sub a b = num_add a (num_neg b)"

text \<open>The sign of a product with an infinite factor; zero times infinity is NaN.\<close>

definition signed_inf :: "rat \<Rightarrow> jsnum" where
  "signed_inf s = (if s = 0 then NaN else if 0 < s then PosInf else NegInf)"

fun num_mul :: "jsnum \<Rightarrow> jsnum \<Rightarrow> jsnum" where
  "num_mul NaN b = NaN"
| "num_mul a NaN = NaN"
| "num_mul (Fin x) (Fin y) = Fin (x * y)"
| "num_mul (Fin x) PosInf = signed_inf x"
| "num_mul (Fin x) NegInf = signed_inf (- x)"
| "num_mul PosInf (Fin y) = signed_inf y"
| "num_mul NegInf (Fin y) = signed_inf (- y)"
| "num_mul PosInf PosInf = PosInf"
| "num_mul NegInf NegInf = PosInf"
| "num_mul PosInf NegInf = NegInf"
| "num_mul NegInf PosInf = NegInf"

fun num_abs :: "jsnum \<Rightarrow> jsnum" where
  "num_abs NaN = NaN"
| "num_abs NegInf = PosInf"
| "num_abs PosInf = PosInf"
| "num_abs (Fin x) = Fin \<bar>x\<bar>"

text \<open>\<^verbatim>\<open>a < b\<close> (and \<^verbatim>\<open>a.lt(b)\<close>): false as soon as one side is NaN.\<close>

fun num_lt :: "jsnum \<Rightarrow> jsnum \<Rightarrow> bool" where
  "num_lt NaN b = False"
| "num_lt a NaN = False"
| "num_lt (Fin x) (Fin y) = (x < y)"
| "num_lt a NegInf = False"
| "num_lt NegInf b = True"
| "num_lt PosInf b = False"
| "num_lt a PosInf = True"

definition num_gt :: "jsnum \<Rightarrow> jsnum \<Rightarrow> bool" where
  "num_gt a b = num_lt b a"

text \<open>\<^verbatim>\<open>Math.max\<close> and \<^verbatim>\<open>Math.min\<close>: NaN when an argument is NaN;
  \<^verbatim>\<open>Math.max()\<close> of no argument is -Infinity, which is what
  \<^verbatim>\<open>Math.max(...[])\<close> evaluates.\<close>

fun Math_max2 :: "jsnum \<Rightarrow> jsnum \<Rightarrow> jsnum" where
  "Math_max2 NaN b = NaN"
| "Math_max2 a NaN = NaN"
| "Math_max2 a b = (if num_lt a b then b else a)"

fun Math_min2 :: "jsnum \<Rightarrow> jsnum \<Rightarrow> jsnum" where
  "Math_min2 NaN b = NaN"
| "Math_min2 a NaN = NaN"
| "Math_min2 a b = (if num_lt b a then b else a)"

definition Math_max :: "jsnum list \<Rightarrow> jsnum" where
  "Math_max xs = foldl Math_max2 NegInf xs"

text \<open>
  bignumber.js divides with its default configuration here: the quotient is rounded to
  20 decimal places, half away from zero. A finite nonzero value divided by zero is an
  infinity, zero divided by zero is NaN.
\<close>

definition round_dp20 :: "rat \<Rightarrow> rat" where
  "round_dp20 x =
     (if 0 \<le> x then of_int \<lfloor>x * 10 ^ 20 + 1 / 2\<rfloor> / 10 ^ 20
      else - (of_int \<lfloor>- x * 10 ^ 20 + 1 / 2\<rfloor> / 10 ^ 20))"

fun bn_div :: "jsnum \<Rightarrow> jsnum \<Rightarrow> jsnum" where
  "bn_div NaN b = NaN"
| "bn_div a NaN = NaN"
| "bn_div (Fin x) (Fin y) = (if y = 0 then signed_inf x else Fin (round_dp20 (x / y)))"
| "bn_div (Fin x) b = Fin 0"
| "bn_div PosInf (Fin y) = (if 0 \<le> y then PosInf else NegInf)"
| "bn_div NegInf (Fin y) = (if 0 \<le> y then NegInf else PosInf)"
| "bn_div a b = NaN"

subsection \<open>Doubles\<close>

text \<open>
  A finite double is \<open>m * 2 ^ e\<close> with \<open>\<bar>m\<bar> < 2 ^ 53\<close> and \<open>- 1074 \<le> e \<le> 971\<close>.
\<close>

definition representable :: "rat \<Rightarrow> bool" where
  "representable r \<longleftrightarrow>
     (\<exists>m e. r = of_int m * 2 powi e \<and> \<bar>m\<bar> < 2 ^ 53 \<and> - 1074 \<le> e \<and> e \<le> 971)"

text \<open>The \<open>E\<close> with \<open>2 ^ E \<le> x < 2 ^ (E + 1)\<close>, for a positive \<open>x\<close>; \<open>bitlen n\<close> is
  the number of binary digits of \<open>n\<close>.\<close>

definition binary_exponent :: "rat \<Rightarrow> int" where
  "binary_exponent x = (if 1 \<le> x then bitlen \<lfloor>x\<rfloor> - 1 else - bitlen (\<lceil>1 / x\<rceil> - 1))"

text \<open>The nearest integer; of two nearest ones, the even one.\<close>

definition round_half_even :: "rat \<Rightarrow> int" where
  "round_half_even y =
     (let n = \<lfloor>y\<rfloor>; r = y - of_int n
      in if r < 1 / 2 then n else if 1 / 2 < r then n + 1 else if even n then n else n + 1)"

text \<open>
  The nearest double, of two nearest ones the one with the even significand (IEEE 754
  roundTiesToEven, which ECMAScript prescribes for arithmetic and which the engine applies
  when it reads a decimal string). Around \<open>x\<close> the doubles are the multiples of
  \<open>2 ^ (E - 52)\<close>, where \<open>E\<close> is the binary exponent of \<open>\<bar>x\<bar>\<close>, and of \<open>2 ^ - 1074\<close>
  in the subnormal range; a result that reaches \<open>2 ^ 1024\<close> is infinite.
\<close>

definition to_double :: "rat \<Rightarrow> jsnum" where
  "to_double x =
     (if x = 0 then Fin 0
      else
        (let ulp = 2 powi max (binary_exponent \<bar>x\<bar> - 52) (- 1074);
             r = of_int (round_half_even (x / ulp)) * ulp
         in if 1024 \<le> binary_exponent \<bar>r\<bar> then (if 0 < x then PosInf else NegInf)
            else Fin r))"

text \<open>
  \<^verbatim>\<open>BigNumber.toNumber()\<close>, and the conversion that \<^verbatim>\<open><\<close> applies to a
  \<^verbatim>\<open>BigNumber\<close> compared with a number: both read the string that
  \<^verbatim>\<open>valueOf()\<close> returns, the exact decimal expansion, as a number.
\<close>

fun toNumber :: "jsnum \<Rightarrow> jsnum" where
  "toNumber (Fin x) = to_double x"
| "toNumber v = v"

text \<open>\<^verbatim>\<open>+\<close>, \<^verbatim>\<open>-\<close> and \<^verbatim>\<open>*\<close> on JavaScript numbers: the exact result, rounded.\<close>

definition js_add :: "jsnum \<Rightarrow> jsnum \<Rightarrow> jsnum" where
  "js_add a b = toNumber (num_add a b)"

definition js_sub :: "jsnum \<Rightarrow> jsnum \<Rightarrow> jsnum" where
  "js_sub a b = toNumber (num_sub a b)"

definition js_mul :: "jsnum \<Rightarrow> jsnum \<Rightarrow> jsnum" where
  "js_mul a b = toNumber (num_mul a b)"

text \<open>For the statements below: \<open>a \<le> b\<close>, false as soon as one side is NaN; and a list
  of numbers exceeds a threshold when none of them is NaN and one of them is above it.\<close>

definition num_le :: "jsnum \<Rightarrow> jsnum \<Rightarrow> bool" where
  "num_le a b \<longleftrightarrow> num_lt a b \<or> (a = b \<and> a \<noteq> NaN)"

definition exceeds :: "jsnum list \<Rightarrow> rat \<Rightarrow> bool" where
  "exceeds xs t \<longleftrightarrow> NaN \<notin> set xs \<and> (\<exists>x\<in>set xs. num_lt (Fin t) x)"

section \<open>Opportunities\<close>

text \<open>
  One swap of an opportunity, as \<^verbatim>\<open>calculateCircularPathProfit\<close> pushes it. A token
  read from \<^verbatim>\<open>path.tokens\<close> beyond its end is \<^verbatim>\<open>undefined\<close>: \<open>None\<close>.
\<close>

record swap_detail =
  sd_index :: nat
  sd_from :: "string option"
  sd_to :: "string option"
  sd_dex :: string
  amountIn :: jsnum
  amountOut :: jsnum
  price :: jsnum
  priceImpact :: jsnum
  slippage :: jsnum

text \<open>
  The opportunity object grows in three steps: \<^verbatim>\<open>calculateCircularPathProfit\<close>
  returns the first group of fields, \<^verbatim>\<open>scanPath\<close> then assigns the costs and the net
  figures, and last the confidence and the risk level. The path's id and the capture
  timestamp are left out: nothing below reads them.
\<close>

record profit_result =
  path :: "string list"
  opp_dexes :: "string list"
  opp_flashLoanAsset :: "string option"
  flashLoanAmount :: jsnum
  finalAmount :: jsnum
  grossProfit :: jsnum
  profitPercent :: jsnum
  swapDetails :: "swap_detail list"
  opp_isCircular :: bool
  totalHops :: int

record costed_opportunity = profit_result +
  gasCost :: jsnum
  flashLoanFee :: jsnum
  totalCosts :: jsnum
  profitAfterCosts :: jsnum
  netROI :: jsnum

datatype risk_level = LOW | MEDIUM | HIGH

record opportunity = costed_opportunity +
  confidence :: jsnum
  riskLevel :: risk_level

subsection \<open>Risk level\<close>

text \<open>
  \<^verbatim>\<open>calculateRiskLevel\<close>: the score is a local variable that four
  \<^verbatim>\<open>if / else if\<close> chains add to, one after the other. The price impacts and the
  slippages are numbers; \<^verbatim>\<open>netROI\<close> is a \<^verbatim>\<open>BigNumber\<close>, which every comparison with
  a number literal converts to a number first. The literal \<^verbatim>\<open>0.3\<close> is the double nearest
  to three tenths; the other literals are doubles as they are written.
\<close>

definition calculateRiskLevel :: "'a costed_opportunity_scheme \<Rightarrow> risk_level" where
  "calculateRiskLevel opp =
     (let maxPriceImpact = Math_max (map priceImpact (swapDetails opp));
          hopCount = totalHops opp;
          profitMargin = netROI opp;
          maxSlippage = Math_max (map slippage (swapDetails opp));
          riskScore0 = (0::nat);
          riskScore1 =
            (if num_gt maxPriceImpact (Fin (3 / 2)) then riskScore0 + 3
             else if num_gt maxPriceImpact (Fin 1) then riskScore0 + 2
             else if num_gt maxPriceImpact (Fin (1 / 2)) then riskScore0 + 1
             else riskScore0);
          riskScore2 =
            (if hopCount > 6 then riskScore1 + 3
             else if hopCount > 4 then riskScore1 + 2
             else if hopCount > 3 then riskScore1 + 1
             else riskScore1);
          riskScore3 =
            (if num_lt (toNumber profitMargin) (to_double (3 / 10)) then riskScore2 + 3
             else if num_lt (toNumber profitMargin) (Fin (1 / 2)) then riskScore2 + 2
             else if num_lt (toNumber profitMargin) (Fin 1) then riskScore2 + 1
             else riskScore2);
          riskScore4 =
            (if num_gt maxSlippage (Fin 2) then riskScore3 + 2
             else if num_gt maxSlippage (Fin 1) then riskScore3 + 1
             else riskScore3)
      in if riskScore4 \<ge> 6 then HIGH else if riskScore4 \<ge> 4 then MEDIUM else LOW)"

text \<open>
  The four buckets and the classification of their sum, as the specification describes
  them: each bucket is a function of its own input alone. The bounds of the ROI bucket are
  the exact values of \<^verbatim>\<open>netROI\<close> at which the points change: the greatest value that
  reads as a number below \<^verbatim>\<open>0.3\<close>, which is the double \<open>5404319552844595 / 2 ^ 54\<close>, and
  the least values that read as \<^verbatim>\<open>0.5\<close> and as \<^verbatim>\<open>1\<close>.
\<close>

definition price_impact_bucket :: "jsnum list \<Rightarrow> nat" where
  "price_impact_bucket impacts =
     (if exceeds impacts (3 / 2) then 3 else if exceeds impacts 1 then 2
      else if exceeds impacts (1 / 2) then 1 else 0)"

definition hop_bucket :: "int \<Rightarrow> nat" where
  "hop_bucket h = (if 6 < h then 3 else if 4 < h then 2 else if 3 < h then 1 else 0)"

definition roi_bucket :: "jsnum \<Rightarrow> nat" where
  "roi_bucket roi =
     (if num_le roi (Fin (10808639105689189 / 2 ^ 55)) then 3
      else if num_lt roi (Fin (1 / 2 - 1 / 2 ^ 55)) then 2
      else if num_lt roi (Fin (1 - 1 / 2 ^ 54)) then 1 else 0)"

definition slippage_bucket :: "jsnum list \<Rightarrow> nat" where
  "slippage_bucket slippages =
     (if exceeds slippages 2 then 2 else if exceeds slippages 1 then 1 else 0)"

definition classify_risk :: "nat \<Rightarrow> risk_level" where
  "classify_risk n = (if n \<ge> 6 then HIGH else if n \<ge> 4 then MEDIUM else LOW)"

text \<open>The maximum slippage of an opportunity, which both assessments compute, and the
  points that the risk score gives for it.\<close>

definition maxSlippage_of :: "'a profit_result_scheme \<Rightarrow> jsnum" where
  "maxSlippage_of opp = Math_max (map slippage (swapDetails opp))"

definition slippage_points :: "jsnum \<Rightarrow> nat" where
  "slippage_points s = (if num_gt s (Fin 2) then 2 else if num_gt s (Fin 1) then 1 else 0)"

subsection \<open>Confidence score\<close>

definition highLiqTokens :: "string list" where
  "highLiqTokens = [''WBNB'', ''USDT'', ''USDC'']"

text \<open>
  \<^verbatim>\<open>calculateConfidenceScore\<close>: the score is a number, a local variable updated by a
  sequence of statements; the \<^verbatim>\<open>if\<close>s are not chained by \<^verbatim>\<open>else\<close>, each one runs.
  Every operation rounds, and \<^verbatim>\<open>netROI\<close> is converted to a number when it is compared.
\<close>

definition calculateConfidenceScore :: "'a costed_opportunity_scheme \<Rightarrow> jsnum" where
  "calculateConfidenceScore opp =
     (let score0 = Fin 100;
          maxPriceImpact = Math_max (map priceImpact (swapDetails opp));
          score1 = js_sub score0 (js_mul maxPriceImpact (Fin 8));
          score2 = js_sub score1
                     (js_mul (Math_max2 (Fin 0) (js_sub (Fin (of_int (totalHops opp))) (Fin 3)))
                        (Fin 3));
          score3 = (if num_lt (toNumber (netROI opp)) (Fin 1) then js_sub score2 (Fin 25)
                    else score2);
          score4 = (if num_lt (toNumber (netROI opp)) (Fin (1 / 2)) then js_sub score3 (Fin 35)
                    else score3);
          score5 = (if opp_isCircular opp then js_add score4 (Fin 15) else score4);
          highLiqCount = length (filter (\<lambda>t. t \<in> set highLiqTokens) (path opp));
          score6 = js_add score5 (js_mul (Fin (of_nat highLiqCount)) (Fin 3));
          maxSlippage = Math_max (map slippage (swapDetails opp));
          score7 = (if num_gt maxSlippage (Fin 1) then js_sub score6 (Fin 20) else score6);
          score8 = (if num_gt maxSlippage (Fin 2) then js_sub score7 (Fin 30) else score7)
      in Math_max2 (Math_min2 score8 (Fin 100)) (Fin 0))"

definition clamp_0_100 :: "rat \<Rightarrow> rat" where
  "clamp_0_100 x = max 0 (min 100 x)"

text \<open>The reference formula in the specification's words: the ROI penalty is 25 below 1
  and 35 in total below 0.5, the slippage penalty is 20 above 1 or 30 above 2, and the 15
  for being circular is always added.\<close>

definition confidence_reference :: "rat \<Rightarrow> int \<Rightarrow> jsnum \<Rightarrow> nat \<Rightarrow> jsnum \<Rightarrow> rat" where
  "confidence_reference mpi hopCount roi highLiqCount ms =
     clamp_0_100
       (100 - 8 * mpi - 3 * of_int (max 0 (hopCount - 3))
        - (if num_lt roi (Fin (1 / 2)) then 35 else if num_lt roi (Fin 1) then 25 else 0)
        + 15 + 3 * of_nat highLiqCount
        - (if num_gt ms (Fin 2) then 30 else if num_gt ms (Fin 1) then 20 else 0))"

text \<open>
  The score as it accumulates. Eight amounts are added to 100, one after the other, each
  sum rounded to a double: the price impact term, a rounded product; the hop term; 25 and
  35 more (60 in total) for the ROI, at the exact values of \<^verbatim>\<open>netROI\<close> that read as
  numbers below 1 and below 0.5; 15 that depend on the flag; 3 per high-liquidity asset;
  20 and 30 more (50 in total) for the slippage. What \<^verbatim>\<open>Math.min\<close> and \<^verbatim>\<open>Math.max\<close>
  then make of the sum is \<open>clamp_score\<close>.
\<close>

definition confidence_amounts ::
  "rat \<Rightarrow> int \<Rightarrow> jsnum \<Rightarrow> bool \<Rightarrow> nat \<Rightarrow> jsnum list \<Rightarrow> jsnum list" where
  "confidence_amounts mpi hopCount roi circular highLiqCount slippages =
     [num_neg (js_mul (Fin mpi) (Fin 8)),
      Fin (- 3 * of_int (max 0 (hopCount - 3))),
      Fin (if num_lt roi (Fin (1 - 1 / 2 ^ 54)) then - 25 else 0),
      Fin (if num_lt roi (Fin (1 / 2 - 1 / 2 ^ 55)) then - 35 else 0),
      Fin (if circular then 15 else 0),
      Fin (3 * of_nat highLiqCount),
      Fin (if exceeds slippages 1 then - 20 else 0),
      Fin (if exceeds slippages 2 then - 30 else 0)]"

definition clamp_score :: "jsnum \<Rightarrow> jsnum" where
  "clamp_score v =
     (case v of NaN \<Rightarrow> NaN | NegInf \<Rightarrow> Fin 0 | PosInf \<Rightarrow> Fin 100 | Fin s \<Rightarrow> Fin (clamp_0_100 s))"

definition confidence_accumulated ::
  "rat \<Rightarrow> int \<Rightarrow> jsnum \<Rightarrow> bool \<Rightarrow> nat \<Rightarrow> jsnum list \<Rightarrow> jsnum" where
  "confidence_accumulated mpi hopCount roi circular highLiqCount slippages =
     clamp_score
       (foldl js_add (Fin 100)
          (confidence_amounts mpi hopCount roi circular highLiqCount slippages))"

text \<open>Two concrete opportunities. The first borrows 0.2 BTCB over three hops and nets
  0.25 percent; the second is the WBNB scenario of the specification: 10 WBNB over
  WBNB, USDT, BTCB, WBNB, ending with 10.05 WBNB.\<close>

definition quarter_roi_opportunity :: costed_opportunity where
  "quarter_roi_opportunity =
     \<lparr> path = [''BTCB'', ''ETH'', ''CAKE'', ''BTCB''],
       opp_dexes = [''PANCAKESWAP_V2'', ''BISWAP'', ''MDEX''],
       opp_flashLoanAsset = Some ''BTCB'',
       flashLoanAmount = Fin (2 / 10),
       finalAmount = Fin (20614 / 100000),
       grossProfit = Fin (614 / 100000),
       profitPercent = Fin (307 / 100),
       swapDetails =
         [\<lparr> sd_index = 0, sd_from = Some ''BTCB'', sd_to = Some ''ETH'',
             sd_dex = ''PANCAKESWAP_V2'', amountIn = Fin (2 / 10), amountOut = Fin 4,
             price = Fin 20, priceImpact = Fin 0, slippage = Fin 0 \<rparr>,
          \<lparr> sd_index = 1, sd_from = Some ''ETH'', sd_to = Some ''CAKE'',
             sd_dex = ''BISWAP'', amountIn = Fin 4, amountOut = Fin (20614 / 10),
             price = Fin (51535 / 100), priceImpact = Fin 0, slippage = Fin 0 \<rparr>,
          \<lparr> sd_index = 2, sd_from = Some ''CAKE'', sd_to = Some ''BTCB'',
             sd_dex = ''MDEX'', amountIn = Fin (20614 / 10), amountOut = Fin (20614 / 100000),
             price = Fin (1 / 10000), priceImpact = Fin 0, slippage = Fin 0 \<rparr>],
       opp_isCircular = True,
       totalHops = 3,
       gasCost = Fin (546 / 100000),
       flashLoanFee = Fin (18 / 100000),
       totalCosts = Fin (564 / 100000),
       profitAfterCosts = Fin (5 / 10000),
       netROI = Fin (1 / 4) \<rparr>"

definition wbnb_scenario_opportunity :: costed_opportunity where
  "wbnb_scenario_opportunity =
     \<lparr> path = [''WBNB'', ''USDT'', ''BTCB'', ''WBNB''],
       opp_dexes = [''PANCAKESWAP_V2'', ''PANCAKESWAP_V2'', ''PANCAKESWAP_V2''],
       opp_flashLoanAsset = Some ''WBNB'',
       flashLoanAmount = Fin 10,
       finalAmount = Fin (1005 / 100),
       grossProfit = Fin (5 / 100),
       profitPercent = Fin (1 / 2),
       swapDetails =
         [\<lparr> sd_index = 0, sd_from = Some ''WBNB'', sd_to = Some ''USDT'',
             sd_dex = ''PANCAKESWAP_V2'', amountIn = Fin 10, amountOut = Fin 3000,
             price = Fin 300, priceImpact = Fin (1 / 2), slippage = Fin 0 \<rparr>,
          \<lparr> sd_index = 1, sd_from = Some ''USDT'', sd_to = Some ''BTCB'',
             sd_dex = ''PANCAKESWAP_V2'', amountIn = Fin 3000, amountOut = Fin (645 / 10000),
             price = Fin (215 / 10000000), priceImpact = Fin (1 / 4), slippage = Fin 0 \<rparr>,
          \<lparr> sd_index = 2, sd_from = Some ''BTCB'', sd_to = Some ''WBNB'',
             sd_dex = ''PANCAKESWAP_V2'', amountIn = Fin (645 / 10000), amountOut = Fin (1005 / 100),
             price = Fin (15581395348837209302326 / 10 ^ 20), priceImpact = Fin 0,
             slippage = Fin 0 \<rparr>],
       opp_isCircular = True,
       totalHops = 3,
       gasCost = Fin (546 / 100000),
       flashLoanFee = Fin (9 / 1000),
       totalCosts = Fin (1446 / 100000),
       profitAfterCosts = Fin (3554 / 100000),
       netROI = Fin (3554 / 10000) \<rparr>"

text \<open>
  Two more, for values of \<^verbatim>\<open>netROI\<close> next to a threshold, and one for a price
  impact that is not a multiple of a power of two. The first is the WBNB
  scenario with a loan of 30 WBNB that ends with 30.182459999999999997 WBNB and nets
  0.49999999999999999 percent, which reads as the number 0.5. The second borrows 0.1 BTCB
  over BTCB, ETH, CAKE, USDT, BTCB and nets 0.29999999999999999 percent, which reads as
  the number 0.3; its first hop has a price impact of 0.75, and its second hop was quoted
  at 500 CAKE and gave 492.5, a slippage of 1.5. The third is the opportunity that nets
  0.25 percent with a price impact of 0.1 on every hop, the double
  \<open>3602879701896397 / 2 ^ 55\<close>.
\<close>

definition near_half_opportunity :: costed_opportunity where
  "near_half_opportunity =
     \<lparr> path = [''WBNB'', ''USDT'', ''BTCB'', ''WBNB''],
       opp_dexes = [''PANCAKESWAP_V2'', ''PANCAKESWAP_V2'', ''PANCAKESWAP_V2''],
       opp_flashLoanAsset = Some ''WBNB'',
       flashLoanAmount = Fin 30,
       finalAmount = Fin (30182459999999999997 / 10 ^ 18),
       grossProfit = Fin (182459999999999997 / 10 ^ 18),
       profitPercent = Fin (5478178586733471 / 2 ^ 53),
       swapDetails =
         [\<lparr> sd_index = 0, sd_from = Some ''WBNB'', sd_to = Some ''USDT'',
             sd_dex = ''PANCAKESWAP_V2'', amountIn = Fin 30, amountOut = Fin 9000,
             price = Fin 300, priceImpact = Fin (1 / 2), slippage = Fin 0 \<rparr>,
          \<lparr> sd_index = 1, sd_from = Some ''USDT'', sd_to = Some ''BTCB'',
             sd_dex = ''PANCAKESWAP_V2'', amountIn = Fin 9000, amountOut = Fin (1935 / 10000),
             price = Fin (215 / 10000000), priceImpact = Fin (1 / 4), slippage = Fin 0 \<rparr>,
          \<lparr> sd_index = 2, sd_from = Some ''BTCB'', sd_to = Some ''WBNB'',
             sd_dex = ''PANCAKESWAP_V2'', amountIn = Fin (1935 / 10000),
             amountOut = Fin (30182459999999999997 / 10 ^ 18),
             price = Fin (15598170542635658913178 / 10 ^ 20), priceImpact = Fin 0,
             slippage = Fin 0 \<rparr>],
       opp_isCircular = True,
       totalHops = 3,
       gasCost = Fin (546 / 100000),
       flashLoanFee = Fin (27 / 1000),
       totalCosts = Fin (3246 / 100000),
       profitAfterCosts = Fin (149999999999999997 / 10 ^ 18),
       netROI = Fin (49999999999999999 / 10 ^ 17) \<rparr>"

definition near_three_tenths_opportunity :: costed_opportunity where
  "near_three_tenths_opportunity =
     \<lparr> path = [''BTCB'', ''ETH'', ''CAKE'', ''USDT'', ''BTCB''],
       opp_dexes = [''PANCAKESWAP_V2'', ''BISWAP'', ''MDEX'', ''APESWAP''],
       opp_flashLoanAsset = Some ''BTCB'',
       flashLoanAmount = Fin (1 / 10),
       finalAmount = Fin (10710999999999999999 / 10 ^ 20),
       grossProfit = Fin (710999999999999999 / 10 ^ 20),
       profitPercent = Fin (8005148337651057 / 2 ^ 50),
       swapDetails =
         [\<lparr> sd_index = 0, sd_from = Some ''BTCB'', sd_to = Some ''ETH'',
             sd_dex = ''PANCAKESWAP_V2'', amountIn = Fin (1 / 10), amountOut = Fin 2,
             price = Fin 20, priceImpact = Fin (3 / 4), slippage = Fin 0 \<rparr>,
          \<lparr> sd_index = 1, sd_from = Some ''ETH'', sd_to = Some ''CAKE'',
             sd_dex = ''BISWAP'', amountIn = Fin 2, amountOut = Fin 985,
             price = Fin 500, priceImpact = Fin (1 / 4), slippage = Fin (3 / 2) \<rparr>,
          \<lparr> sd_index = 2, sd_from = Some ''CAKE'', sd_to = Some ''USDT'',
             sd_dex = ''MDEX'', amountIn = Fin 985, amountOut = Fin (24625 / 10),
             price = Fin (5 / 2), priceImpact = Fin 0, slippage = Fin 0 \<rparr>,
          \<lparr> sd_index = 3, sd_from = Some ''USDT'', sd_to = Some ''BTCB'',
             sd_dex = ''APESWAP'', amountIn = Fin (24625 / 10),
             amountOut = Fin (10710999999999999999 / 10 ^ 20),
             price = Fin (4349644670050761 / 10 ^ 20), priceImpact = Fin (1 / 8),
             slippage = Fin 0 \<rparr>],
       opp_isCircular = True,
       totalHops = 4,
       gasCost = Fin (672 / 100000),
       flashLoanFee = Fin (9 / 100000),
       totalCosts = Fin (681 / 100000),
       profitAfterCosts = Fin (29999999999999999 / 10 ^ 20),
       netROI = Fin (29999999999999999 / 10 ^ 17) \<rparr>"

definition tenth_impact_opportunity :: costed_opportunity where
  "tenth_impact_opportunity =
     quarter_roi_opportunity
       \<lparr> swapDetails :=
           map (\<lambda>d. d\<lparr> priceImpact := Fin (3602879701896397 / 2 ^ 55) \<rparr>)
             (swapDetails quarter_roi_opportunity) \<rparr>"

section \<open>The scanner\<close>

text \<open>
  A path as \<^verbatim>\<open>generateDexCombinationsForPath\<close> builds it and as the scanner reads it.
  The fields \<^verbatim>\<open>id\<close> (a hash of the two sequences) and \<^verbatim>\<open>swaps\<close> (the hops once
  more, with the venue's configuration) are left out: no function below reads them.
\<close>

record circular_path =
  tokens :: "string list"
  dexes :: "string list"
  hops :: int
  flashLoanAsset :: string
  isCircular :: bool
  estimatedComplexity :: int
  liquidityScore :: int

text \<open>A quote, as \<^verbatim>\<open>PriceFetcher.getPrice\<close> returns and caches it.\<close>

record price_data =
  pd_dex :: string
  pd_tokenIn :: string
  pd_tokenOut :: string
  pd_amountIn :: jsnum
  pd_amountOut :: jsnum
  pd_price :: jsnum
  pd_timestamp :: int

text \<open>The scanner's parameters, with the values its constructor sets. The two
  thresholds are numbers, the literals \<^verbatim>\<open>0.001\<close> and \<^verbatim>\<open>2\<close>; the gas prices are
  \<^verbatim>\<open>BigNumber\<close>s, and so is the fee once \<^verbatim>\<open>multipliedBy\<close> has read the literal
  \<^verbatim>\<open>0.0009\<close> from its shortest decimal form.\<close>

record scanner =
  cfg_minProfitThreshold :: jsnum
  cfg_maxPriceImpact :: jsnum
  cfg_gasPrice :: jsnum
  cfg_priorityFee :: jsnum
  cfg_flashLoanFee :: jsnum

definition default_scanner :: scanner where
  "default_scanner =
     \<lparr> cfg_minProfitThreshold = to_double (1 / 1000), cfg_maxPriceImpact = Fin 2,
       cfg_gasPrice = Fin 5, cfg_priorityFee = Fin 2, cfg_flashLoanFee = Fin (9 / 10000) \<rparr>"

text \<open>
  The two calls the scanner makes to the price fetcher, \<^verbatim>\<open>getPrice\<close> and
  \<^verbatim>\<open>calculatePriceImpact\<close> (\<open>None\<close> is \<^verbatim>\<open>null\<close>; the impact is the number in the
  returned object). They answer from the network and the clock, so the same arguments may
  get different answers at different hops: the hop index is an argument. The amount is
  passed as the number its decimal string denotes.
\<close>

record price_feed =
  feed_getPrice :: "nat \<Rightarrow> string \<Rightarrow> string option \<Rightarrow> string option \<Rightarrow> jsnum \<Rightarrow> price_data option"
  feed_priceImpact :: "nat \<Rightarrow> string \<Rightarrow> string option \<Rightarrow> string option \<Rightarrow> jsnum \<Rightarrow> jsnum option"

text \<open>\<^verbatim>\<open>xs[i]\<close>: \<^verbatim>\<open>undefined\<close> outside the array. \<open>js_str\<close> is how a template
  literal prints a value that may be \<^verbatim>\<open>undefined\<close>.\<close>

definition js_index :: "'a list \<Rightarrow> int \<Rightarrow> 'a option" where
  "js_index xs i = (if 0 \<le> i \<and> i < int (length xs) then Some (xs ! nat i) else None)"

definition js_str :: "string option \<Rightarrow> string" where
  "js_str v = (case v of None \<Rightarrow> ''undefined'' | Some s \<Rightarrow> s)"

text \<open>\<^verbatim>\<open>TOKEN_ADDRESSES\<close> is configuration that is not part of the sources: a
  parameter, from symbols to addresses. A symbol without an entry is its own address.\<close>

definition getTokenAddress :: "(string \<rightharpoonup> string) \<Rightarrow> string option \<Rightarrow> string option" where
  "getTokenAddress token_addresses symbol =
     (case symbol of
        None \<Rightarrow> None
      | Some s \<Rightarrow> (case token_addresses s of Some a \<Rightarrow> Some a | None \<Rightarrow> Some s))"

definition calculateSlippage :: "jsnum \<Rightarrow> jsnum \<Rightarrow> jsnum \<Rightarrow> jsnum" where
  "calculateSlippage amount_in amount_out expectedPrice =
     (let actualPrice = bn_div amount_out amount_in;
          slippage =
            num_abs (num_mul (bn_div (num_sub expectedPrice actualPrice) expectedPrice) (Fin 100))
      in toNumber slippage)"

text \<open>The price snapshot is an object from pair keys to objects from venue names to
  quotes. A quote found under the reversed pair is inverted.\<close>

definition getPriceFromCache ::
  "(string \<rightharpoonup> (string \<rightharpoonup> price_data)) \<Rightarrow> string \<Rightarrow> string option \<Rightarrow> string option \<Rightarrow> jsnum
     \<Rightarrow> price_data option" where
  "getPriceFromCache currentPrices dex tokenIn tokenOut amount_in =
     (let pairKey = js_str tokenIn @ ''/'' @ js_str tokenOut;
          reversePairKey = js_str tokenOut @ ''/'' @ js_str tokenIn
      in case (case currentPrices pairKey of None \<Rightarrow> None | Some by_dex \<Rightarrow> by_dex dex) of
           Some pd \<Rightarrow> Some pd
         | None \<Rightarrow>
             (case (case currentPrices reversePairKey of None \<Rightarrow> None
                    | Some by_dex \<Rightarrow> by_dex dex) of
                Some reversePrice \<Rightarrow>
                  Some (reversePrice\<lparr> pd_amountOut := bn_div amount_in (pd_price reversePrice),
                                      pd_price := bn_div (Fin 1) (pd_price reversePrice) \<rparr>)
              | None \<Rightarrow> None))"

definition baseAmounts :: "(string \<times> jsnum) list" where
  "baseAmounts =
     [(''WBNB'', Fin 10), (''USDT'', Fin 3000), (''USDC'', Fin 3000),
      (''BTCB'', Fin (1 / 10)), (''ETH'', Fin (3 / 2)), (''CAKE'', Fin 1000)]"

definition calculateOptimalFlashLoanAmount :: "circular_path \<Rightarrow> jsnum" where
  "calculateOptimalFlashLoanAmount p =
     (let baseAmount0 =
            (case map_of baseAmounts (flashLoanAsset p) of Some b \<Rightarrow> b | None \<Rightarrow> Fin 1);
          baseAmount1 =
            (if hops p \<le> 3 then num_mul baseAmount0 (Fin 2)
             else if hops p \<ge> 6 then num_mul baseAmount0 (Fin (1 / 2))
             else baseAmount0);
          baseAmount2 =
            (if liquidityScore p \<ge> 50 then num_mul baseAmount1 (Fin (3 / 2))
             else if liquidityScore p < 30 then num_mul baseAmount1 (Fin (7 / 10))
             else baseAmount1)
      in baseAmount2)"

text \<open>
  The \<^verbatim>\<open>for\<close> loop of \<^verbatim>\<open>calculateCircularPathProfit\<close> over \<^verbatim>\<open>path.dexes\<close>, from
  hop \<open>i\<close> on: the state is the current amount, the current token and the swaps pushed
  so far; \<open>None\<close> is a \<^verbatim>\<open>return null\<close> from inside the loop. \<open>swap_detail_of\<close> is
  the object that one turn of the loop pushes.
\<close>

definition swap_detail_of ::
  "nat \<Rightarrow> string option \<Rightarrow> string option \<Rightarrow> string \<Rightarrow> jsnum \<Rightarrow> price_data \<Rightarrow> jsnum option
     \<Rightarrow> swap_detail" where
  "swap_detail_of i currentToken nextToken dex currentAmount pd impact =
     (let amount_out = pd_amountOut pd
      in \<lparr> sd_index = i, sd_from = currentToken, sd_to = nextToken, sd_dex = dex,
           amountIn = currentAmount, amountOut = amount_out, price = pd_price pd,
           priceImpact = (case impact of None \<Rightarrow> Fin 0 | Some x \<Rightarrow> x),
           slippage = calculateSlippage currentAmount amount_out (pd_price pd) \<rparr>)"

fun swap_loop ::
  "price_feed \<Rightarrow> scanner \<Rightarrow> (string \<rightharpoonup> string) \<Rightarrow> (string \<rightharpoonup> (string \<rightharpoonup> price_data)) option
     \<Rightarrow> circular_path \<Rightarrow> nat \<Rightarrow> string list \<Rightarrow> jsnum \<Rightarrow> string option \<Rightarrow> swap_detail list
     \<Rightarrow> (jsnum \<times> string option \<times> swap_detail list) option" where
  "swap_loop feed sc tbl currentPrices p i [] currentAmount currentToken details =
     Some (currentAmount, currentToken, details)"
| "swap_loop feed sc tbl currentPrices p i (dex # rest) currentAmount currentToken details =
     (let nextToken = js_index (tokens p) (int i + 1);
          currentTokenAddress = getTokenAddress tbl currentToken;
          nextTokenAddress = getTokenAddress tbl nextToken;
          priceData =
            (case currentPrices of
               Some cp \<Rightarrow>
                 getPriceFromCache cp dex currentTokenAddress nextTokenAddress currentAmount
             | None \<Rightarrow>
                 feed_getPrice feed i dex currentTokenAddress nextTokenAddress currentAmount)
      in case priceData of
           None \<Rightarrow> None
         | Some pd \<Rightarrow>
             (let impact =
                    feed_priceImpact feed i dex currentTokenAddress nextTokenAddress currentAmount
              in if (case impact of None \<Rightarrow> False
                     | Some x \<Rightarrow> num_gt x (cfg_maxPriceImpact sc))
                 then None
                 else swap_loop feed sc tbl currentPrices p (i + 1) rest (pd_amountOut pd)
                        nextToken
                        (details @ [swap_detail_of i currentToken nextToken dex currentAmount
                                      pd impact])))"

text \<open>\<^verbatim>\<open>calculateCircularPathProfit\<close>, with the loan amount that its first statement
  computes as an argument of the rest of the body.\<close>

definition circular_profit_from ::
  "price_feed \<Rightarrow> scanner \<Rightarrow> (string \<rightharpoonup> string) \<Rightarrow> circular_path
     \<Rightarrow> (string \<rightharpoonup> (string \<rightharpoonup> price_data)) option \<Rightarrow> jsnum \<Rightarrow> profit_result option" where
  "circular_profit_from feed sc tbl p currentPrices loan =
     (let asset = js_index (tokens p) 0
      in case swap_loop feed sc tbl currentPrices p 0 (dexes p) loan asset [] of
           None \<Rightarrow> None
         | Some (currentAmount, currentToken, details) \<Rightarrow>
             if currentToken \<noteq> asset then None
             else
               (let gross = num_sub currentAmount loan;
                    grossProfitPercent = num_mul (bn_div gross loan) (Fin 100)
                in Some \<lparr> path = tokens p, opp_dexes = dexes p, opp_flashLoanAsset = asset,
                          flashLoanAmount = loan, finalAmount = currentAmount,
                          grossProfit = gross, profitPercent = toNumber grossProfitPercent,
                          swapDetails = details, opp_isCircular = True,
                          totalHops = hops p \<rparr>))"

definition calculateCircularPathProfit ::
  "price_feed \<Rightarrow> scanner \<Rightarrow> (string \<rightharpoonup> string) \<Rightarrow> circular_path
     \<Rightarrow> (string \<rightharpoonup> (string \<rightharpoonup> price_data)) option \<Rightarrow> profit_result option" where
  "calculateCircularPathProfit feed sc tbl p currentPrices =
     circular_profit_from feed sc tbl p currentPrices (calculateOptimalFlashLoanAmount p)"

text \<open>\<^verbatim>\<open>dex.includes('V3')\<close> is \<open>sublist\<close>, a contiguous part of the name.\<close>

definition estimateGasCost :: "scanner \<Rightarrow> circular_path \<Rightarrow> jsnum" where
  "estimateGasCost sc p =
     (let baseGasPerSwap = (150000::int);
          additionalGasPerHop = (30000::int);
          flashLoanOverhead = (250000::int);
          circularPathOverhead = (50000::int);
          totalGas = baseGasPerSwap * hops p + additionalGasPerHop * max 0 (hops p - 2)
                     + flashLoanOverhead + circularPathOverhead;
          v3SwapCount =
            length (filter (\<lambda>dex. sublist ''V3'' dex \<or> sublist ''UNISWAP_V3'' dex) (dexes p));
          v3ExtraGas = int v3SwapCount * 50000;
          finalGasEstimate = totalGas + v3ExtraGas;
          gas_price = num_add (cfg_gasPrice sc) (cfg_priorityFee sc);
          gasCostWei = num_mul (num_mul (Fin (of_int finalGasEstimate)) gas_price) (Fin (10 ^ 9));
          gasCostInAsset = bn_div gasCostWei (Fin (10 ^ 18))
      in gasCostInAsset)"

record total_costs =
  tc_gasCost :: jsnum
  tc_flashLoanFee :: jsnum
  tc_total :: jsnum

definition calculateTotalCosts :: "scanner \<Rightarrow> circular_path \<Rightarrow> jsnum \<Rightarrow> total_costs" where
  "calculateTotalCosts sc p loan =
     (let gas = estimateGasCost sc p;
          fee = num_mul loan (cfg_flashLoanFee sc);
          sum = num_add gas fee
      in \<lparr> tc_gasCost = gas, tc_flashLoanFee = fee, tc_total = sum \<rparr>)"

text \<open>\<^verbatim>\<open>scanPath\<close> after the profit is known: the assignments of the costs and the net
  figures (\<open>assign_costs\<close>), then of the confidence and the risk level
  (\<open>assess_risk\<close>), then the final test.\<close>

definition assign_costs :: "scanner \<Rightarrow> circular_path \<Rightarrow> profit_result \<Rightarrow> costed_opportunity" where
  "assign_costs sc p opp =
     (let costs = calculateTotalCosts sc p (flashLoanAmount opp);
          net = num_sub (grossProfit opp) (tc_total costs);
          roi = num_mul (bn_div net (flashLoanAmount opp)) (Fin 100)
      in profit_result.extend opp
           (costed_opportunity.fields (tc_gasCost costs) (tc_flashLoanFee costs) (tc_total costs)
              net roi))"

definition assess_risk :: "costed_opportunity \<Rightarrow> opportunity" where
  "assess_risk opp =
     costed_opportunity.extend opp
       (opportunity.fields (calculateConfidenceScore opp) (calculateRiskLevel opp))"

definition scanPath ::
  "price_feed \<Rightarrow> scanner \<Rightarrow> (string \<rightharpoonup> string) \<Rightarrow> circular_path
     \<Rightarrow> (string \<rightharpoonup> (string \<rightharpoonup> price_data)) option \<Rightarrow> opportunity option" where
  "scanPath feed sc tbl p currentPrices =
     (if \<not> isCircular p
         \<or> js_index (tokens p) 0 \<noteq> js_index (tokens p) (int (length (tokens p)) - 1)
      then None
      else
        (case calculateCircularPathProfit feed sc tbl p currentPrices of
           None \<Rightarrow> None
         | Some found \<Rightarrow>
             if num_lt (profitPercent found) (cfg_minProfitThreshold sc) then None
             else
               (let opp = assess_risk (assign_costs sc p found)
                in if num_gt (profitAfterCosts opp) (Fin 0) then Some opp else None)))"


text \<open>What the generator gives every path it builds (\<open>generated_paths_shape\<close> below)
  and the scanner relies on: the hop count is the number of venues, there is a venue, and
  the flash-loan asset is the first token.\<close>

definition generated_shape :: "circular_path \<Rightarrow> bool" where
  "generated_shape p \<longleftrightarrow>
     hops p = int (length (dexes p)) \<and> dexes p \<noteq> []
     \<and> js_index (tokens p) 0 = Some (flashLoanAsset p)"

text \<open>The WBNB scenario: three hops whose outputs are 300, 0.00645 and 1.005 times the
  loan (3000 USDT, 0.0645 BTCB and 10.05 WBNB for a loan of 10 WBNB).\<close>

definition wbnb_scenario_path :: circular_path where
  "wbnb_scenario_path =
     \<lparr> tokens = [''WBNB'', ''USDT'', ''BTCB'', ''WBNB''],
       dexes = [''PANCAKESWAP_V2'', ''PANCAKESWAP_V2'', ''PANCAKESWAP_V2''],
       hops = 3, flashLoanAsset = ''WBNB'', isCircular = True,
       estimatedComplexity = 35, liquidityScore = 85 \<rparr>"

definition scenario_outputs :: "jsnum \<Rightarrow> nat \<Rightarrow> jsnum" where
  "scenario_outputs loan i =
     num_mul loan (Fin ([300, 645 / 100000, 1005 / 1000] ! (i mod 3)))"

definition scenario_feed :: "jsnum \<Rightarrow> price_feed" where
  "scenario_feed loan =
     \<lparr> feed_getPrice = (\<lambda>i dex tokenIn tokenOut amount_in.
         Some \<lparr> pd_dex = dex, pd_tokenIn = js_str tokenIn, pd_tokenOut = js_str tokenOut,
                pd_amountIn = amount_in, pd_amountOut = scenario_outputs loan i,
                pd_price = bn_div (scenario_outputs loan i) amount_in,
                pd_timestamp = 1700000000000 \<rparr>),
       feed_priceImpact = (\<lambda>i dex tokenIn tokenOut amount_in.
         Some (Fin ([1 / 2, 1 / 4, 0] ! (i mod 3)))) \<rparr>"

definition no_addresses :: "string \<rightharpoonup> string" where
  "no_addresses = Map.empty"

text \<open>The same venues when the last hop returns 30.182459999999999997 WBNB for the
  loan of 30 that the scanner chooses for this path.\<close>

definition near_half_feed :: price_feed where
  "near_half_feed =
     \<lparr> feed_getPrice = (\<lambda>i dex tokenIn tokenOut amount_in.
         Some \<lparr> pd_dex = dex, pd_tokenIn = js_str tokenIn, pd_tokenOut = js_str tokenOut,
                pd_amountIn = amount_in,
                pd_amountOut =
                  Fin ([9000, 1935 / 10000, 30182459999999999997 / 10 ^ 18] ! (i mod 3)),
                pd_price =
                  bn_div (Fin ([9000, 1935 / 10000, 30182459999999999997 / 10 ^ 18] ! (i mod 3)))
                    amount_in,
                pd_timestamp = 1700000000000 \<rparr>),
       feed_priceImpact = (\<lambda>i dex tokenIn tokenOut amount_in.
         Some (Fin ([1 / 2, 1 / 4, 0] ! (i mod 3)))) \<rparr>"


section \<open>The price fetcher\<close>

text \<open>
  The fetcher's state: the contracts that \<^verbatim>\<open>initializeContracts\<close> built from the venue
  configuration (a router for a \<^verbatim>\<open>UniswapV2\<close> venue, a router and a quoter for a
  \<^verbatim>\<open>UniswapV3\<close> one), the fee tiers of the configuration, the cache and its timeout.
\<close>

datatype contract_kind = V2 | V3

record cache_entry =
  ce_data :: price_data
  ce_timestamp :: int

record fetcher =
  contracts :: "string \<rightharpoonup> contract_kind"
  fee_tiers :: "string \<rightharpoonup> nat list"
  priceCache :: "string \<rightharpoonup> cache_entry"
  cacheTimeout :: int

text \<open>
  What one call of \<^verbatim>\<open>getPrice\<close> reads from outside: \<^verbatim>\<open>Date.now()\<close> at the cache
  check, in the result and at the cache write, and the answers of the venues' contracts.
  An answer is the formatted output amount, the last of the amounts for a route through
  the router; \<open>None\<close> when the call, or the conversion of its argument or result,
  throws. The first argument names the venue whose contract is called.
\<close>

record venue_world =
  clock_check :: int
  clock_result :: int
  clock_store :: int
  router_getAmountsOut :: "string \<Rightarrow> string \<Rightarrow> string list \<Rightarrow> string option"
  quoter_quoteExactInputSingle :: "string \<Rightarrow> string \<Rightarrow> string \<Rightarrow> nat \<Rightarrow> string \<Rightarrow> string option"

text \<open>\<^verbatim>\<open>getPriceV2\<close> and \<^verbatim>\<open>getPriceV3\<close>, each with the number of contract calls it
  attempted. The first retries through WBNB, the second tries the fee tiers in order.\<close>

definition WBNB_address :: string where
  "WBNB_address = ''0xbb4CdB9CBd36B01bD1cBaEBF2De08d9173bc095c''"

definition getPriceV2 ::
  "venue_world \<Rightarrow> string \<Rightarrow> string \<Rightarrow> string \<Rightarrow> string \<Rightarrow> string option \<times> nat" where
  "getPriceV2 w dexName tokenIn tokenOut amount_in =
     (case router_getAmountsOut w dexName amount_in [tokenIn, tokenOut] of
        Some out \<Rightarrow> (Some out, 1)
      | None \<Rightarrow>
          if tokenIn \<noteq> WBNB_address \<and> tokenOut \<noteq> WBNB_address
          then (router_getAmountsOut w dexName amount_in [tokenIn, WBNB_address, tokenOut], 2)
          else (None, 1))"

fun try_fee_tiers ::
  "venue_world \<Rightarrow> string \<Rightarrow> string \<Rightarrow> string \<Rightarrow> string \<Rightarrow> nat list \<Rightarrow> nat
     \<Rightarrow> string option \<times> nat" where
  "try_fee_tiers w dexName tokenIn tokenOut amount_in [] n = (None, n)"
| "try_fee_tiers w dexName tokenIn tokenOut amount_in (fee # fees) n =
     (case quoter_quoteExactInputSingle w dexName tokenIn tokenOut fee amount_in of
        Some out \<Rightarrow> (Some out, n + 1)
      | None \<Rightarrow> try_fee_tiers w dexName tokenIn tokenOut amount_in fees (n + 1))"

definition getPriceV3 ::
  "venue_world \<Rightarrow> fetcher \<Rightarrow> string \<Rightarrow> string \<Rightarrow> string \<Rightarrow> string \<Rightarrow> string option \<times> nat" where
  "getPriceV3 w st dexName tokenIn tokenOut amount_in =
     (case fee_tiers st dexName of
        None \<Rightarrow> (None, 0)
      | Some fees \<Rightarrow> try_fee_tiers w dexName tokenIn tokenOut amount_in fees 0)"

text \<open>
  \<^verbatim>\<open>getPrice\<close>. The cache key is the template string of the four arguments. The
  BigNumber constructor from a decimal string is a parameter (\<open>bn\<close>). The result is the
  quote or \<^verbatim>\<open>null\<close>, the fetcher's new state and the number of contract calls attempted.
\<close>

definition cacheKey :: "string \<Rightarrow> string \<Rightarrow> string \<Rightarrow> string \<Rightarrow> string" where
  "cacheKey dexName tokenIn tokenOut amount_in =
     dexName @ ''-'' @ tokenIn @ ''-'' @ tokenOut @ ''-'' @ amount_in"

definition cache_lookup :: "venue_world \<Rightarrow> fetcher \<Rightarrow> string \<Rightarrow> price_data option" where
  "cache_lookup w st k =
     (case priceCache st k of
        None \<Rightarrow> None
      | Some cached \<Rightarrow>
          if clock_check w - ce_timestamp cached < cacheTimeout st then Some (ce_data cached)
          else None)"

definition getPrice ::
  "(string \<Rightarrow> jsnum) \<Rightarrow> venue_world \<Rightarrow> fetcher \<Rightarrow> string \<Rightarrow> string \<Rightarrow> string \<Rightarrow> string
     \<Rightarrow> price_data option \<times> fetcher \<times> nat" where
  "getPrice bn w st dexName tokenIn tokenOut amount_in =
     (let k = cacheKey dexName tokenIn tokenOut amount_in
      in case cache_lookup w st k of
           Some hit \<Rightarrow> (Some hit, st, 0)
         | None \<Rightarrow>
             (case contracts st dexName of
                None \<Rightarrow> (None, st, 0)
              | Some kind \<Rightarrow>
                  (let (quoted, calls) =
                         (case kind of
                            V2 \<Rightarrow> getPriceV2 w dexName tokenIn tokenOut amount_in
                          | V3 \<Rightarrow> getPriceV3 w st dexName tokenIn tokenOut amount_in)
                   in case quoted of
                        None \<Rightarrow> (None, st, calls)
                      | Some amount_out \<Rightarrow>
                          (let result =
                                 \<lparr> pd_dex = dexName, pd_tokenIn = tokenIn, pd_tokenOut = tokenOut,
                                   pd_amountIn = bn amount_in, pd_amountOut = bn amount_out,
                                   pd_price = bn_div (bn amount_out) (bn amount_in),
                                   pd_timestamp = clock_result w \<rparr>
                           in (Some result,
                               st\<lparr> priceCache := (priceCache st)
                                     (k \<mapsto> \<lparr> ce_data = result, ce_timestamp = clock_store w \<rparr>) \<rparr>,
                               calls)))))"

text \<open>
  A quote is fetched upstream for an amount when some call of \<^verbatim>\<open>getPrice\<close> with that
  amount (as a string) asked a venue and returned it. The slippage that the scanner
  computes from such a quote is degenerate: zero for a nonzero finite unit price, NaN for
  a unit price of zero, an infinite one or NaN.
\<close>

definition fetched_upstream :: "(string \<Rightarrow> jsnum) \<Rightarrow> price_data \<Rightarrow> jsnum \<Rightarrow> bool" where
  "fetched_upstream bn q amount \<longleftrightarrow>
     (\<exists>w st st' n dexName tokenIn tokenOut amount_in.
        getPrice bn w st dexName tokenIn tokenOut amount_in = (Some q, st', Suc n)
        \<and> bn amount_in = amount)"

definition degenerate_slippage :: "jsnum \<Rightarrow> jsnum" where
  "degenerate_slippage unit_price =
     (case unit_price of Fin x \<Rightarrow> if x = 0 then NaN else Fin 0 | _ \<Rightarrow> NaN)"

definition self_quoted :: "swap_detail \<Rightarrow> bool" where
  "self_quoted d \<longleftrightarrow> slippage d = degenerate_slippage (price d)"

text \<open>
  The scanner's price feed when it is the fetcher, at a fixed state of the cache:
  the amount is printed (\<open>to_string\<close>), \<^verbatim>\<open>getPrice\<close> is called in the world of the hop,
  and only quotes fetched upstream are passed on. Concrete values for it follow: a
  fetcher with the six venues and an empty cache, a constructor and a printer that know
  the amounts of the examples, and worlds whose routers answer with given outputs.
\<close>

definition fetcher_feed ::
  "(string \<Rightarrow> jsnum) \<Rightarrow> (jsnum \<Rightarrow> string option) \<Rightarrow> (nat \<Rightarrow> venue_world) \<Rightarrow> fetcher \<Rightarrow> price_feed" where
  "fetcher_feed bn to_string worlds st =
     \<lparr> feed_getPrice = (\<lambda>i dex a b amount.
         case to_string amount of
           None \<Rightarrow> None
         | Some s \<Rightarrow>
             if bn s = amount
             then (case getPrice bn (worlds i) st dex (js_str a) (js_str b) s of
                     (r, st', n) \<Rightarrow> if n = 0 then None else r)
             else None),
       feed_priceImpact = (\<lambda>i dex a b amount. Some (Fin (1 / 10))) \<rparr>"

definition demo_bn :: "string \<Rightarrow> jsnum" where
  "demo_bn s =
     (case map_of [(''30'', Fin 30), (''9000.0'', Fin 9000), (''0.1935'', Fin (1935 / 10000)),
                   (''30.15'', Fin (3015 / 100)), (''0.0'', Fin 0)] s of
        Some v \<Rightarrow> v | None \<Rightarrow> NaN)"

definition demo_toString :: "jsnum \<Rightarrow> string option" where
  "demo_toString v =
     (if v = Fin 30 then Some ''30'' else if v = Fin 9000 then Some ''9000.0''
      else if v = Fin (1935 / 10000) then Some ''0.1935'' else None)"

definition demo_fetcher :: fetcher where
  "demo_fetcher =
     \<lparr> contracts = map_of [(''PANCAKESWAP_V2'', V2), (''PANCAKESWAP_V3'', V3), (''BISWAP'', V2),
                           (''MDEX'', V2), (''UNISWAP_V3'', V3), (''APESWAP'', V2)],
       fee_tiers = map_of [(''PANCAKESWAP_V3'', [100, 500, 2500, 10000]),
                           (''UNISWAP_V3'', [100, 500, 3000, 10000])],
       priceCache = Map.empty,
       cacheTimeout = 5000 \<rparr>"

definition demo_world :: "string list \<Rightarrow> int \<Rightarrow> nat \<Rightarrow> venue_world" where
  "demo_world outputs now i =
     \<lparr> clock_check = now, clock_result = now + 40, clock_store = now + 41,
       router_getAmountsOut = (\<lambda>dexName amount_in route. Some (outputs ! (i mod length outputs))),
       quoter_quoteExactInputSingle = (\<lambda>dexName tokenIn tokenOut fee amount_in. None) \<rparr>"


definition zero_quote :: price_data where
  "zero_quote =
     \<lparr> pd_dex = ''PANCAKESWAP_V2'', pd_tokenIn = ''WBNB'', pd_tokenOut = ''USDT'',
       pd_amountIn = Fin 30, pd_amountOut = Fin 0, pd_price = Fin 0,
       pd_timestamp = 1700000000040 \<rparr>"

section \<open>The path generator\<close>

text \<open>
  The generator's configuration: the flash-loan assets and the venue names are the keys
  of the two configuration objects its constructor receives; \<open>dex_type\<close> is the
  \<^verbatim>\<open>type\<close> of a venue's configuration; \<open>trading_pairs\<close> is
  \<^verbatim>\<open>TRADING_PAIRS[token] || []\<close>, a table that is not part of the sources. The list of
  generated paths is threaded through the functions that push to it.
\<close>

record generator =
  flashLoanAssets :: "string list"
  dexNames :: "string list"
  dex_type :: "string \<rightharpoonup> string"
  trading_pairs :: "string \<Rightarrow> string list"

definition minHops :: int where "minHops = 2"
definition maxHops :: int where "maxHops = 10"

definition highLiquidityDexes :: "string list" where
  "highLiquidityDexes = [''PANCAKESWAP_V2'', ''PANCAKESWAP_V3'', ''BISWAP'']"

definition v2Dexes :: "string list" where
  "v2Dexes = [''PANCAKESWAP_V2'', ''BISWAP'', ''MDEX'', ''APESWAP'']"

definition v3Dexes :: "string list" where
  "v3Dexes = [''PANCAKESWAP_V3'', ''UNISWAP_V3'']"

text \<open>The four strategies, in the order their combinations are pushed.\<close>

definition generateStrategicDexCombinations :: "generator \<Rightarrow> nat \<Rightarrow> string list list" where
  "generateStrategicDexCombinations g swapCount =
     (let n = length (dexNames g);
          strategy1 =
            (if swapCount \<le> n
             then map (\<lambda>i. map (\<lambda>j. dexNames g ! ((i + j) mod n)) [0..<swapCount])
                    [0..<n - swapCount + 1]
             else []);
          strategy2 =
            map (\<lambda>i. map (\<lambda>j. highLiquidityDexes ! ((i + j) mod length highLiquidityDexes))
                       [0..<swapCount])
              [0..<min 3 swapCount];
          strategy3 =
            (if swapCount \<ge> 2
             then map (\<lambda>i. map (\<lambda>j. if j mod 2 = 0 then v2Dexes ! (i mod length v2Dexes)
                                     else v3Dexes ! (i mod length v3Dexes))
                              [0..<swapCount])
                    [0..<min 2 (swapCount - 1)]
             else []);
          strategy4 =
            [replicate swapCount ''PANCAKESWAP_V2'', replicate swapCount ''PANCAKESWAP_V3'']
      in strategy1 @ strategy2 @ strategy3 @ strategy4)"

text \<open>A token read beyond the end of the token path is \<^verbatim>\<open>undefined\<close>, which has no
  trading pairs and is in no list of pairs.\<close>

definition isPairLikelyToExist ::
  "generator \<Rightarrow> string option \<Rightarrow> string option \<Rightarrow> string \<Rightarrow> bool" where
  "isPairLikelyToExist g tokenIn tokenOut dex =
     (case tokenIn of
        None \<Rightarrow> False
      | Some a \<Rightarrow> (case tokenOut of None \<Rightarrow> False | Some b \<Rightarrow> b \<in> set (trading_pairs g a)))"

definition validateDexCombination :: "generator \<Rightarrow> string list \<Rightarrow> string list \<Rightarrow> bool" where
  "validateDexCombination g tokenPath dexCombination =
     list_all (\<lambda>i. isPairLikelyToExist g (js_index tokenPath (int i))
                      (js_index tokenPath (int i + 1)) (dexCombination ! i))
       [0..<length dexCombination]"

definition calculatePathComplexity :: "generator \<Rightarrow> string list \<Rightarrow> string list \<Rightarrow> int" where
  "calculatePathComplexity g tokenPath dexCombination =
     (let complexity0 = (0::int);
          complexity1 = complexity0 + (int (length tokenPath) - 1) * 10;
          complexity2 = complexity1 + int (card (set dexCombination)) * 5;
          v3Count = length (filter (\<lambda>dex. dex_type g dex = Some ''UniswapV3'') dexCombination);
          complexity3 = complexity2 + int v3Count * 15
      in complexity3)"

definition calculateLiquidityScore :: "string list \<Rightarrow> string \<Rightarrow> int" where
  "calculateLiquidityScore tokenPath asset =
     (let highLiquidityTokens = [''WBNB'', ''USDT'', ''USDC'', ''BTCB'', ''ETH''];
          mediumLiquidityTokens = [''CAKE''];
          score1 = foldl (\<lambda>score t.
                      if t \<in> set highLiquidityTokens then score + 10
                      else if t \<in> set mediumLiquidityTokens then score + 5
                      else score + 1) (0::int) tokenPath;
          score2 = (if asset \<in> set highLiquidityTokens then score1 + 25 else score1);
          score3 = (if ''WBNB'' \<in> set tokenPath then score2 + 20 else score2);
          stablecoins = [''USDT'', ''USDC''];
          stablecoinCount = length (filter (\<lambda>t. t \<in> set stablecoins) tokenPath);
          score4 = (if stablecoinCount \<ge> 2 then score3 + 15 else score3);
          score5 = (if length tokenPath > 6 then score4 - (int (length tokenPath) - 6) * 5
                    else score4)
      in max score5 0)"

text \<open>
  \<^verbatim>\<open>generateDexCombinationsForPath\<close> pushes one path per valid combination. The search
  calls it with at least two tokens; for no token at all the source would fail on the
  array of length -1, and the model leaves the paths as they are.
\<close>

definition generateDexCombinationsForPath ::
  "generator \<Rightarrow> string list \<Rightarrow> string \<Rightarrow> circular_path list \<Rightarrow> circular_path list" where
  "generateDexCombinationsForPath g tokenPath asset generatedPaths =
     (if tokenPath = [] then generatedPaths
      else
        (let swapCount = length tokenPath - 1
         in if js_index tokenPath 0 \<noteq> js_index tokenPath (int (length tokenPath) - 1)
            then generatedPaths
            else
              foldl (\<lambda>paths dexCombination.
                       if validateDexCombination g tokenPath dexCombination
                       then paths @ [\<lparr> tokens = tokenPath, dexes = dexCombination,
                                       hops = int swapCount, flashLoanAsset = asset,
                                       isCircular = True,
                                       estimatedComplexity =
                                         calculatePathComplexity g tokenPath dexCombination,
                                       liquidityScore = calculateLiquidityScore tokenPath asset \<rparr>]
                       else paths)
                generatedPaths (generateStrategicDexCombinations g swapCount)))"

text \<open>
  The depth-first search. The set of visited tokens is a list; adding a token before the
  recursive call and deleting it after is passing the longer list to the call. The
  measure of termination is the number of hops still to go.
\<close>

function dfsCircularPath ::
  "generator \<Rightarrow> string \<Rightarrow> string \<Rightarrow> string list \<Rightarrow> string list \<Rightarrow> nat \<Rightarrow> nat \<Rightarrow> string list
     \<Rightarrow> circular_path list \<Rightarrow> circular_path list" where
  "dfsCircularPath g startAsset currentAsset currentPath visited targetHops currentHops
     availableTokens generatedPaths =
     (if currentHops = targetHops
      then (if startAsset \<in> set (trading_pairs g currentAsset)
            then generateDexCombinationsForPath g (currentPath @ [startAsset]) startAsset
                   generatedPaths
            else generatedPaths)
      else if currentHops < targetHops
      then foldl (\<lambda>paths nextAsset.
                    if nextAsset = startAsset \<and> int currentHops < int targetHops - 1 then paths
                    else if nextAsset \<in> set visited then paths
                    else if int currentHops < int targetHops - 1 \<and> nextAsset \<notin> set availableTokens
                            \<and> nextAsset \<noteq> startAsset
                    then paths
                    else dfsCircularPath g startAsset nextAsset (currentPath @ [nextAsset])
                           (nextAsset # visited) targetHops (currentHops + 1) availableTokens
                           paths)
             generatedPaths (trading_pairs g currentAsset)
      else generatedPaths)"
  by pat_completeness auto
termination
  by (relation "measure (\<lambda>(g, s, c, p, v, t, h, a, acc). t - h)") auto


definition generateCircularPathsWithHops ::
  "generator \<Rightarrow> string \<Rightarrow> nat \<Rightarrow> string list \<Rightarrow> circular_path list \<Rightarrow> circular_path list" where
  "generateCircularPathsWithHops g startAsset hopCount availableTokens generatedPaths =
     dfsCircularPath g startAsset startAsset [startAsset] [] hopCount 0 availableTokens
       generatedPaths"

definition generateCircularPathsFromAsset ::
  "generator \<Rightarrow> string \<Rightarrow> circular_path list \<Rightarrow> circular_path list" where
  "generateCircularPathsFromAsset g startAsset generatedPaths =
     (let otherTokens = filter (\<lambda>t. t \<noteq> startAsset) (flashLoanAssets g)
      in foldl (\<lambda>paths hopCount.
                  generateCircularPathsWithHops g startAsset hopCount otherTokens paths)
           generatedPaths [nat minHops..<nat maxHops + 1])"

text \<open>\<^verbatim>\<open>Array.prototype.join\<close>, and the key under which
  \<^verbatim>\<open>removeDuplicatePaths\<close> remembers a path; the set of keys seen is a list.\<close>

fun join :: "string \<Rightarrow> string list \<Rightarrow> string" where
  "join sep [] = []"
| "join sep [x] = x"
| "join sep (x # y # ys) = x @ sep @ join sep (y # ys)"

definition path_key :: "circular_path \<Rightarrow> string" where
  "path_key p = join ''-'' (tokens p) @ '':'' @ join ''-'' (dexes p)"

fun removeDuplicatePaths_seen :: "string list \<Rightarrow> circular_path list \<Rightarrow> circular_path list" where
  "removeDuplicatePaths_seen seen [] = []"
| "removeDuplicatePaths_seen seen (p # ps) =
     (let k = path_key p
      in if k \<in> set seen then removeDuplicatePaths_seen seen ps
         else p # removeDuplicatePaths_seen (k # seen) ps)"

definition removeDuplicatePaths :: "circular_path list \<Rightarrow> circular_path list" where
  "removeDuplicatePaths paths = removeDuplicatePaths_seen [] paths"

text \<open>The predicate of the quality filter, and the score the survivors are sorted by.
  The sort is stable and descending in the score: an insertion sort by the negated score.
  The score is a real number here; for the complexities the generator computes (all
  positive) it is the quotient the source computes, up to the rounding of doubles.\<close>

definition quality_path :: "generator \<Rightarrow> circular_path \<Rightarrow> bool" where
  "quality_path g p =
     (if \<not> isCircular p
         \<or> js_index (tokens p) 0 \<noteq> js_index (tokens p) (int (length (tokens p)) - 1)
      then False
      else if hops p < minHops \<or> hops p > maxHops then False
      else if liquidityScore p < 15 then False
      else if card (set (dexes p)) < 2 \<and> hops p > 3 then False
      else if flashLoanAsset p \<notin> set (flashLoanAssets g) then False
      else True)"

definition profitability :: "circular_path \<Rightarrow> real" where
  "profitability p = real_of_int (liquidityScore p) / sqrt (real_of_int (estimatedComplexity p))"

definition balanceFlashLoanAssetDistribution ::
  "generator \<Rightarrow> circular_path list \<Rightarrow> circular_path list" where
  "balanceFlashLoanAssetDistribution g paths =
     (let maxPathsPerAsset = (200::nat)
      in concat (map (\<lambda>asset. take maxPathsPerAsset (filter (\<lambda>p. flashLoanAsset p = asset) paths))
                   (flashLoanAssets g)))"

definition filterAndOptimizePaths :: "generator \<Rightarrow> circular_path list \<Rightarrow> circular_path list" where
  "filterAndOptimizePaths g paths =
     (let uniquePaths = removeDuplicatePaths paths;
          qualityPaths = filter (quality_path g) uniquePaths;
          sortedPaths = sort_key (\<lambda>p. - profitability p) qualityPaths
      in balanceFlashLoanAssetDistribution g sortedPaths)"

definition generateAllPaths :: "generator \<Rightarrow> circular_path list \<Rightarrow> circular_path list" where
  "generateAllPaths g generatedPaths =
     filterAndOptimizePaths g
       (foldl (\<lambda>paths asset. generateCircularPathsFromAsset g asset paths) generatedPaths
          (flashLoanAssets g))"

text \<open>
  A small configuration: the six venues, two flash-loan assets and the directed triangle
  WBNB, USDT, BTCB of trading pairs. Its only token path is WBNB, USDT, BTCB, WBNB;
  \<open>triangle_path\<close> is that path with given venues and complexity.
\<close>

definition triangle_generator :: generator where
  "triangle_generator =
     \<lparr> flashLoanAssets = [''WBNB'', ''USDT''],
       dexNames = [''PANCAKESWAP_V2'', ''PANCAKESWAP_V3'', ''BISWAP'', ''MDEX'', ''UNISWAP_V3'',
                   ''APESWAP''],
       dex_type = map_of [(''PANCAKESWAP_V2'', ''UniswapV2''), (''PANCAKESWAP_V3'', ''UniswapV3''),
                          (''BISWAP'', ''UniswapV2''), (''MDEX'', ''UniswapV2''),
                          (''UNISWAP_V3'', ''UniswapV3''), (''APESWAP'', ''UniswapV2'')],
       trading_pairs = (\<lambda>t. if t = ''WBNB'' then [''USDT''] else if t = ''USDT'' then [''BTCB'']
                             else if t = ''BTCB'' then [''WBNB''] else []) \<rparr>"

definition triangle_path :: "string list \<Rightarrow> int \<Rightarrow> circular_path" where
  "triangle_path ds cx =
     \<lparr> tokens = [''WBNB'', ''USDT'', ''BTCB'', ''WBNB''], dexes = ds, hops = 3,
       flashLoanAsset = ''WBNB'', isCircular = True, estimatedComplexity = cx,
       liquidityScore = 85 \<rparr>"


text \<open>The properties of a path that the claims about the generator speak of (next to
  \<open>generated_shape\<close> above).\<close>

definition well_formed_path :: "circular_path \<Rightarrow> bool" where
  "well_formed_path p \<longleftrightarrow>
     js_index (tokens p) 0 = js_index (tokens p) (int (length (tokens p)) - 1)
     \<and> 2 \<le> hops p \<and> hops p \<le> 10 \<and> int (length (dexes p)) = hops p"

definition sequences :: "circular_path \<Rightarrow> string list \<times> string list" where
  "sequences p = (tokens p, dexes p)"

section \<open>The bot\<close>

text \<open>
  The part of the bot's state that the scan loop and the execution gate read or write.
  A cycle of the loop either completes or throws, after adding some number of found
  opportunities to the statistics; meanwhile \<^verbatim>\<open>stop()\<close> may have been called from
  outside (the flag of the event). The loop runs as long as \<^verbatim>\<open>isRunning\<close> holds, so the
  model runs it over a finite list of events and reports whether it has exited.
\<close>

record bot_stats =
  totalScans :: nat
  circularOpportunitiesFound :: nat
  flashLoanExecutions :: nat
  totalProfit :: jsnum
  errors :: nat

record bot =
  isRunning :: bool
  currentScanIndex :: nat
  stats :: bot_stats

datatype cycle_event = Succeeds nat bool | Throws nat bool

datatype loop_status = Exited | Scanning

definition calculateScanDelay :: "bot \<Rightarrow> rat" where
  "calculateScanDelay b =
     (let delay0 = (3000::rat);
          delay1 =
            (if rat_of_nat (circularOpportunitiesFound (stats b))
                  > rat_of_nat (totalScans (stats b)) * (5 / 100)
             then delay0 * (3 / 2) else delay0);
          delay2 =
            (if totalScans (stats b) > 50
                \<and> rat_of_nat (circularOpportunitiesFound (stats b))
                    < rat_of_nat (totalScans (stats b)) * (1 / 100)
             then max (delay1 * (8 / 10)) 2000 else delay1)
      in delay2)"

definition maxConsecutiveErrors :: nat where
  "maxConsecutiveErrors = 5"

text \<open>\<open>found_more\<close> is the statistics update of a cycle; \<open>stop\<close> is
  \<^verbatim>\<open>stop()\<close> without its printing. The delays waited are collected in order.\<close>

definition found_more :: "nat \<Rightarrow> bot \<Rightarrow> bot" where
  "found_more k b =
     b\<lparr> stats := (stats b)\<lparr> circularOpportunitiesFound :=
                                circularOpportunitiesFound (stats b) + k \<rparr> \<rparr>"

definition stop :: "bot \<Rightarrow> bot" where
  "stop b = b\<lparr> isRunning := False \<rparr>"

fun scanLoop_from :: "nat \<Rightarrow> bot \<Rightarrow> cycle_event list \<Rightarrow> rat list \<times> bot \<times> loop_status" where
  "scanLoop_from consecutiveErrors b [] = ([], b, if isRunning b then Scanning else Exited)"
| "scanLoop_from consecutiveErrors b (ev # evs) =
     (if \<not> isRunning b then ([], b, Exited)
      else
        (case ev of
           Succeeds k stop_called \<Rightarrow>
             (let b1 = found_more k b;
                  b2 = b1\<lparr> stats := (stats b1)\<lparr> totalScans := totalScans (stats b1) + 1 \<rparr> \<rparr>;
                  b3 = b2\<lparr> currentScanIndex := currentScanIndex b2 + 1 \<rparr>;
                  delay = calculateScanDelay b3;
                  b4 = (if stop_called then stop b3 else b3);
                  (delays, b', status) = scanLoop_from 0 b4 evs
              in (delay # delays, b', status))
         | Throws k stop_called \<Rightarrow>
             (let b1 = found_more k b;
                  b2 = b1\<lparr> stats := (stats b1)\<lparr> errors := errors (stats b1) + 1 \<rparr> \<rparr>;
                  consecutiveErrors' = consecutiveErrors + 1
              in if consecutiveErrors' \<ge> maxConsecutiveErrors then ([], stop b2, Exited)
                 else
                   (let errorDelay = min (1000 * 2 ^ consecutiveErrors') (30000::rat);
                        b3 = (if stop_called then stop b2 else b2);
                        (delays, b', status) = scanLoop_from consecutiveErrors' b3 evs
                    in (errorDelay # delays, b', status)))))"

definition scanLoop :: "bot \<Rightarrow> cycle_event list \<Rightarrow> rat list \<times> bot \<times> loop_status" where
  "scanLoop b evs = scanLoop_from 0 b evs"

definition started_bot :: bot where
  "started_bot =
     \<lparr> isRunning = True, currentScanIndex = 0,
       stats = \<lparr> totalScans = 0, circularOpportunitiesFound = 0, flashLoanExecutions = 0,
                 totalProfit = Fin 0, errors = 0 \<rparr> \<rparr>"

text \<open>
  The execution gate reads the wallet's balance and the network's fee data (\<open>None\<close>
  when the call throws; a fee data object may report no gas price), and the configured
  ceiling of the gas price, parsed from gwei into wei (\<open>None\<close> when parsing throws). It
  answers with the rejection it logged, or with none, and with the calls it made.
\<close>

record fee_data =
  gasPrice :: "nat option"

record chain =
  getBalance :: "nat option"
  getFeeData :: "fee_data option"

record bot_config =
  maxGasPrice_wei :: "nat option"
  minProfitPercent :: jsnum

datatype rpc_call = GetBalance | GetFeeData

datatype rejection =
  InsufficientBalance | GasPriceTooHigh | NotCircular | AssetMismatch | BelowThreshold
  | CheckThrew

definition minBalance :: nat where
  "minBalance = 5 * 10 ^ 15"

definition performSafetyChecks ::
  "chain \<Rightarrow> bot_config \<Rightarrow> 'a costed_opportunity_scheme \<Rightarrow> rejection option \<times> rpc_call list" where
  "performSafetyChecks ch cfg opp =
     (case getBalance ch of
        None \<Rightarrow> (Some CheckThrew, [GetBalance])
      | Some balance \<Rightarrow>
          if balance < minBalance then (Some InsufficientBalance, [GetBalance])
          else
            (case getFeeData ch of
               None \<Rightarrow> (Some CheckThrew, [GetBalance, GetFeeData])
             | Some feeData \<Rightarrow>
                 (case maxGasPrice_wei cfg of
                    None \<Rightarrow> (Some CheckThrew, [GetBalance, GetFeeData])
                  | Some maxGasPrice \<Rightarrow>
                      if (case gasPrice feeData of None \<Rightarrow> False | Some g \<Rightarrow> g > maxGasPrice)
                      then (Some GasPriceTooHigh, [GetBalance, GetFeeData])
                      else if \<not> opp_isCircular opp
                      then (Some NotCircular, [GetBalance, GetFeeData])
                      else if opp_flashLoanAsset opp \<noteq> js_index (path opp) 0
                              \<or> opp_flashLoanAsset opp
                                  \<noteq> js_index (path opp) (int (length (path opp)) - 1)
                      then (Some AssetMismatch, [GetBalance, GetFeeData])
                      else if num_lt (netROI opp) (minProfitPercent cfg)
                      then (Some BelowThreshold, [GetBalance, GetFeeData])
                      else (None, [GetBalance, GetFeeData]))))"

text \<open>\<^verbatim>\<open>executeFlashLoanArbitrage\<close> of the bot: the executor is a parameter (\<open>None\<close>
  when it throws); the second component counts the calls of the executor.\<close>

record execution_result =
  success :: bool
  actualProfit :: jsnum

definition executeFlashLoanArbitrage ::
  "chain \<Rightarrow> bot_config \<Rightarrow> ('a costed_opportunity_scheme \<Rightarrow> execution_result option)
     \<Rightarrow> bot \<Rightarrow> 'a costed_opportunity_scheme \<Rightarrow> bot \<times> nat" where
  "executeFlashLoanArbitrage ch cfg executor b opp =
     (case fst (performSafetyChecks ch cfg opp) of
        Some reason \<Rightarrow> (b, 0)
      | None \<Rightarrow>
          (case executor opp of
             None \<Rightarrow> (b\<lparr> stats := (stats b)\<lparr> errors := errors (stats b) + 1 \<rparr> \<rparr>, 1)
           | Some result \<Rightarrow>
               if success result
               then (b\<lparr> stats := (stats b)\<lparr>
                         flashLoanExecutions := flashLoanExecutions (stats b) + 1,
                         totalProfit := num_add (totalProfit (stats b)) (actualProfit result) \<rparr> \<rparr>,
                     1)
               else (b, 1)))"

text \<open>
  The four checks as the specification lists them. For the gas price there are two
  readings: strictly below the ceiling, as the specification words it, and not above it.
  \<open>check_of_rejection\<close> is the number of the check a rejection belongs to; a rejection
  because a call threw belongs to the check that was reading (the balance for one call
  made, the gas price for two).
\<close>

definition balance_covers_reserve :: "chain \<Rightarrow> bool" where
  "balance_covers_reserve ch =
     (case getBalance ch of None \<Rightarrow> False | Some balance \<Rightarrow> balance \<ge> minBalance)"

definition gas_price_below_ceiling :: "chain \<Rightarrow> bot_config \<Rightarrow> bool" where
  "gas_price_below_ceiling ch cfg =
     (case (getFeeData ch, maxGasPrice_wei cfg) of
        (Some feeData, Some limit) \<Rightarrow>
          (case gasPrice feeData of None \<Rightarrow> False | Some g \<Rightarrow> g < limit)
      | _ \<Rightarrow> False)"

definition gas_price_not_above_ceiling :: "chain \<Rightarrow> bot_config \<Rightarrow> bool" where
  "gas_price_not_above_ceiling ch cfg =
     (case (getFeeData ch, maxGasPrice_wei cfg) of
        (Some feeData, Some limit) \<Rightarrow>
          (case gasPrice feeData of None \<Rightarrow> True | Some g \<Rightarrow> \<not> g > limit)
      | _ \<Rightarrow> False)"

definition structurally_circular :: "'a costed_opportunity_scheme \<Rightarrow> bool" where
  "structurally_circular opp =
     (opp_isCircular opp \<and> opp_flashLoanAsset opp = js_index (path opp) 0
      \<and> opp_flashLoanAsset opp = js_index (path opp) (int (length (path opp)) - 1))"

definition roi_not_below_minimum :: "bot_config \<Rightarrow> 'a costed_opportunity_scheme \<Rightarrow> bool" where
  "roi_not_below_minimum cfg opp = (\<not> num_lt (netROI opp) (minProfitPercent cfg))"

definition first_failing_check ::
  "chain \<Rightarrow> bot_config \<Rightarrow> 'a costed_opportunity_scheme \<Rightarrow> nat" where
  "first_failing_check ch cfg opp =
     (if \<not> balance_covers_reserve ch then 1
      else if \<not> gas_price_not_above_ceiling ch cfg then 2
      else if \<not> structurally_circular opp then 3
      else if \<not> roi_not_below_minimum cfg opp then 4
      else 0)"

definition check_of_rejection :: "rejection option \<times> rpc_call list \<Rightarrow> nat" where
  "check_of_rejection r =
     (case fst r of
        None \<Rightarrow> 0
      | Some InsufficientBalance \<Rightarrow> 1
      | Some GasPriceTooHigh \<Rightarrow> 2
      | Some NotCircular \<Rightarrow> 3
      | Some AssetMismatch \<Rightarrow> 3
      | Some BelowThreshold \<Rightarrow> 4
      | Some CheckThrew \<Rightarrow> length (snd r))"

definition calm_chain :: chain where
  "calm_chain = \<lparr> getBalance = Some (10 ^ 18),
                  getFeeData = Some \<lparr> gasPrice = Some (5 * 10 ^ 9) \<rparr> \<rparr>"

definition five_gwei_config :: bot_config where
  "five_gwei_config = \<lparr> maxGasPrice_wei = Some (5 * 10 ^ 9), minProfitPercent = Fin (1 / 10) \<rparr>"

section \<open>Theorems\<close>

subsection \<open>Arithmetic on finite values\<close>

lemma Math_max2_Fin: "Math_max2 (Fin x) (Fin y) = Fin (max x y)"
  by (simp add: max_def)

lemma Math_min2_Fin: "Math_min2 (Fin x) (Fin y) = Fin (min x y)"
  by (simp add: min_def)

lemma num_sub_Fin: "num_sub (Fin x) (Fin y) = Fin (x - y)"
  by (simp add: num_sub_def)

lemma clamp_0_100_range: "0 \<le> clamp_0_100 x \<and> clamp_0_100 x \<le> 100"
  by (simp add: clamp_0_100_def)

subsection \<open>Rounding to doubles\<close>

lemma to_double_0: "to_double 0 = Fin 0"
  by (simp add: to_double_def)

lemma binary_exponent_bounds:
  assumes "0 < x"
  shows "2 powi binary_exponent x \<le> x \<and> x < 2 powi (binary_exponent x + 1)"
proof (cases "1 \<le> x")
  case True
  define n where "n = \<lfloor>x\<rfloor>"
  have n: "1 \<le> n" "of_int n \<le> x" "x < of_int n + 1"
    using True floor_correct [of x] by (simp_all add: n_def le_floor_iff)
  then have "0 < n" by simp
  from bitlen_bounds [OF this]
  have b: "2 ^ nat (bitlen n - 1) \<le> n" "n < 2 ^ nat (bitlen n)"
    by simp_all
  have b1: "1 \<le> bitlen n"
  proof (rule ccontr)
    assume "\<not> 1 \<le> bitlen n"
    then have "nat (bitlen n) = 0" by simp
    with b(2) n(1) show False by simp
  qed
  have "2 powi (bitlen n - 1) = (of_int (2 ^ nat (bitlen n - 1)) :: rat)"
    using b1 by (simp add: power_int_def)
  also have "\<dots> \<le> of_int n"
    using b(1) by (simp only: of_int_le_iff)
  finally have lo: "2 powi (bitlen n - 1) \<le> x"
    using n(2) by simp
  from b(2) have "n + 1 \<le> 2 ^ nat (bitlen n)" by simp
  then have "(of_int (n + 1) :: rat) \<le> of_int (2 ^ nat (bitlen n))"
    by (simp only: of_int_le_iff)
  also have "\<dots> = 2 powi (bitlen n - 1 + 1)"
    using b1 by (simp add: power_int_def)
  finally have hi: "x < 2 powi (bitlen n - 1 + 1)"
    using n(3) by simp
  from lo hi True show ?thesis
    by (simp add: binary_exponent_def n_def)
next
  case False
  define n where "n = \<lceil>1 / x\<rceil> - 1"
  from False assms have y: "1 < 1 / x" by simp
  have n: "1 \<le> n" "of_int n < 1 / x" "1 / x \<le> of_int n + 1"
    using y ceiling_correct [of "1 / x"] by (simp_all add: n_def less_ceiling_iff)
  then have "0 < n" by simp
  from bitlen_bounds [OF this]
  have b: "2 ^ nat (bitlen n - 1) \<le> n" "n < 2 ^ nat (bitlen n)"
    by simp_all
  have b1: "1 \<le> bitlen n"
  proof (rule ccontr)
    assume "\<not> 1 \<le> bitlen n"
    then have "nat (bitlen n) = 0" by simp
    with b(2) n(1) show False by simp
  qed
  from b(2) have "n + 1 \<le> 2 ^ nat (bitlen n)" by simp
  then have "(of_int (n + 1) :: rat) \<le> of_int (2 ^ nat (bitlen n))"
    by (simp only: of_int_le_iff)
  then have "of_int n + 1 \<le> (2::rat) ^ nat (bitlen n)" by simp
  with n(3) have "1 / x \<le> 2 ^ nat (bitlen n)" by linarith
  with assms have "1 / 2 ^ nat (bitlen n) \<le> x"
    by (simp add: field_simps)
  moreover have "2 powi (- bitlen n) = (1 / 2 ^ nat (bitlen n) :: rat)"
    using b1 by (simp add: power_int_def field_simps)
  ultimately have lo: "2 powi (- bitlen n) \<le> x" by simp
  have "(of_int (2 ^ nat (bitlen n - 1)) :: rat) \<le> of_int n"
    using b(1) by (simp only: of_int_le_iff)
  then have "(2::rat) ^ nat (bitlen n - 1) \<le> of_int n" by simp
  with n(2) have "2 ^ nat (bitlen n - 1) < 1 / x" by linarith
  with assms have "x < 1 / 2 ^ nat (bitlen n - 1)"
    by (simp add: field_simps)
  moreover have "2 powi (- bitlen n + 1) = (1 / 2 ^ nat (bitlen n - 1) :: rat)"
  proof (cases "bitlen n = 1")
    case True
    then show ?thesis by simp
  next
    case False
    with b1 have "- bitlen n + 1 < 0" "nat (- (- bitlen n + 1)) = nat (bitlen n - 1)" by simp_all
    then show ?thesis by (simp add: power_int_def field_simps)
  qed
  ultimately have hi: "x < 2 powi (- bitlen n + 1)" by simp
  from lo hi False show ?thesis
    by (simp add: binary_exponent_def n_def)
qed

lemma binary_exponent_unique:
  assumes "0 < x" "2 powi e \<le> x" "x < 2 powi (e + 1)"
  shows "binary_exponent x = e"
proof -
  from binary_exponent_bounds [OF assms(1)]
  have b: "2 powi binary_exponent x \<le> x" "x < 2 powi (binary_exponent x + 1)"
    by simp_all
  have "(2::rat) powi binary_exponent x < 2 powi (e + 1)"
    using b(1) assms(3) by simp
  then have 1: "binary_exponent x < e + 1"
    by (metis linorder_not_less power_int_increasing one_le_numeral)
  have "(2::rat) powi e < 2 powi (binary_exponent x + 1)"
    using b(2) assms(2) by simp
  then have 2: "e < binary_exponent x + 1"
    by (metis linorder_not_less power_int_increasing one_le_numeral)
  from 1 2 show ?thesis by simp
qed

lemma round_half_even_of_int: "round_half_even (of_int n) = n"
  by (simp add: round_half_even_def)

lemma round_half_even_le_iff:
  "round_half_even y \<le> n \<longleftrightarrow> y < of_int n + 1 / 2 \<or> (y = of_int n + 1 / 2 \<and> even n)"
proof -
  define f where "f = \<lfloor>y\<rfloor>"
  define r where "r = y - of_int f"
  have y: "y = of_int f + r" by (simp add: r_def)
  have r: "0 \<le> r" "r < 1"
    using floor_correct [of y] by (simp_all add: r_def f_def)
  have cmp: "of_int f + r < of_int n + 1 / 2 \<longleftrightarrow> f < n \<or> (f = n \<and> r < 1 / 2)"
  proof -
    have "f < n \<or> f = n \<or> n < f" by linarith
    moreover have "f < n \<Longrightarrow> of_int f + 1 \<le> (of_int n :: rat)"
      by (metis of_int_1 of_int_add of_int_le_iff zless_imp_add1_zle)
    moreover have "n < f \<Longrightarrow> of_int n + 1 \<le> (of_int f :: rat)"
      by (metis of_int_1 of_int_add of_int_le_iff zless_imp_add1_zle)
    ultimately show ?thesis using r by auto
  qed
  have eq: "of_int f + r = of_int n + 1 / 2 \<longleftrightarrow> f = n \<and> r = 1 / 2"
  proof -
    have "f < n \<or> f = n \<or> n < f" by linarith
    moreover have "f < n \<Longrightarrow> of_int f + 1 \<le> (of_int n :: rat)"
      by (metis of_int_1 of_int_add of_int_le_iff zless_imp_add1_zle)
    moreover have "n < f \<Longrightarrow> of_int n + 1 \<le> (of_int f :: rat)"
      by (metis of_int_1 of_int_add of_int_le_iff zless_imp_add1_zle)
    ultimately show ?thesis using r by auto
  qed
  have "round_half_even y =
          (if r < 1 / 2 then f else if 1 / 2 < r then f + 1 else if even f then f else f + 1)"
    by (simp add: round_half_even_def Let_def f_def r_def)
  then show ?thesis
    unfolding y cmp eq by auto
qed

lemma round_half_even_ge_iff:
  "n \<le> round_half_even y \<longleftrightarrow> of_int n - 1 / 2 < y \<or> (y = of_int n - 1 / 2 \<and> even n)"
proof -
  have "n \<le> round_half_even y \<longleftrightarrow> \<not> round_half_even y \<le> n - 1" by linarith
  also have "\<dots> \<longleftrightarrow> \<not> (y < of_int (n - 1) + 1 / 2 \<or> (y = of_int (n - 1) + 1 / 2 \<and> even (n - 1)))"
    by (simp only: round_half_even_le_iff)
  also have "\<dots> \<longleftrightarrow> of_int n - 1 / 2 < y \<or> (y = of_int n - 1 / 2 \<and> even n)"
    by auto
  finally show ?thesis .
qed

lemma round_half_even_mono: "x \<le> y \<Longrightarrow> round_half_even x \<le> round_half_even y"
proof -
  assume xy: "x \<le> y"
  have "round_half_even y \<le> round_half_even y" by simp
  then have "y < of_int (round_half_even y) + 1 / 2
             \<or> (y = of_int (round_half_even y) + 1 / 2 \<and> even (round_half_even y))"
    by (simp only: round_half_even_le_iff)
  with xy have "x < of_int (round_half_even y) + 1 / 2
             \<or> (x = of_int (round_half_even y) + 1 / 2 \<and> even (round_half_even y))"
    by auto
  then show ?thesis
    by (simp only: round_half_even_le_iff)
qed

lemma round_half_even_minus: "round_half_even (- y) = - round_half_even y"
proof (rule antisym)
  have "- round_half_even y \<le> - round_half_even y" by simp
  then have "- (- round_half_even y) \<le> round_half_even y" by simp
  then have "of_int (- (- round_half_even y)) - 1 / 2 < y
     \<or> (y = of_int (- (- round_half_even y)) - 1 / 2 \<and> even (- (- round_half_even y)))"
    by (simp only: round_half_even_ge_iff)
  then have "- y < of_int (- round_half_even y) + 1 / 2
     \<or> (- y = of_int (- round_half_even y) + 1 / 2 \<and> even (- round_half_even y))"
    by auto
  then show "round_half_even (- y) \<le> - round_half_even y"
    by (simp only: round_half_even_le_iff)
next
  have "round_half_even (- y) \<le> round_half_even (- y)" by simp
  then have "- y < of_int (round_half_even (- y)) + 1 / 2
     \<or> (- y = of_int (round_half_even (- y)) + 1 / 2 \<and> even (round_half_even (- y)))"
    by (simp only: round_half_even_le_iff)
  then have "of_int (- round_half_even (- y)) - 1 / 2 < y
     \<or> (y = of_int (- round_half_even (- y)) - 1 / 2 \<and> even (- round_half_even (- y)))"
    by auto
  then have "- round_half_even (- y) \<le> round_half_even y"
    by (simp only: round_half_even_ge_iff)
  then show "- round_half_even y \<le> round_half_even (- y)" by simp
qed

lemma to_double_minus: "to_double (- x) = num_neg (to_double x)"
  by (simp add: to_double_def Let_def round_half_even_minus)

lemma round_half_even_nonneg: "0 \<le> y \<Longrightarrow> 0 \<le> round_half_even y"
  using round_half_even_mono [of 0 y] round_half_even_of_int [of 0] by simp

lemma to_double_pos:
  assumes "0 < x"
  shows "to_double x =
     (if 1024 \<le> binary_exponent
            (of_int (round_half_even (x / 2 powi max (binary_exponent x - 52) (- 1074)))
             * 2 powi max (binary_exponent x - 52) (- 1074))
      then PosInf
      else Fin (of_int (round_half_even (x / 2 powi max (binary_exponent x - 52) (- 1074)))
             * 2 powi max (binary_exponent x - 52) (- 1074)))"
proof -
  have "0 \<le> x / 2 powi max (binary_exponent x - 52) (- 1074)"
    using assms by simp
  then have "0 \<le> round_half_even (x / 2 powi max (binary_exponent x - 52) (- 1074))"
    by (rule round_half_even_nonneg)
  then have "\<bar>of_int (round_half_even (x / 2 powi max (binary_exponent x - 52) (- 1074)))
             * 2 powi max (binary_exponent x - 52) (- 1074)\<bar>
        = (of_int (round_half_even (x / 2 powi max (binary_exponent x - 52) (- 1074)))
             * 2 powi max (binary_exponent x - 52) (- 1074) :: rat)"
    by (simp add: abs_mult)
  with assms show ?thesis
    by (simp add: to_double_def Let_def)
qed

lemma binary_exponent_scaled:
  assumes "0 < m"
  shows "binary_exponent (of_int m * 2 powi e) = bitlen m - 1 + e"
proof (rule binary_exponent_unique)
  from bitlen_bounds [OF assms]
  have b: "2 ^ nat (bitlen m - 1) \<le> m" "m < 2 ^ nat (bitlen m)" by simp_all
  have b1: "1 \<le> bitlen m"
  proof (rule ccontr)
    assume "\<not> 1 \<le> bitlen m"
    then have "nat (bitlen m) = 0" by simp
    with b(2) assms show False by simp
  qed
  show "0 < (of_int m * 2 powi e :: rat)" using assms by simp
  have "(of_int (2 ^ nat (bitlen m - 1)) :: rat) \<le> of_int m"
    using b(1) by (simp only: of_int_le_iff)
  then have "(2::rat) powi (bitlen m - 1) \<le> of_int m"
    using b1 by (simp add: power_int_def)
  then have "(2::rat) powi (bitlen m - 1) * 2 powi e \<le> of_int m * 2 powi e"
    by (simp add: mult_right_mono)
  then show "(2::rat) powi (bitlen m - 1 + e) \<le> of_int m * 2 powi e"
    by (simp add: power_int_add)
  have "(of_int m :: rat) < of_int (2 ^ nat (bitlen m))"
    using b(2) by (simp only: of_int_less_iff)
  then have "of_int m < (2::rat) powi (bitlen m)"
    using b1 by (simp add: power_int_def)
  then have "of_int m * 2 powi e < (2::rat) powi (bitlen m) * 2 powi e"
    by (simp add: mult_strict_right_mono)
  then show "of_int m * 2 powi e < (2::rat) powi (bitlen m - 1 + e + 1)"
    by (simp add: power_int_add)
qed

lemma bitlen_le_53:
  assumes "0 < m" "m < 2 ^ 53"
  shows "1 \<le> bitlen m \<and> bitlen m \<le> 53"
proof -
  from bitlen_bounds [OF assms(1)]
  have b: "2 ^ nat (bitlen m - 1) \<le> m" "m < 2 ^ nat (bitlen m)" by simp_all
  have b1: "1 \<le> bitlen m"
  proof (rule ccontr)
    assume "\<not> 1 \<le> bitlen m"
    then have "nat (bitlen m) = 0" by simp
    with b(2) assms show False by simp
  qed
  from b(1) assms(2) have "(2::int) ^ nat (bitlen m - 1) < 2 ^ 53" by linarith
  then have "nat (bitlen m - 1) < 53"
    by (rule power_less_imp_less_exp [rotated]) simp
  with b1 show ?thesis by simp
qed

lemma to_double_representable_pos:
  assumes m: "0 < m" "m < 2 ^ 53" and e: "- 1074 \<le> e" "e \<le> 971"
  shows "to_double (of_int m * 2 powi e) = Fin (of_int m * 2 powi e)"
proof -
  define r :: rat where "r = of_int m * 2 powi e"
  define u where "u = max (binary_exponent r - 52) (- 1074)"
  have E: "binary_exponent r = bitlen m - 1 + e"
    unfolding r_def by (rule binary_exponent_scaled [OF m(1)])
  from bitlen_le_53 [OF m] have b: "1 \<le> bitlen m" "bitlen m \<le> 53" by simp_all
  have ue: "u \<le> e" using b e by (simp add: u_def E)
  have rpos: "0 < r" using m by (simp add: r_def)
  have "r / 2 powi u = of_int m * (2 powi e / 2 powi u)"
    by (simp add: r_def)
  also have "2 powi e / 2 powi u = (2::rat) powi (e - u)"
    by (simp add: power_int_diff)
  also have "\<dots> = of_int (2 ^ nat (e - u))"
    using ue by (simp add: power_int_def)
  finally have q: "r / 2 powi u = of_int (m * 2 ^ nat (e - u))"
    by simp
  have k: "round_half_even (r / 2 powi u) = m * 2 ^ nat (e - u)"
    unfolding q by (rule round_half_even_of_int)
  have "(of_int (m * 2 ^ nat (e - u)) :: rat) * 2 powi u = r / 2 powi u * 2 powi u"
    by (simp only: q)
  also have "\<dots> = r" by simp
  finally have restored: "(of_int (m * 2 ^ nat (e - u)) :: rat) * 2 powi u = r" .
  have no: "\<not> 1024 \<le> binary_exponent r"
    using b e by (simp add: E)
  from to_double_pos [OF rpos] show ?thesis
    unfolding u_def [symmetric] k restored using no by (simp add: r_def)
qed

lemma to_double_representable:
  assumes "representable r"
  shows "to_double r = Fin r"
proof -
  from assms obtain m e where r: "r = of_int m * 2 powi e" and m: "\<bar>m\<bar> < 2 ^ 53"
    and e: "- 1074 \<le> e" "e \<le> 971"
    unfolding representable_def by blast
  consider "m = 0" | "0 < m" | "m < 0" by linarith
  then show ?thesis
  proof cases
    case 1
    then show ?thesis by (simp add: r to_double_def)
  next
    case 2
    with m have "m < 2 ^ 53" by simp
    from to_double_representable_pos [OF 2 this e] show ?thesis by (simp add: r)
  next
    case 3
    with m have "0 < - m" "- m < 2 ^ 53" by simp_all
    from to_double_representable_pos [OF this e]
    have "to_double (- r) = Fin (- r)" by (simp add: r)
    then show ?thesis by (simp add: to_double_minus) (cases "to_double r"; simp)
  qed
qed

lemma representable_minus: "representable (- r) \<longleftrightarrow> representable r"
proof -
  have "representable (- r)" if "representable r" for r
  proof -
    from that obtain m e where "r = of_int m * 2 powi e" "\<bar>m\<bar> < 2 ^ 53" "- 1074 \<le> e" "e \<le> 971"
      unfolding representable_def by blast
    then have "- r = of_int (- m) * 2 powi e \<and> \<bar>- m\<bar> < 2 ^ 53 \<and> - 1074 \<le> e \<and> e \<le> 971"
      by simp
    then show ?thesis unfolding representable_def by blast
  qed
  from this [of r] this [of "- r"] show ?thesis by auto
qed

lemma representable_0: "representable 0"
  unfolding representable_def by (rule exI [of _ 0], rule exI [of _ 0]) simp

lemma scaled_quotient:
  assumes "0 < x" "u = max (binary_exponent x - 52) (- 1074)"
  shows "x / 2 powi u < 2 ^ 53"
    and "- 1074 < u \<Longrightarrow> 2 ^ 52 \<le> x / 2 powi u"
proof -
  from binary_exponent_bounds [OF assms(1)]
  have b: "2 powi binary_exponent x \<le> x" "x < 2 powi (binary_exponent x + 1)" by simp_all
  have "binary_exponent x + 1 - u \<le> 53" using assms(2) by simp
  then have "(2::rat) powi (binary_exponent x + 1 - u) \<le> 2 powi 53"
    by (intro power_int_increasing) simp_all
  moreover have "x / 2 powi u < 2 powi (binary_exponent x + 1) / 2 powi u"
    using b(2) by (simp add: divide_strict_right_mono)
  ultimately show "x / 2 powi u < 2 ^ 53"
    by (simp add: power_int_diff)
  assume "- 1074 < u"
  with assms(2) have u: "u = binary_exponent x - 52" by simp
  have "2 powi binary_exponent x / 2 powi u \<le> x / 2 powi u"
    using b(1) by (simp add: divide_right_mono)
  moreover have "2 powi binary_exponent x / 2 powi u = (2::rat) powi 52"
    by (simp add: u flip: power_int_diff)
  ultimately show "2 ^ 52 \<le> x / 2 powi u" by simp
qed

lemma to_double_range_pos:
  assumes x: "0 < x" and res: "to_double x = Fin r"
  shows "representable r"
proof -
  define u where "u = max (binary_exponent x - 52) (- 1074)"
  define k where "k = round_half_even (x / 2 powi u)"
  from to_double_pos [OF x] res
  have r: "r = of_int k * 2 powi u" and fin: "\<not> 1024 \<le> binary_exponent (of_int k * 2 powi u)"
    unfolding u_def [symmetric] k_def [symmetric] by (simp_all split: if_splits)
  have u: "- 1074 \<le> u" by (simp add: u_def)
  have "0 \<le> x / 2 powi u" using x by simp
  then have k0: "0 \<le> k" unfolding k_def by (rule round_half_even_nonneg)
  from scaled_quotient(1) [OF x u_def] have "x / 2 powi u \<le> of_int (2 ^ 53)" by simp
  from round_half_even_mono [OF this] have k53: "k \<le> 2 ^ 53"
    by (simp only: k_def round_half_even_of_int)
  consider "k = 0" | "0 < k" "k < 2 ^ 53" | "k = 2 ^ 53" using k0 k53 by linarith
  then show ?thesis
  proof cases
    case 1
    then show ?thesis by (simp add: r representable_0)
  next
    case 2
    have E: "binary_exponent (of_int k * 2 powi u) = bitlen k - 1 + u"
      by (rule binary_exponent_scaled [OF 2(1)])
    have "u \<le> 971"
    proof (cases "- 1074 < u")
      case True
      from scaled_quotient(2) [OF x u_def True] have "of_int (2 ^ 52) \<le> x / 2 powi u" by simp
      from round_half_even_mono [OF this] have k52: "2 ^ 52 \<le> k"
        by (simp only: k_def round_half_even_of_int)
      from bitlen_bounds [OF 2(1)] have "k < 2 ^ nat (bitlen k)" by simp
      with k52 have "(2::int) ^ 52 < 2 ^ nat (bitlen k)" by linarith
      then have "52 < nat (bitlen k)"
        by (rule power_less_imp_less_exp [rotated]) simp
      with fin E show ?thesis by simp
    next
      case False
      then show ?thesis by simp
    qed
    with 2 u k0 have "r = of_int k * 2 powi u \<and> \<bar>k\<bar> < 2 ^ 53 \<and> - 1074 \<le> u \<and> u \<le> 971"
      by (simp add: r)
    then show ?thesis unfolding representable_def by blast
  next
    case 3
    have r2: "r = 2 powi (53 + u)"
      by (simp add: r 3 power_int_add)
    have "binary_exponent r = 53 + u"
      by (rule binary_exponent_unique) (simp_all add: r2 power_int_add)
    with fin r have "u \<le> 970" by simp
    moreover have "r = of_int (2 ^ 52) * 2 powi (u + 1)"
      by (simp add: r2 power_int_add)
    ultimately have "r = of_int (2 ^ 52) * 2 powi (u + 1) \<and> \<bar>2 ^ 52 :: int\<bar> < 2 ^ 53
        \<and> - 1074 \<le> u + 1 \<and> u + 1 \<le> 971"
      using u by simp
    then show ?thesis unfolding representable_def by blast
  qed
qed

lemma to_double_range:
  assumes "to_double x = Fin r"
  shows "representable r"
proof -
  consider "x = 0" | "0 < x" | "x < 0" by linarith
  then show ?thesis
  proof cases
    case 1
    with assms show ?thesis by (simp add: to_double_def representable_0)
  next
    case 2
    from to_double_range_pos [OF this assms] show ?thesis .
  next
    case 3
    from assms have "to_double (- x) = Fin (- r)"
      by (simp add: to_double_minus)
    with 3 have "representable (- r)"
      by (intro to_double_range_pos [of "- x"]) simp_all
    then show ?thesis by (simp only: representable_minus)
  qed
qed

lemma to_double_not_NaN: "to_double x \<noteq> NaN"
  by (simp add: to_double_def Let_def)

lemma toNumber_idem: "toNumber (toNumber v) = toNumber v"
proof (cases v)
  case (Fin x)
  show ?thesis
  proof (cases "to_double x")
    case (Fin r)
    from to_double_range [OF this] have "to_double r = Fin r"
      by (rule to_double_representable)
    with Fin \<open>v = Fin x\<close> show ?thesis by simp
  qed (simp_all add: \<open>v = Fin x\<close>)
qed simp_all

lemma binary_exponent_0: "binary_exponent 0 = 0"
  by (simp add: binary_exponent_def bitlen_def floorlog_def)

lemma binary_exponent_le:
  assumes "0 < r" "r \<le> 2 powi p"
  shows "binary_exponent r \<le> p"
proof (rule ccontr)
  assume "\<not> binary_exponent r \<le> p"
  then have "p < binary_exponent r" by simp
  then have "(2::rat) powi p < 2 powi binary_exponent r"
    by (intro power_int_strict_increasing) simp_all
  with binary_exponent_bounds [OF assms(1)] assms(2) show False by simp
qed

lemma binary_exponent_less:
  assumes "0 < r" "r < 2 powi p"
  shows "binary_exponent r < p"
proof (rule ccontr)
  assume "\<not> binary_exponent r < p"
  then have "p \<le> binary_exponent r" by simp
  then have "(2::rat) powi p \<le> 2 powi binary_exponent r"
    by (intro power_int_increasing) simp_all
  with binary_exponent_bounds [OF assms(1)] assms(2) show False by simp
qed

lemma binary_exponent_ge:
  assumes "0 < r" "2 powi p \<le> r"
  shows "p \<le> binary_exponent r"
proof (rule ccontr)
  assume "\<not> p \<le> binary_exponent r"
  then have "binary_exponent r + 1 \<le> p" by simp
  then have "(2::rat) powi (binary_exponent r + 1) \<le> 2 powi p"
    by (intro power_int_increasing) simp_all
  with binary_exponent_bounds [OF assms(1)] assms(2) show False by simp
qed

text \<open>Below a power of two the rounding stays at or below it.\<close>

lemma to_double_below_power:
  assumes x: "0 < x" "x < 2 powi p" and p: "- 1022 \<le> p" "p \<le> 1023"
  shows "\<exists>r. to_double x = Fin r \<and> 0 \<le> r \<and> r \<le> 2 powi p"
proof -
  define u where "u = max (binary_exponent x - 52) (- 1074)"
  define k where "k = round_half_even (x / 2 powi u)"
  define r :: rat where "r = of_int k * 2 powi u"
  from binary_exponent_less [OF x] have "binary_exponent x < p" .
  with p have up: "u \<le> p - 52" by (simp add: u_def)
  have "0 \<le> x / 2 powi u" using x by simp
  then have k0: "0 \<le> k" unfolding k_def by (rule round_half_even_nonneg)
  have "x / 2 powi u \<le> 2 powi p / 2 powi u"
    using x(2) by (simp add: divide_right_mono)
  also have "2 powi p / 2 powi u = (2::rat) powi (p - u)"
    by (simp add: power_int_diff)
  also have "\<dots> = of_int (2 ^ nat (p - u))"
    using up by (simp add: power_int_def)
  finally have "k \<le> 2 ^ nat (p - u)"
    unfolding k_def using round_half_even_mono round_half_even_of_int by metis
  then have "(of_int k :: rat) \<le> of_int (2 ^ nat (p - u))"
    by (simp only: of_int_le_iff)
  then have "r \<le> of_int (2 ^ nat (p - u)) * 2 powi u"
    unfolding r_def by (simp add: mult_right_mono)
  also have "(of_int (2 ^ nat (p - u)) :: rat) = 2 powi (p - u)"
    using up by (simp add: power_int_def)
  also have "2 powi (p - u) * 2 powi u = (2::rat) powi p"
    by (simp flip: power_int_add)
  finally have rp: "r \<le> 2 powi p" .
  have r0: "0 \<le> r" using k0 by (simp add: r_def)
  have "\<not> 1024 \<le> binary_exponent r"
  proof (cases "r = 0")
    case True
    then show ?thesis by (simp add: binary_exponent_0)
  next
    case False
    with r0 have "0 < r" by simp
    from binary_exponent_le [OF this rp] p show ?thesis by simp
  qed
  with to_double_pos [OF x(1)] have "to_double x = Fin r"
    unfolding u_def [symmetric] k_def [symmetric] r_def [symmetric] by simp
  with r0 rp show ?thesis by blast
qed

text \<open>From a power of two on the rounding stays at or above it.\<close>

lemma to_double_above_power:
  assumes x: "2 powi p \<le> x" and p: "- 1022 \<le> p"
  shows "to_double x = PosInf \<or> (\<exists>r. to_double x = Fin r \<and> 2 powi p \<le> r)"
proof -
  have x0: "0 < x"
    using x by (rule less_le_trans [rotated]) simp
  define u where "u = max (binary_exponent x - 52) (- 1074)"
  define k where "k = round_half_even (x / 2 powi u)"
  define r :: rat where "r = of_int k * 2 powi u"
  from binary_exponent_ge [OF x0 x] have pe: "p \<le> binary_exponent x" .
  with p have u: "u = binary_exponent x - 52" by (simp add: u_def)
  from binary_exponent_bounds [OF x0] have "2 powi binary_exponent x \<le> x" by simp
  then have "2 powi binary_exponent x / 2 powi u \<le> x / 2 powi u"
    by (simp add: divide_right_mono)
  moreover have "2 powi binary_exponent x / 2 powi u = (of_int (2 ^ 52) :: rat)"
    by (simp add: u flip: power_int_diff)
  ultimately have "2 ^ 52 \<le> k"
    unfolding k_def using round_half_even_mono round_half_even_of_int by metis
  then have "(of_int (2 ^ 52) :: rat) \<le> of_int k"
    by (simp only: of_int_le_iff)
  then have "of_int (2 ^ 52) * 2 powi u \<le> r"
    unfolding r_def by (simp add: mult_right_mono)
  moreover have "(of_int (2 ^ 52) :: rat) * 2 powi u = 2 powi binary_exponent x"
    by (simp add: u power_int_diff)
  moreover have "(2::rat) powi p \<le> 2 powi binary_exponent x"
    using pe by (intro power_int_increasing) simp_all
  ultimately have "2 powi p \<le> r" by simp
  with to_double_pos [OF x0] show ?thesis
    unfolding u_def [symmetric] k_def [symmetric] r_def [symmetric] by simp
qed

lemma to_double_nonpos:
  assumes "x \<le> 0"
  shows "to_double x = NegInf \<or> (\<exists>r. to_double x = Fin r \<and> r \<le> 0)"
proof (cases "x = 0")
  case True
  then show ?thesis by (simp add: to_double_def)
next
  case False
  with assms have x: "0 < - x" by simp
  have "0 \<le> (- x) / 2 powi max (binary_exponent (- x) - 52) (- 1074)"
    using x by (intro divide_nonneg_pos) simp_all
  then have "0 \<le> round_half_even ((- x) / 2 powi max (binary_exponent (- x) - 52) (- 1074))"
    by (rule round_half_even_nonneg)
  with to_double_pos [OF x]
  have "to_double (- x) = PosInf \<or> (\<exists>r. to_double (- x) = Fin r \<and> 0 \<le> r)"
    by simp
  then show ?thesis
    by (cases "to_double x") (auto simp: to_double_minus)
qed

text \<open>
  The values that round below a double \<open>M * 2 ^ u\<close> whose lower neighbour has the same
  exponent: those below the midpoint of the two, and the midpoint when the neighbour's
  significand is the even one.
\<close>

lemma to_double_less_iff:
  assumes M: "2 ^ 52 < M" "M \<le> 2 ^ 53" and u: "- 1074 \<le> u" "u \<le> 970"
  shows "num_lt (to_double x) (Fin (of_int M * 2 powi u))
         \<longleftrightarrow> x < (of_int M - 1 / 2) * 2 powi u \<or> (x = (of_int M - 1 / 2) * 2 powi u \<and> odd M)"
proof -
  define d :: rat where "d = of_int M * 2 powi u"
  define B :: rat where "B = (of_int M - 1 / 2) * 2 powi u"
  have M': "(2::rat) ^ 52 < of_int M" "of_int M \<le> (2::rat) ^ 53"
  proof -
    have "(of_int (2 ^ 52) :: rat) < of_int M" using M(1) by (simp only: of_int_less_iff)
    then show "(2::rat) ^ 52 < of_int M" by simp
    have "(of_int M :: rat) \<le> of_int (2 ^ 53)" using M(2) by (simp only: of_int_le_iff)
    then show "of_int M \<le> (2::rat) ^ 53" by simp
  qed
  have M1: "(2::rat) ^ 52 \<le> of_int M - 1"
  proof -
    from M(1) have "2 ^ 52 \<le> M - 1" by simp
    then have "(of_int (2 ^ 52) :: rat) \<le> of_int (M - 1)" by (simp only: of_int_le_iff)
    then show ?thesis by simp
  qed
  have lo: "2 powi (52 + u) < B"
  proof -
    have "(2::rat) ^ 52 * 2 powi u < (of_int M - 1 / 2) * 2 powi u"
      using M1 by (intro mult_strict_right_mono) simp_all
    then show ?thesis by (simp add: B_def power_int_add)
  qed
  have Bd: "B < d"
    unfolding B_def d_def by (intro mult_strict_right_mono) simp_all
  have hi: "d \<le> 2 powi (53 + u)"
  proof -
    have "of_int M * 2 powi u \<le> (2::rat) ^ 53 * 2 powi u"
      using M'(2) by (intro mult_right_mono) simp_all
    then show ?thesis by (simp add: d_def power_int_add)
  qed
  consider "x \<le> 0" | "0 < x" "x < 2 powi (52 + u)" | "2 powi (52 + u) \<le> x" "x < 2 powi (53 + u)"
    | "2 powi (53 + u) \<le> x" by linarith
  then have "num_lt (to_double x) (Fin d) \<longleftrightarrow> x < B \<or> (x = B \<and> odd M)"
  proof cases
    case 1
    have "0 < d" using M' by (simp add: d_def)
    with to_double_nonpos [OF 1] have "num_lt (to_double x) (Fin d)" by auto
    moreover have "0 < B" using lo by (rule less_trans [rotated]) simp
    ultimately show ?thesis using 1 by simp
  next
    case 2
    from to_double_below_power [OF 2] u obtain r where
      "to_double x = Fin r" "r \<le> 2 powi (52 + u)" by auto
    with lo Bd have "num_lt (to_double x) (Fin d)" by simp
    moreover from 2(2) lo have "x < B" by simp
    ultimately show ?thesis by simp
  next
    case 3
    have x0: "0 < x"
      using 3(1) by (rule less_le_trans [rotated]) simp
    have E: "binary_exponent x = 52 + u"
      using x0 3 by (intro binary_exponent_unique) (simp_all add: add.commute add.left_commute)
    define k where "k = round_half_even (x / 2 powi u)"
    define r :: rat where "r = of_int k * 2 powi u"
    have ulp: "max (binary_exponent x - 52) (- 1074) = u"
      using u by (simp add: E)
    from scaled_quotient(1) [OF x0 ulp [symmetric]] have "x / 2 powi u \<le> of_int (2 ^ 53)" by simp
    from round_half_even_mono [OF this] have "k \<le> 2 ^ 53"
      by (simp only: k_def round_half_even_of_int)
    then have "(of_int k :: rat) \<le> of_int (2 ^ 53)" by (simp only: of_int_le_iff)
    then have "r \<le> of_int (2 ^ 53) * 2 powi u"
      unfolding r_def by (simp add: mult_right_mono)
    then have rp: "r \<le> 2 powi (53 + u)" by (simp add: power_int_add)
    have "0 \<le> x / 2 powi u" using x0 by simp
    then have "0 \<le> k" unfolding k_def by (rule round_half_even_nonneg)
    then have r0: "0 \<le> r" by (simp add: r_def)
    have "\<not> 1024 \<le> binary_exponent r"
    proof (cases "r = 0")
      case True
      then show ?thesis by (simp add: binary_exponent_0)
    next
      case False
      with r0 have "0 < r" by simp
      from binary_exponent_le [OF this rp] u show ?thesis by simp
    qed
    with to_double_pos [OF x0] have res: "to_double x = Fin r"
      unfolding ulp k_def [symmetric] r_def [symmetric] by simp
    have "r < d \<longleftrightarrow> (of_int k :: rat) < of_int M"
      by (simp add: r_def d_def)
    also have "\<dots> \<longleftrightarrow> k \<le> M - 1" by (simp only: of_int_less_iff) linarith
    also have "\<dots> \<longleftrightarrow> x / 2 powi u < of_int (M - 1) + 1 / 2
                      \<or> (x / 2 powi u = of_int (M - 1) + 1 / 2 \<and> even (M - 1))"
      unfolding k_def by (rule round_half_even_le_iff)
    also have "x / 2 powi u < of_int (M - 1) + 1 / 2 \<longleftrightarrow> x < B"
      by (simp add: B_def field_simps)
    also have "x / 2 powi u = of_int (M - 1) + 1 / 2 \<longleftrightarrow> x = B"
      by (simp add: B_def field_simps)
    also have "even (M - 1) \<longleftrightarrow> odd M" by simp
    finally show ?thesis by (simp add: res)
  next
    case 4
    from to_double_above_power [OF 4] u
    have "to_double x = PosInf \<or> (\<exists>r. to_double x = Fin r \<and> 2 powi (53 + u) \<le> r)" by simp
    with hi have "\<not> num_lt (to_double x) (Fin d)" by auto
    moreover from 4 hi Bd have "\<not> x < B" "x \<noteq> B" by simp_all
    ultimately show ?thesis by simp
  qed
  then show ?thesis by (simp only: d_def B_def)
qed

subsection \<open>Thresholds and maxima\<close>

lemma to_double_of_int:
  assumes "\<bar>n\<bar> < 2 ^ 53"
  shows "to_double (of_int n) = Fin (of_int n)"
proof -
  have "(of_int n :: rat) = of_int n * 2 powi 0 \<and> \<bar>n\<bar> < 2 ^ 53 \<and> - 1074 \<le> (0::int) \<and> (0::int) \<le> 971"
    using assms by simp
  then have "representable (of_int n)"
    unfolding representable_def by blast
  then show ?thesis by (rule to_double_representable)
qed

lemma foldl_Math_max2_NaN: "foldl Math_max2 NaN xs = NaN"
  by (induction xs) simp_all

lemma foldl_Math_max2_above:
  "num_lt (Fin t) (foldl Math_max2 acc xs)
   \<longleftrightarrow> acc \<noteq> NaN \<and> NaN \<notin> set xs \<and> (num_lt (Fin t) acc \<or> (\<exists>x\<in>set xs. num_lt (Fin t) x))"
proof (induction xs arbitrary: acc)
  case Nil
  then show ?case by (cases acc) simp_all
next
  case (Cons x xs)
  have step: "Math_max2 acc x \<noteq> NaN \<longleftrightarrow> acc \<noteq> NaN \<and> x \<noteq> NaN"
    by (cases acc; cases x) simp_all
  have above: "acc \<noteq> NaN \<Longrightarrow> x \<noteq> NaN \<Longrightarrow>
      num_lt (Fin t) (Math_max2 acc x) \<longleftrightarrow> num_lt (Fin t) acc \<or> num_lt (Fin t) x"
    by (cases acc; cases x) auto
  show ?case
    unfolding foldl_Cons Cons.IH step using above by auto
qed

lemma Math_max_exceeds: "num_gt (Math_max xs) (Fin t) \<longleftrightarrow> exceeds xs t"
  by (simp add: num_gt_def Math_max_def exceeds_def foldl_Math_max2_above)

lemma foldl_Math_max2_Fin:
  "foldl Math_max2 (Fin a) (map Fin xs) = Fin (fold max xs a)"
proof (induction xs arbitrary: a)
  case Nil
  then show ?case by simp
next
  case (Cons x xs)
  have "Math_max2 (Fin a) (Fin x) = Fin (max x a)"
    by (simp add: max_def)
  then show ?case
    by (simp add: Cons.IH)
qed

lemma Math_max_Fin:
  assumes "xs \<noteq> []"
  shows "Math_max (map Fin xs) = Fin (Max (set xs))"
proof -
  from assms obtain a ys where xs: "xs = a # ys" by (cases xs) auto
  have "Math_max (map Fin xs) = Fin (fold max ys a)"
    by (simp add: xs Math_max_def foldl_Math_max2_Fin)
  also have "fold max ys a = Max (set xs)"
    unfolding xs by (rule Max.set_eq_fold [symmetric])
  finally show ?thesis .
qed

lemma reads_below_one:
  "num_lt (toNumber v) (Fin 1) \<longleftrightarrow> num_lt v (Fin (1 - 1 / 2 ^ 54))"
proof (cases v)
  case (Fin x)
  have "num_lt (to_double x) (Fin (of_int (2 ^ 53) * 2 powi (- 53)))
        \<longleftrightarrow> x < (of_int (2 ^ 53) - 1 / 2) * 2 powi (- 53)
            \<or> (x = (of_int (2 ^ 53) - 1 / 2) * 2 powi (- 53) \<and> odd ((2::int) ^ 53))"
    by (rule to_double_less_iff) simp_all
  moreover have "(of_int (2 ^ 53) :: rat) * 2 powi (- 53) = 1"
    by (simp add: power_int_minus)
  moreover have "((of_int (2 ^ 53) :: rat) - 1 / 2) * 2 powi (- 53) = 1 - 1 / 2 ^ 54"
    by (simp add: power_int_minus field_simps)
  ultimately show ?thesis
    by (simp add: Fin)
qed simp_all

lemma reads_below_half:
  "num_lt (toNumber v) (Fin (1 / 2)) \<longleftrightarrow> num_lt v (Fin (1 / 2 - 1 / 2 ^ 55))"
proof (cases v)
  case (Fin x)
  have "num_lt (to_double x) (Fin (of_int (2 ^ 53) * 2 powi (- 54)))
        \<longleftrightarrow> x < (of_int (2 ^ 53) - 1 / 2) * 2 powi (- 54)
            \<or> (x = (of_int (2 ^ 53) - 1 / 2) * 2 powi (- 54) \<and> odd ((2::int) ^ 53))"
    by (rule to_double_less_iff) simp_all
  moreover have "(of_int (2 ^ 53) :: rat) * 2 powi (- 54) = 1 / 2"
    by (simp add: power_int_minus)
  moreover have "((of_int (2 ^ 53) :: rat) - 1 / 2) * 2 powi (- 54) = 1 / 2 - 1 / 2 ^ 55"
    by (simp add: power_int_minus field_simps)
  ultimately show ?thesis
    by (simp add: Fin)
qed simp_all

lemma three_tenths: "to_double (3 / 10) = Fin (of_int 5404319552844595 * 2 powi (- 54))"
  by code_simp

lemma reads_below_three_tenths:
  "num_lt (toNumber v) (to_double (3 / 10)) \<longleftrightarrow> num_le v (Fin (10808639105689189 / 2 ^ 55))"
proof (cases v)
  case (Fin x)
  have "num_lt (to_double x) (Fin (of_int 5404319552844595 * 2 powi (- 54)))
        \<longleftrightarrow> x < (of_int 5404319552844595 - 1 / 2) * 2 powi (- 54)
            \<or> (x = (of_int 5404319552844595 - 1 / 2) * 2 powi (- 54)
                \<and> odd (5404319552844595::int))"
    by (rule to_double_less_iff) simp_all
  moreover have "((of_int 5404319552844595 :: rat) - 1 / 2) * 2 powi (- 54)
                 = 10808639105689189 / 2 ^ 55"
    by (simp add: power_int_minus field_simps)
  ultimately show ?thesis
    by (auto simp: Fin three_tenths num_le_def)
qed (simp_all add: three_tenths num_le_def)

lemma toNumber_NaN: "toNumber v = NaN \<longleftrightarrow> v = NaN"
  by (cases v) (simp_all add: to_double_not_NaN)

lemma num_add_0: "num_add v (Fin 0) = v"
  by (cases v) simp_all

lemma js_sub_add: "js_sub a b = js_add a (num_neg b)"
  by (simp add: js_sub_def js_add_def num_sub_def)

lemma js_add_0: "js_add (js_add a b) (Fin 0) = js_add a b"
  by (simp add: js_add_def num_add_0 toNumber_idem)

lemma js_add_Fin_NaN: "js_add a (Fin y) = NaN \<longleftrightarrow> a = NaN"
  by (cases a) (simp_all add: js_add_def toNumber_NaN to_double_not_NaN)

lemma js_add_NaN_Fin: "js_add (Fin x) b = NaN \<longleftrightarrow> b = NaN"
  by (cases b) (simp_all add: js_add_def toNumber_NaN to_double_not_NaN)

lemma foldl_js_add_Fin: "a \<noteq> NaN \<Longrightarrow> foldl js_add a (map Fin ys) \<noteq> NaN"
  by (induction ys arbitrary: a) (simp_all add: js_add_Fin_NaN)

lemma js_mul_Fin_NaN: "js_mul (Fin x) (Fin y) \<noteq> NaN"
  by (simp add: js_mul_def to_double_not_NaN)

lemma num_neg_NaN: "num_neg v = NaN \<longleftrightarrow> v = NaN"
  by (cases v) simp_all

lemma Math_clamp: "Math_max2 (Math_min2 v (Fin 100)) (Fin 0) = clamp_score v"
  by (cases v) (auto simp: clamp_score_def clamp_0_100_def max_def min_def)

lemma clamp_score_range:
  assumes "v \<noteq> NaN"
  shows "\<exists>s. clamp_score v = Fin s \<and> 0 \<le> s \<and> s \<le> 100"
  using assms by (cases v) (simp_all add: clamp_score_def clamp_0_100_def)

lemma hop_term:
  assumes "\<bar>h\<bar> \<le> 2 ^ 50"
  shows "js_mul (Math_max2 (Fin 0) (js_sub (Fin (of_int h)) (Fin 3))) (Fin 3)
         = Fin (3 * of_int (max 0 (h - 3)))"
proof -
  have "js_sub (Fin (of_int h)) (Fin 3) = to_double (of_int (h - 3))"
    by (simp add: js_sub_def num_sub_def)
  also have "\<dots> = Fin (of_int (h - 3))"
    using assms by (intro to_double_of_int) simp
  finally have d: "js_sub (Fin (of_int h)) (Fin 3) = Fin (of_int (h - 3))" .
  have m: "Math_max2 (Fin 0) (Fin (of_int (h - 3))) = Fin (of_int (max 0 (h - 3)))"
    by (simp add: max_def)
  have "js_mul (Fin (of_int (max 0 (h - 3)))) (Fin 3) = to_double (of_int (max 0 (h - 3) * 3))"
    by (simp add: js_mul_def)
  also have "\<dots> = Fin (of_int (max 0 (h - 3) * 3))"
    using assms by (intro to_double_of_int) (auto simp: max_def)
  finally show ?thesis
    unfolding d m by (simp add: mult.commute)
qed

lemma asset_term:
  assumes "k \<le> 2 ^ 50"
  shows "js_mul (Fin (of_nat k)) (Fin 3) = Fin (3 * of_nat k)"
proof -
  have "js_mul (Fin (of_nat k)) (Fin 3) = to_double (of_int (int k * 3))"
    by (simp add: js_mul_def)
  also have "\<dots> = Fin (of_int (int k * 3))"
    using assms by (intro to_double_of_int) simp
  finally show ?thesis by (simp add: mult.commute)
qed


subsection \<open>Confidence score\<close>

text \<open>
  Claim C2, as stated, fails. For the opportunity \<open>quarter_roi_opportunity\<close> (no price
  impact, no slippage, three hops, no high-liquidity asset, net ROI 0.25) the reference
  formula gives 100 - 35 + 15 = 80, and the code returns 100 - 25 - 35 + 15 = 55.
\<close>

theorem confidence_reference_counterexample:
  "map priceImpact (swapDetails quarter_roi_opportunity) = [Fin 0, Fin 0, Fin 0]
   \<and> map slippage (swapDetails quarter_roi_opportunity) = [Fin 0, Fin 0, Fin 0]
   \<and> length (filter (\<lambda>t. t \<in> set highLiqTokens) (path quarter_roi_opportunity)) = 0
   \<and> totalHops quarter_roi_opportunity = 3
   \<and> netROI quarter_roi_opportunity = Fin (1 / 4)
   \<and> confidence_reference 0 3 (Fin (1 / 4)) 0 (Fin 0) = 80
   \<and> calculateConfidenceScore quarter_roi_opportunity = Fin 55"
proof -
  have "calculateConfidenceScore quarter_roi_opportunity = Fin 55"
    by code_simp
  then show ?thesis
    by (simp add: quarter_roi_opportunity_def highLiqTokens_def confidence_reference_def
        clamp_0_100_def num_gt_def)
qed

text \<open>
  Claim C2, amended. For every opportunity whose swaps all have a finite price impact
  (with at most \<open>2 ^ 50\<close> hops and path tokens), the confidence score is computed in the
  arithmetic of doubles: to 100 are added, one after the other and each sum rounded to the
  nearest double, minus 8 times the maximum price impact (the product rounded), minus 3
  times max(0, hops - 3), minus 25 if netROI < 1 - 2^-54 (the values that read as a number
  below 1), minus a further 35 (60 in total) if netROI < 0.5 - 2^-55 (the values that read
  as a number below 0.5), 15 if the opportunity is flagged circular, 3 per high-liquidity
  asset in the path, minus 20 if no slippage is NaN and one exceeds 1, and minus a further
  30 (50 in total) if one exceeds 2; and the result is clamped into [0, 100].
\<close>

theorem confidence_score_accumulates:
  assumes impacts: "map priceImpact (swapDetails opp) = map Fin impacts" and some: "impacts \<noteq> []"
    and hops: "\<bar>totalHops opp\<bar> \<le> 2 ^ 50" and len: "length (path opp) \<le> 2 ^ 50"
  shows "calculateConfidenceScore opp =
           confidence_accumulated (Max (set impacts)) (totalHops opp) (netROI opp)
             (opp_isCircular opp) (length (filter (\<lambda>t. t \<in> set highLiqTokens) (path opp)))
             (map slippage (swapDetails opp))
         \<and> (\<exists>s. calculateConfidenceScore opp = Fin s \<and> 0 \<le> s \<and> s \<le> 100)"
proof -
  define k where "k = length (filter (\<lambda>t. t \<in> set highLiqTokens) (path opp))"
  have "k \<le> length (path opp)" by (simp add: k_def)
  with len have k: "k \<le> 2 ^ 50" by simp
  have mpi: "Math_max (map priceImpact (swapDetails opp)) = Fin (Max (set impacts))"
    unfolding impacts by (rule Math_max_Fin [OF some])
  define acc where
    "acc = foldl js_add (Fin 100)
               (confidence_amounts (Max (set impacts)) (totalHops opp) (netROI opp)
                  (opp_isCircular opp) k (map slippage (swapDetails opp)))"
  have score: "calculateConfidenceScore opp = clamp_score acc"
    unfolding calculateConfidenceScore_def Let_def k_def [symmetric] mpi hop_term [OF hops]
      asset_term [OF k] Math_max_exceeds reads_below_one reads_below_half acc_def
      confidence_amounts_def Math_clamp
    by (simp add: js_sub_add js_add_0)
  have "acc \<noteq> NaN"
  proof -
    have "\<exists>ys. acc = foldl js_add
            (js_add (Fin 100) (num_neg (js_mul (Fin (Max (set impacts))) (Fin 8)))) (map Fin ys)"
      unfolding acc_def confidence_amounts_def
      by (intro exI [of _ "[_, _, _, _, _, _, _]"]) simp
    moreover have "js_add (Fin 100) (num_neg (js_mul (Fin (Max (set impacts))) (Fin 8))) \<noteq> NaN"
      by (simp add: js_add_NaN_Fin num_neg_NaN js_mul_Fin_NaN)
    ultimately show ?thesis
      using foldl_js_add_Fin by auto
  qed
  from clamp_score_range [OF this] score show ?thesis
    by (simp add: confidence_accumulated_def k_def acc_def)
qed


theorem confidence_score_accumulates_witness:
  "map_option (assign_costs default_scanner wbnb_scenario_path)
     (calculateCircularPathProfit near_half_feed default_scanner no_addresses
        wbnb_scenario_path None)
     = Some near_half_opportunity
   \<and> netROI near_half_opportunity = Fin (49999999999999999 / 10 ^ 17)
   \<and> calculateConfidenceScore near_half_opportunity = Fin 95
   \<and> calculateConfidenceScore near_three_tenths_opportunity = Fin 29
   \<and> to_double (1 / 10) = Fin (3602879701896397 / 2 ^ 55)
   \<and> calculateConfidenceScore tenth_impact_opportunity = Fin (3813985934429389 / 2 ^ 46)"
proof -
  have run: "map_option (assign_costs default_scanner wbnb_scenario_path)
     (calculateCircularPathProfit near_half_feed default_scanner no_addresses
        wbnb_scenario_path None)
     = Some near_half_opportunity"
    by code_simp
  have half: "map priceImpact (swapDetails near_half_opportunity) = map Fin [1 / 2, 1 / 4, 0]"
    "[1 / 2, 1 / 4, 0 :: rat] \<noteq> []" "\<bar>totalHops near_half_opportunity\<bar> \<le> 2 ^ 50"
    "length (path near_half_opportunity) \<le> 2 ^ 50"
    by (simp_all add: near_half_opportunity_def)
  have half_sum: "confidence_accumulated (Max (set [1 / 2, 1 / 4, 0]))
      (totalHops near_half_opportunity) (netROI near_half_opportunity)
      (opp_isCircular near_half_opportunity)
      (length (filter (\<lambda>t. t \<in> set highLiqTokens) (path near_half_opportunity)))
      (map slippage (swapDetails near_half_opportunity)) = Fin 95"
    by code_simp
  have tenths: "map priceImpact (swapDetails near_three_tenths_opportunity)
                = map Fin [3 / 4, 1 / 4, 0, 1 / 8]"
    "[3 / 4, 1 / 4, 0, 1 / 8 :: rat] \<noteq> []"
    "\<bar>totalHops near_three_tenths_opportunity\<bar> \<le> 2 ^ 50"
    "length (path near_three_tenths_opportunity) \<le> 2 ^ 50"
    by (simp_all add: near_three_tenths_opportunity_def)
  have tenths_sum: "confidence_accumulated (Max (set [3 / 4, 1 / 4, 0, 1 / 8]))
      (totalHops near_three_tenths_opportunity) (netROI near_three_tenths_opportunity)
      (opp_isCircular near_three_tenths_opportunity)
      (length (filter (\<lambda>t. t \<in> set highLiqTokens) (path near_three_tenths_opportunity)))
      (map slippage (swapDetails near_three_tenths_opportunity)) = Fin 29"
    by code_simp
  have tenth: "map priceImpact (swapDetails tenth_impact_opportunity)
               = map Fin [3602879701896397 / 2 ^ 55, 3602879701896397 / 2 ^ 55,
                          3602879701896397 / 2 ^ 55]"
    "[3602879701896397 / 2 ^ 55, 3602879701896397 / 2 ^ 55, 3602879701896397 / 2 ^ 55 :: rat]
     \<noteq> []"
    "\<bar>totalHops tenth_impact_opportunity\<bar> \<le> 2 ^ 50"
    "length (path tenth_impact_opportunity) \<le> 2 ^ 50"
    by (simp_all add: tenth_impact_opportunity_def quarter_roi_opportunity_def)
  have tenth_sum: "confidence_accumulated
      (Max (set [3602879701896397 / 2 ^ 55, 3602879701896397 / 2 ^ 55,
                 3602879701896397 / 2 ^ 55]))
      (totalHops tenth_impact_opportunity) (netROI tenth_impact_opportunity)
      (opp_isCircular tenth_impact_opportunity)
      (length (filter (\<lambda>t. t \<in> set highLiqTokens) (path tenth_impact_opportunity)))
      (map slippage (swapDetails tenth_impact_opportunity)) = Fin (3813985934429389 / 2 ^ 46)"
    by code_simp
  have lit: "to_double (1 / 10) = Fin (3602879701896397 / 2 ^ 55)"
    by code_simp
  from confidence_score_accumulates [OF half] confidence_score_accumulates [OF tenths]
    confidence_score_accumulates [OF tenth] half_sum tenths_sum tenth_sum lit run
  show ?thesis
    by (simp add: near_half_opportunity_def)
qed


subsection \<open>Generated paths\<close>

lemma foldl_invariant:
  assumes "Q acc" and "\<And>x a. x \<in> set xs \<Longrightarrow> Q a \<Longrightarrow> Q (f a x)"
  shows "Q (foldl f acc xs)"
  using assms by (induction xs arbitrary: acc) simp_all

lemma combination_length:
  "c \<in> set (generateStrategicDexCombinations g n) \<Longrightarrow> length c = n"
  by (auto simp: generateStrategicDexCombinations_def Let_def split: if_splits)

lemma generateDexCombinationsForPath_shape:
  assumes acc: "list_all generated_shape acc"
    and len: "2 \<le> length tokenPath" and first: "hd tokenPath = asset"
  shows "list_all generated_shape (generateDexCombinationsForPath g tokenPath asset acc)"
proof (cases "js_index tokenPath 0 \<noteq> js_index tokenPath (int (length tokenPath) - 1)")
  case True
  with acc show ?thesis
    by (auto simp: generateDexCombinationsForPath_def Let_def)
next
  case False
  from len have ne: "tokenPath \<noteq> []" by auto
  from ne first have zero: "js_index tokenPath 0 = Some asset"
    by (cases tokenPath) (simp_all add: js_index_def)
  have pushed: "list_all generated_shape
      (if validateDexCombination g tokenPath c
       then a @ [\<lparr> tokens = tokenPath, dexes = c, hops = int (length tokenPath - 1),
                     flashLoanAsset = asset, isCircular = True,
                     estimatedComplexity = calculatePathComplexity g tokenPath c,
                     liquidityScore = calculateLiquidityScore tokenPath asset \<rparr>]
       else a)"
    if "c \<in> set (generateStrategicDexCombinations g (length tokenPath - 1))"
      and "list_all generated_shape a" for c a
  proof -
    from that(1) have "length c = length tokenPath - 1"
      by (rule combination_length)
    with len that(2) zero show ?thesis
      by (auto simp: generated_shape_def)
  qed
  from False ne show ?thesis
    unfolding generateDexCombinationsForPath_def Let_def
    apply simp
    apply (rule foldl_invariant [where Q = "list_all generated_shape"])
     apply (rule acc)
    apply (rule pushed)
     apply simp_all
    done
qed

declare dfsCircularPath.simps [simp del]

lemma dfsCircularPath_shape:
  "list_all generated_shape acc \<Longrightarrow> currentPath \<noteq> [] \<Longrightarrow> hd currentPath = startAsset
   \<Longrightarrow> list_all generated_shape
         (dfsCircularPath g startAsset currentAsset currentPath visited targetHops currentHops
            availableTokens acc)"
proof (induction g startAsset currentAsset currentPath visited targetHops currentHops
    availableTokens acc rule: dfsCircularPath.induct)
  case (1 g startAsset currentAsset currentPath visited targetHops currentHops availableTokens
      generatedPaths)
  from "1.prems" have two: "2 \<le> length (currentPath @ [startAsset])"
    and first: "hd (currentPath @ [startAsset]) = startAsset"
    by (cases currentPath; simp)+
  show ?case
  proof (cases "currentHops = targetHops")
    case True
    with "1.prems"(1) two first show ?thesis
      by (subst dfsCircularPath.simps) (simp add: generateDexCombinationsForPath_shape)
  next
    case False
    show ?thesis
    proof (cases "currentHops < targetHops")
      case True
      have step: "list_all generated_shape
             (if x = startAsset \<and> int currentHops < int targetHops - 1 then a
              else if x \<in> set visited then a
              else if int currentHops < int targetHops - 1 \<and> x \<notin> set availableTokens
                      \<and> x \<noteq> startAsset
              then a
              else dfsCircularPath g startAsset x (currentPath @ [x]) (x # visited) targetHops
                     (currentHops + 1) availableTokens a)"
        if "x \<in> set (trading_pairs g currentAsset)" and "list_all generated_shape a" for x a
      proof -
        from "1.prems" have "currentPath @ [x] \<noteq> []" "hd (currentPath @ [x]) = startAsset"
          by (cases currentPath; simp)+
        with that "1.IH" [OF False True, of x a] show ?thesis
          by auto
      qed
      show ?thesis
        apply (subst dfsCircularPath.simps)
        apply (simp only: False True if_False if_True)
        apply (rule foldl_invariant [where Q = "list_all generated_shape"])
         apply (rule "1.prems")
        apply (rule step)
         apply assumption+
        done
    next
      case ge: False
      with False "1.prems" show ?thesis
        by (subst dfsCircularPath.simps) simp
    qed
  qed
qed

lemma raw_paths_shape:
  "list_all generated_shape acc
   \<Longrightarrow> list_all generated_shape
         (foldl (\<lambda>paths asset. generateCircularPathsFromAsset g asset paths) acc assets)"
  by (rule foldl_invariant [where Q = "list_all generated_shape"])
     (auto simp: generateCircularPathsFromAsset_def generateCircularPathsWithHops_def Let_def
       intro!: foldl_invariant [where Q = "list_all generated_shape"] dfsCircularPath_shape)

lemma set_removeDuplicatePaths_seen: "set (removeDuplicatePaths_seen seen ps) \<subseteq> set ps"
  by (induction ps arbitrary: seen) (auto simp: Let_def)

lemma set_balance: "set (balanceFlashLoanAssetDistribution g ps) \<subseteq> set ps"
  by (auto simp: balanceFlashLoanAssetDistribution_def Let_def dest: in_set_takeD)

lemma set_filterAndOptimizePaths:
  "set (filterAndOptimizePaths g ps) \<subseteq> {p \<in> set ps. quality_path g p}"
  using set_balance [of g] set_removeDuplicatePaths_seen [of "[]" ps]
  by (fastforce simp: filterAndOptimizePaths_def Let_def removeDuplicatePaths_def)

lemma generated_paths_shape: "list_all generated_shape (generateAllPaths g [])"
proof -
  have "list_all generated_shape
          (foldl (\<lambda>paths asset. generateCircularPathsFromAsset g asset paths) []
             (flashLoanAssets g))"
    by (rule raw_paths_shape) simp
  with set_filterAndOptimizePaths [of g] show ?thesis
    unfolding generateAllPaths_def list_all_iff by blast
qed

text \<open>
  Claim C5. Every path in the list that \<^verbatim>\<open>generateAllPaths\<close> returns for a freshly
  constructed generator is circular and well-formed: its first token equals its last
  token, its hop count is between 2 and 10 inclusive, and the length of its venue list is
  its hop count.
\<close>

theorem generated_paths_well_formed:
  "list_all well_formed_path (generateAllPaths g [])"
proof -
  have "well_formed_path p" if "p \<in> set (generateAllPaths g [])" for p
  proof -
    from that set_filterAndOptimizePaths have q: "quality_path g p"
      unfolding generateAllPaths_def by blast
    from that generated_paths_shape [of g] have "generated_shape p"
      by (simp add: list_all_iff)
    with q show ?thesis
      by (auto simp: well_formed_path_def generated_shape_def quality_path_def minHops_def
          maxHops_def split: if_splits)
  qed
  then show ?thesis
    by (simp add: list_all_iff)
qed

lemma path_key_sequences: "path_key p = (\<lambda>(ts, ds). join ''-'' ts @ '':'' @ join ''-'' ds) (sequences p)"
  by (simp add: path_key_def sequences_def)

lemma removeDuplicatePaths_seen_keys:
  "distinct (map path_key (removeDuplicatePaths_seen seen ps))
   \<and> path_key ` set (removeDuplicatePaths_seen seen ps) \<inter> set seen = {}"
proof (induction ps arbitrary: seen)
  case Nil
  then show ?case by simp
next
  case (Cons p ps)
  show ?case
  proof (cases "path_key p \<in> set seen")
    case True
    with Cons.IH [of seen] show ?thesis
      by (simp add: Let_def)
  next
    case False
    from Cons.IH [of "path_key p # seen"]
    have d: "distinct (map path_key (removeDuplicatePaths_seen (path_key p # seen) ps))"
      and i: "path_key ` set (removeDuplicatePaths_seen (path_key p # seen) ps)
              \<inter> set (path_key p # seen) = {}"
      by simp_all
    from i have "path_key p \<notin> path_key ` set (removeDuplicatePaths_seen (path_key p # seen) ps)"
      and "path_key ` set (removeDuplicatePaths_seen (path_key p # seen) ps) \<inter> set seen = {}"
      by auto
    with d False show ?thesis
      by (simp add: Let_def)
  qed
qed

lemma distinct_through:
  assumes "distinct (map (\<lambda>x. f (h x)) xs)"
  shows "distinct (map h xs)"
  using assms by (induction xs) auto

lemma removeDuplicatePaths_distinct: "distinct (map sequences (removeDuplicatePaths ps))"
proof -
  have "distinct (map path_key (removeDuplicatePaths ps))"
    using removeDuplicatePaths_seen_keys [of "[]" ps] by (simp add: removeDuplicatePaths_def)
  then show ?thesis
    unfolding path_key_sequences by (rule distinct_through)
qed

lemma distinct_map_insort_key:
  "distinct (map h (insort_key k x ys)) \<longleftrightarrow> h x \<notin> h ` set ys \<and> distinct (map h ys)"
  by (induction ys) (auto simp: set_insort_key)

lemma distinct_map_sort_key:
  "distinct (map h (sort_key k xs)) = distinct (map h xs)"
  by (induction xs) (simp_all add: distinct_map_insort_key)

lemma distinct_map_take: "distinct (map h xs) \<Longrightarrow> distinct (map h (take n xs))"
  by (simp add: take_map [symmetric])

lemma balance_distinct:
  assumes d: "distinct (map h ps)" and a: "distinct assets"
  shows "distinct (map h (concat (map (\<lambda>asset. take n (filter (\<lambda>p. flashLoanAsset p = asset) ps))
                                    assets)))"
  using a
proof (induction assets)
  case Nil
  then show ?case by simp
next
  case (Cons asset assets)
  from d have inj: "inj_on h (set ps)"
    by (simp add: distinct_map)
  have grp: "distinct (map h (take n (filter (\<lambda>p. flashLoanAsset p = asset) ps)))"
    using d by (intro distinct_map_take) (simp add: distinct_map_filter)
  have disj: "h p \<noteq> h q"
    if "p \<in> set (take n (filter (\<lambda>p. flashLoanAsset p = asset) ps))"
      and "q \<in> set (concat (map (\<lambda>b. take n (filter (\<lambda>p. flashLoanAsset p = b) ps)) assets))"
    for p q
  proof -
    from that(1) have p: "p \<in> set ps" "flashLoanAsset p = asset"
      by (auto dest: in_set_takeD)
    from that(2) obtain b where b: "b \<in> set assets" "q \<in> set ps" "flashLoanAsset q = b"
      by (auto dest: in_set_takeD)
    from Cons.prems b(1) have "b \<noteq> asset"
      by auto
    with p b have "p \<noteq> q" by auto
    with inj p(1) b(2) show ?thesis
      by (auto dest: inj_onD)
  qed
  from Cons have rest: "distinct (map h (concat (map (\<lambda>b. take n (filter (\<lambda>p. flashLoanAsset p = b) ps))
                                    assets)))"
    by simp
  from grp rest disj show ?case
    by (auto simp del: set_concat)
qed

text \<open>
  Claim C9. In the list that \<^verbatim>\<open>generateAllPaths\<close> returns, no two paths at different
  positions have both the same token sequence and the same venue sequence. The flash-loan
  assets are the keys of an object, hence distinct.
\<close>

theorem retained_paths_distinct:
  assumes "distinct (flashLoanAssets g)"
  shows "distinct (map sequences (generateAllPaths g generatedPaths))"
proof -
  define raw where
    "raw = foldl (\<lambda>paths asset. generateCircularPathsFromAsset g asset paths) generatedPaths
             (flashLoanAssets g)"
  have "distinct (map sequences (filter (quality_path g) (removeDuplicatePaths raw)))"
    by (simp add: distinct_map_filter removeDuplicatePaths_distinct)
  then have "distinct (map sequences
               (sort_key (\<lambda>p. - profitability p) (filter (quality_path g) (removeDuplicatePaths raw))))"
    by (simp only: distinct_map_sort_key)
  from balance_distinct [OF this assms] show ?thesis
    by (simp add: generateAllPaths_def filterAndOptimizePaths_def
        balanceFlashLoanAssetDistribution_def Let_def raw_def)
qed


lemma profitability_order:
  assumes "0 < estimatedComplexity p" "0 < estimatedComplexity q"
    "0 \<le> liquidityScore p" "0 \<le> liquidityScore q"
  shows "(profitability q \<le> profitability p)
         = ((liquidityScore q)\<^sup>2 * estimatedComplexity p
            \<le> (liquidityScore p)\<^sup>2 * estimatedComplexity q)"
proof -
  define lp lq cp cq where "lp = real_of_int (liquidityScore p)"
    and "lq = real_of_int (liquidityScore q)" and "cp = real_of_int (estimatedComplexity p)"
    and "cq = real_of_int (estimatedComplexity q)"
  have pos: "0 < cp" "0 < cq" "0 \<le> lp" "0 \<le> lq"
    using assms by (simp_all add: lp_def lq_def cp_def cq_def)
  have "(profitability q \<le> profitability p) = (lq / sqrt cq \<le> lp / sqrt cp)"
    by (simp add: profitability_def lp_def lq_def cp_def cq_def)
  also have "\<dots> = (lq * sqrt cp \<le> lp * sqrt cq)"
    using pos by (simp add: field_simps)
  also have "\<dots> = (sqrt (lq\<^sup>2 * cp) \<le> sqrt (lp\<^sup>2 * cq))"
    using pos by (simp add: real_sqrt_mult)
  also have "\<dots> = (lq\<^sup>2 * cp \<le> lp\<^sup>2 * cq)"
    by simp
  also have "\<dots> = ((liquidityScore q)\<^sup>2 * estimatedComplexity p
            \<le> (liquidityScore p)\<^sup>2 * estimatedComplexity q)"
    unfolding lp_def lq_def cp_def cq_def
    by (metis of_int_le_iff of_int_mult of_int_power)
  finally show ?thesis .
qed

lemma triangle_order:
  "0 < cx \<Longrightarrow> 0 < cx' \<Longrightarrow>
   (profitability (triangle_path ds' cx') \<le> profitability (triangle_path ds cx)) = (cx \<le> cx')"
  by (simp add: profitability_order triangle_path_def)


lemma triangle_candidates:
  "filter (quality_path triangle_generator)
     (removeDuplicatePaths
        (foldl (\<lambda>paths asset. generateCircularPathsFromAsset triangle_generator asset paths) []
           (flashLoanAssets triangle_generator)))
   = [triangle_path [''PANCAKESWAP_V2'', ''PANCAKESWAP_V3'', ''BISWAP''] 60,
      triangle_path [''PANCAKESWAP_V3'', ''BISWAP'', ''MDEX''] 60,
      triangle_path [''BISWAP'', ''MDEX'', ''UNISWAP_V3''] 60,
      triangle_path [''MDEX'', ''UNISWAP_V3'', ''APESWAP''] 60,
      triangle_path [''PANCAKESWAP_V3'', ''BISWAP'', ''PANCAKESWAP_V2''] 60,
      triangle_path [''BISWAP'', ''PANCAKESWAP_V2'', ''PANCAKESWAP_V3''] 60,
      triangle_path [''PANCAKESWAP_V2'', ''PANCAKESWAP_V3'', ''PANCAKESWAP_V2''] 55,
      triangle_path [''BISWAP'', ''UNISWAP_V3'', ''BISWAP''] 55,
      triangle_path [''PANCAKESWAP_V2'', ''PANCAKESWAP_V2'', ''PANCAKESWAP_V2''] 35,
      triangle_path [''PANCAKESWAP_V3'', ''PANCAKESWAP_V3'', ''PANCAKESWAP_V3''] 80]"
  by code_simp


lemma triangle_sorted:
  "sort_key (\<lambda>p. - profitability p)
     [triangle_path [''PANCAKESWAP_V2'', ''PANCAKESWAP_V3'', ''BISWAP''] 60,
      triangle_path [''PANCAKESWAP_V3'', ''BISWAP'', ''MDEX''] 60,
      triangle_path [''BISWAP'', ''MDEX'', ''UNISWAP_V3''] 60,
      triangle_path [''MDEX'', ''UNISWAP_V3'', ''APESWAP''] 60,
      triangle_path [''PANCAKESWAP_V3'', ''BISWAP'', ''PANCAKESWAP_V2''] 60,
      triangle_path [''BISWAP'', ''PANCAKESWAP_V2'', ''PANCAKESWAP_V3''] 60,
      triangle_path [''PANCAKESWAP_V2'', ''PANCAKESWAP_V3'', ''PANCAKESWAP_V2''] 55,
      triangle_path [''BISWAP'', ''UNISWAP_V3'', ''BISWAP''] 55,
      triangle_path [''PANCAKESWAP_V2'', ''PANCAKESWAP_V2'', ''PANCAKESWAP_V2''] 35,
      triangle_path [''PANCAKESWAP_V3'', ''PANCAKESWAP_V3'', ''PANCAKESWAP_V3''] 80]
   = [triangle_path [''PANCAKESWAP_V2'', ''PANCAKESWAP_V2'', ''PANCAKESWAP_V2''] 35,
      triangle_path [''PANCAKESWAP_V2'', ''PANCAKESWAP_V3'', ''PANCAKESWAP_V2''] 55,
      triangle_path [''BISWAP'', ''UNISWAP_V3'', ''BISWAP''] 55,
      triangle_path [''PANCAKESWAP_V2'', ''PANCAKESWAP_V3'', ''BISWAP''] 60,
      triangle_path [''PANCAKESWAP_V3'', ''BISWAP'', ''MDEX''] 60,
      triangle_path [''BISWAP'', ''MDEX'', ''UNISWAP_V3''] 60,
      triangle_path [''MDEX'', ''UNISWAP_V3'', ''APESWAP''] 60,
      triangle_path [''PANCAKESWAP_V3'', ''BISWAP'', ''PANCAKESWAP_V2''] 60,
      triangle_path [''BISWAP'', ''PANCAKESWAP_V2'', ''PANCAKESWAP_V3''] 60,
      triangle_path [''PANCAKESWAP_V3'', ''PANCAKESWAP_V3'', ''PANCAKESWAP_V3''] 80]"
  by (simp add: triangle_order)


lemma triangle_asset: "flashLoanAsset (triangle_path ds cx) = ''WBNB''"
  by (simp add: triangle_path_def)

lemma triangle_assets: "flashLoanAssets triangle_generator = [''WBNB'', ''USDT'']"
  by (simp add: triangle_generator_def)

lemma triangle_generated:
  "generateAllPaths triangle_generator []
   = [triangle_path [''PANCAKESWAP_V2'', ''PANCAKESWAP_V2'', ''PANCAKESWAP_V2''] 35,
      triangle_path [''PANCAKESWAP_V2'', ''PANCAKESWAP_V3'', ''PANCAKESWAP_V2''] 55,
      triangle_path [''BISWAP'', ''UNISWAP_V3'', ''BISWAP''] 55,
      triangle_path [''PANCAKESWAP_V2'', ''PANCAKESWAP_V3'', ''BISWAP''] 60,
      triangle_path [''PANCAKESWAP_V3'', ''BISWAP'', ''MDEX''] 60,
      triangle_path [''BISWAP'', ''MDEX'', ''UNISWAP_V3''] 60,
      triangle_path [''MDEX'', ''UNISWAP_V3'', ''APESWAP''] 60,
      triangle_path [''PANCAKESWAP_V3'', ''BISWAP'', ''PANCAKESWAP_V2''] 60,
      triangle_path [''BISWAP'', ''PANCAKESWAP_V2'', ''PANCAKESWAP_V3''] 60,
      triangle_path [''PANCAKESWAP_V3'', ''PANCAKESWAP_V3'', ''PANCAKESWAP_V3''] 80]"
proof -
  have "generateAllPaths triangle_generator []
        = balanceFlashLoanAssetDistribution triangle_generator
            (sort_key (\<lambda>p. - profitability p)
               (filter (quality_path triangle_generator)
                  (removeDuplicatePaths
                     (foldl (\<lambda>paths asset.
                               generateCircularPathsFromAsset triangle_generator asset paths) []
                        (flashLoanAssets triangle_generator)))))"
    by (simp only: generateAllPaths_def filterAndOptimizePaths_def Let_def)
  then show ?thesis
    unfolding triangle_candidates triangle_sorted
    by (simp add: balanceFlashLoanAssetDistribution_def triangle_assets triangle_asset)
qed

theorem generated_paths_well_formed_witness:
  "length (generateAllPaths triangle_generator []) = 10
   \<and> list_all well_formed_path (generateAllPaths triangle_generator [])"
  using generated_paths_well_formed [of triangle_generator]
  by (simp add: triangle_generated)

theorem retained_paths_distinct_witness:
  "distinct (flashLoanAssets triangle_generator)
   \<and> length (foldl (\<lambda>paths asset. generateCircularPathsFromAsset triangle_generator asset paths)
        [] (flashLoanAssets triangle_generator)) = 11
   \<and> length (generateAllPaths triangle_generator []) = 10
   \<and> distinct (map sequences (generateAllPaths triangle_generator []))"
proof -
  have d: "distinct (flashLoanAssets triangle_generator)"
    by (simp add: triangle_assets)
  have n: "length (foldl (\<lambda>paths asset. generateCircularPathsFromAsset triangle_generator asset paths)
        [] (flashLoanAssets triangle_generator)) = 11"
    by code_simp
  from retained_paths_distinct [OF d, of "[]"] d n show ?thesis
    by (simp add: triangle_generated)
qed


subsection \<open>Opportunities returned by the scanner\<close>

lemma swap_loop_details:
  "swap_loop feed sc tbl cp p i ds amt tok details = Some (amt', tok', details')
   \<Longrightarrow> length details' = length details + length ds
       \<and> (ds \<noteq> [] \<longrightarrow> sd_to (last details') = tok')"
proof (induction ds arbitrary: i amt tok details)
  case Nil
  then show ?case by simp
next
  case (Cons dex rest)
  from Cons.prems obtain amt2 d where
    rec: "swap_loop feed sc tbl cp p (i + 1) rest amt2 (js_index (tokens p) (int i + 1))
            (details @ [d]) = Some (amt', tok', details')"
    and d: "sd_to d = js_index (tokens p) (int i + 1)"
    by (simp add: Let_def swap_detail_of_def split: option.splits if_splits)
  from Cons.IH [OF rec] have len: "length details' = length details + length (dex # rest)"
    and lst: "rest \<noteq> [] \<longrightarrow> sd_to (last details') = tok'"
    by simp_all
  show ?case
  proof (cases rest)
    case Nil
    with rec d show ?thesis using len by auto
  next
    case (Cons d ds')
    with lst len show ?thesis by simp
  qed
qed

text \<open>
  Claim C3. For every path of the shape the generator builds, every price feed and every
  price snapshot: if \<^verbatim>\<open>scanPath\<close> returns an opportunity, its profit after costs is
  greater than 0, it has exactly \<^verbatim>\<open>path.hops\<close> swaps, and the output token of its last
  swap is the path's flash-loan asset, which is both the first and the last token of the
  path.
\<close>

theorem scanPath_returns:
  assumes ret: "scanPath feed sc tbl p currentPrices = Some opp"
    and shape: "generated_shape p"
  shows "num_gt (profitAfterCosts opp) (Fin 0)
         \<and> int (length (swapDetails opp)) = hops p
         \<and> sd_to (last (swapDetails opp)) = Some (flashLoanAsset p)
         \<and> js_index (tokens p) 0 = Some (flashLoanAsset p)
         \<and> js_index (tokens p) (int (length (tokens p)) - 1) = Some (flashLoanAsset p)"
proof -
  from ret have circ: "js_index (tokens p) 0 = js_index (tokens p) (int (length (tokens p)) - 1)"
    by (auto simp: scanPath_def split: if_splits)
  from ret obtain found where
    found: "calculateCircularPathProfit feed sc tbl p currentPrices = Some found"
    and opp: "opp = assess_risk (assign_costs sc p found)"
    and pos: "num_gt (profitAfterCosts opp) (Fin 0)"
    by (auto simp: scanPath_def Let_def split: if_splits option.splits)
  from found obtain amt' tok' where
    loop: "swap_loop feed sc tbl currentPrices p 0 (dexes p)
             (calculateOptimalFlashLoanAmount p) (js_index (tokens p) 0) []
           = Some (amt', tok', swapDetails found)"
    and closes: "tok' = js_index (tokens p) 0"
    by (auto simp: calculateCircularPathProfit_def circular_profit_from_def Let_def
        split: option.splits if_splits)
  have same: "swapDetails opp = swapDetails found"
    by (simp add: opp assess_risk_def assign_costs_def Let_def costed_opportunity.defs
        opportunity.defs profit_result.defs)
  from shape have ne: "dexes p \<noteq> []" and h: "hops p = int (length (dexes p))"
    and fa: "js_index (tokens p) 0 = Some (flashLoanAsset p)"
    by (simp_all add: generated_shape_def)
  from swap_loop_details [OF loop] ne
  have "length (swapDetails found) = length (dexes p)" "sd_to (last (swapDetails found)) = tok'"
    by simp_all
  with same closes fa h circ pos show ?thesis by simp
qed


theorem scanPath_returns_witness:
  "wbnb_scenario_path \<in> set (generateAllPaths triangle_generator [])
   \<and> generated_shape wbnb_scenario_path
   \<and> scanPath (scenario_feed (Fin 30)) default_scanner no_addresses wbnb_scenario_path None
       \<noteq> None
   \<and> num_gt (profitAfterCosts (the (scanPath (scenario_feed (Fin 30)) default_scanner
          no_addresses wbnb_scenario_path None))) (Fin 0)
   \<and> length (swapDetails (the (scanPath (scenario_feed (Fin 30)) default_scanner
          no_addresses wbnb_scenario_path None))) = 3
   \<and> sd_to (last (swapDetails (the (scanPath (scenario_feed (Fin 30)) default_scanner
          no_addresses wbnb_scenario_path None)))) = Some ''WBNB''"
proof -
  have shape: "generated_shape wbnb_scenario_path"
    by (simp add: generated_shape_def wbnb_scenario_path_def js_index_def)
  have some: "scanPath (scenario_feed (Fin 30)) default_scanner no_addresses
                wbnb_scenario_path None \<noteq> None"
    by code_simp
  then obtain opp where opp:
    "scanPath (scenario_feed (Fin 30)) default_scanner no_addresses wbnb_scenario_path None
     = Some opp"
    by blast
  have generated: "wbnb_scenario_path \<in> set (generateAllPaths triangle_generator [])"
    by (simp add: triangle_generated) (simp add: wbnb_scenario_path_def triangle_path_def)
  from scanPath_returns [OF opp shape] shape some opp generated show ?thesis
    by (simp add: wbnb_scenario_path_def)
qed

subsection \<open>The WBNB scenario\<close>

lemma round_dp20_exact:
  assumes "x * 10 ^ 20 = of_int n"
  shows "round_dp20 x = x"
proof -
  have x: "x = of_int n / 10 ^ 20"
    using assms by (simp add: field_simps)
  show ?thesis
  proof (cases "0 \<le> n")
    case True
    have "\<lfloor>(of_int n :: rat) + 1 / 2\<rfloor> = n"
      by (rule floor_unique) simp_all
    with True show ?thesis by (simp add: round_dp20_def x)
  next
    case False
    have "\<lfloor>(of_int (- n) :: rat) + 1 / 2\<rfloor> = - n"
      by (rule floor_unique) simp_all
    with False show ?thesis by (simp add: round_dp20_def x)
  qed
qed

lemma gas_3hops:
  assumes h: "hops p = 3"
    and v3: "length (filter (\<lambda>dex. sublist ''V3'' dex \<or> sublist ''UNISWAP_V3'' dex) (dexes p)) = k"
  shows "estimateGasCost default_scanner p = Fin ((546 + 35 * of_nat k) / 100000)"
proof -
  have e: "estimateGasCost default_scanner p
           = Fin (round_dp20 ((546 + 35 * of_nat k) / 100000))"
    apply (simp add: estimateGasCost_def default_scanner_def Let_def h v3)
    apply (rule arg_cong [where f = round_dp20])
    apply (simp add: field_simps)
    done
  have r: "round_dp20 ((546 + 35 * of_nat k) / 100000) = (546 + 35 * of_nat k) / 100000"
    by (rule round_dp20_exact [where n = "(546 + 35 * int k) * 10 ^ 15"]) simp
  show ?thesis
    by (simp only: e r)
qed

lemma scenario_costs:
  assumes h: "hops p = 3"
    and v3: "length (filter (\<lambda>dex. sublist ''V3'' dex \<or> sublist ''UNISWAP_V3'' dex) (dexes p)) = k"
    and loan: "flashLoanAmount found = Fin 10"
    and gross: "grossProfit found = Fin (5 / 100)"
  shows "gasCost (assign_costs default_scanner p found) = Fin ((546 + 35 * of_nat k) / 100000)
    \<and> flashLoanFee (assign_costs default_scanner p found) = Fin (9 / 1000)
    \<and> profitAfterCosts (assign_costs default_scanner p found)
        = Fin ((3554 - 35 * of_nat k) / 100000)
    \<and> netROI (assign_costs default_scanner p found) = Fin ((3554 - 35 * of_nat k) / 10000)"
proof -
  define G :: rat where "G = (546 + 35 * of_nat k) / 100000"
  define N :: rat where "N = (3554 - 35 * of_nat k) / 100000"
  have gas: "estimateGasCost default_scanner p = Fin G"
    unfolding G_def by (rule gas_3hops [OF h v3])
  have costs: "calculateTotalCosts default_scanner p (Fin 10)
               = \<lparr> tc_gasCost = Fin G, tc_flashLoanFee = Fin (9 / 1000),
                   tc_total = Fin (G + 9 / 1000) \<rparr>"
  proof -
    have fee: "cfg_flashLoanFee default_scanner = Fin (9 / 10000)"
      by (simp add: default_scanner_def)
    show ?thesis
      by (simp add: calculateTotalCosts_def Let_def gas fee)
  qed
  have N: "5 / 100 - (G + 9 / 1000) = N"
    by (simp add: G_def N_def field_simps)
  have net: "num_sub (grossProfit found) (Fin (G + 9 / 1000)) = Fin N"
    unfolding N [symmetric] gross by (simp add: num_sub_def)
  have r: "round_dp20 (N / 10) = N / 10"
    by (rule round_dp20_exact [where n = "(3554 - 35 * int k) * 10 ^ 14"])
       (simp add: N_def)
  have roi: "num_mul (bn_div (Fin N) (Fin 10)) (Fin 100) = Fin (N * 10)"
    by (simp add: r)
  have "gasCost (assign_costs default_scanner p found) = Fin G"
    "flashLoanFee (assign_costs default_scanner p found) = Fin (9 / 1000)"
    "profitAfterCosts (assign_costs default_scanner p found) = Fin N"
    "netROI (assign_costs default_scanner p found) = Fin (N * 10)"
    unfolding assign_costs_def Let_def loan costs
    by (simp_all add: net roi costed_opportunity.defs profit_result.defs
        del: num_mul.simps bn_div.simps)
  then show ?thesis
    by (simp add: G_def N_def)
qed


text \<open>
  Claim C4, as stated, fails. In the scenario (10 WBNB over WBNB, USDT, BTCB, WBNB, hop
  outputs 3000 USDT, 0.0645 BTCB and 10.05 WBNB, venues without V3) the scanner computes
  the opportunity \<open>wbnb_scenario_opportunity\<close>: its gas cost is 0.00546 WBNB, above
  0.0035 and so not 0.003 to the precision given; its net profit 0.03554 WBNB, below
  0.0375 and so not 0.038; its net ROI 0.3554, below 0.375 and so not 0.38.
\<close>

theorem wbnb_scenario_counterexample:
  "map_option (assign_costs default_scanner wbnb_scenario_path)
     (circular_profit_from (scenario_feed (Fin 10)) default_scanner no_addresses
        wbnb_scenario_path None (Fin 10))
   = Some wbnb_scenario_opportunity
   \<and> gasCost wbnb_scenario_opportunity = Fin (546 / 100000)
   \<and> num_gt (gasCost wbnb_scenario_opportunity) (Fin (35 / 10000))
   \<and> profitAfterCosts wbnb_scenario_opportunity = Fin (3554 / 100000)
   \<and> num_lt (profitAfterCosts wbnb_scenario_opportunity) (Fin (375 / 10000))
   \<and> netROI wbnb_scenario_opportunity = Fin (3554 / 10000)
   \<and> num_lt (netROI wbnb_scenario_opportunity) (Fin (375 / 1000))"
proof -
  have "map_option (assign_costs default_scanner wbnb_scenario_path)
     (circular_profit_from (scenario_feed (Fin 10)) default_scanner no_addresses
        wbnb_scenario_path None (Fin 10))
   = Some wbnb_scenario_opportunity"
    by code_simp
  then show ?thesis
    by (simp add: wbnb_scenario_opportunity_def num_gt_def)
qed

text \<open>
  Claim C4, amended. For a 3-hop path walked with a flash-loan amount of 10 WBNB that
  ends with 10.05 WBNB, the scanner with its default parameters computes grossProfit =
  0.05 WBNB; flash-loan fee = 0.0009 * 10 = 0.009 WBNB; gas cost = 0.00546 WBNB (780000
  gas at 5 + 2 gwei) plus 0.00035 WBNB for each of the \<open>k\<close> venues whose name contains
  V3; netProfit = 0.03554 WBNB and netROI = 0.3554 percent, less 0.00035 WBNB and 0.0035
  percent per such venue.
\<close>

theorem wbnb_scenario_figures:
  assumes run: "circular_profit_from feed default_scanner tbl p currentPrices (Fin 10)
                = Some found"
    and final: "finalAmount found = Fin (1005 / 100)"
    and h: "hops p = 3"
    and v3: "length (filter (\<lambda>dex. sublist ''V3'' dex \<or> sublist ''UNISWAP_V3'' dex) (dexes p))
             = k"
  shows "grossProfit found = Fin (5 / 100)
    \<and> gasCost (assign_costs default_scanner p found) = Fin ((546 + 35 * of_nat k) / 100000)
    \<and> flashLoanFee (assign_costs default_scanner p found) = Fin (9 / 1000)
    \<and> profitAfterCosts (assign_costs default_scanner p found)
        = Fin ((3554 - 35 * of_nat k) / 100000)
    \<and> netROI (assign_costs default_scanner p found) = Fin ((3554 - 35 * of_nat k) / 10000)"
proof -
  from run have loan: "flashLoanAmount found = Fin 10"
    and diff: "grossProfit found = num_sub (finalAmount found) (Fin 10)"
    by (auto simp: circular_profit_from_def Let_def split: option.splits if_splits)
  from diff final have gross: "grossProfit found = Fin (5 / 100)"
    by (simp add: num_sub_def)
  from scenario_costs [OF h v3 loan gross] gross show ?thesis
    by simp
qed

theorem wbnb_scenario_figures_witness:
  "circular_profit_from (scenario_feed (Fin 10)) default_scanner no_addresses
     wbnb_scenario_path None (Fin 10) \<noteq> None
   \<and> grossProfit (the (circular_profit_from (scenario_feed (Fin 10)) default_scanner
        no_addresses wbnb_scenario_path None (Fin 10))) = Fin (5 / 100)
   \<and> profitAfterCosts (assign_costs default_scanner wbnb_scenario_path
        (the (circular_profit_from (scenario_feed (Fin 10)) default_scanner
           no_addresses wbnb_scenario_path None (Fin 10)))) = Fin (3554 / 100000)
   \<and> netROI (assign_costs default_scanner wbnb_scenario_path
        (the (circular_profit_from (scenario_feed (Fin 10)) default_scanner
           no_addresses wbnb_scenario_path None (Fin 10)))) = Fin (3554 / 10000)"
proof -
  have some: "circular_profit_from (scenario_feed (Fin 10)) default_scanner no_addresses
                wbnb_scenario_path None (Fin 10) \<noteq> None"
    by code_simp
  then obtain found where run:
    "circular_profit_from (scenario_feed (Fin 10)) default_scanner no_addresses
       wbnb_scenario_path None (Fin 10) = Some found"
    by blast
  have "finalAmount (the (circular_profit_from (scenario_feed (Fin 10)) default_scanner
          no_addresses wbnb_scenario_path None (Fin 10))) = Fin (1005 / 100)"
    by code_simp
  with run have final: "finalAmount found = Fin (1005 / 100)"
    by simp
  have h: "hops wbnb_scenario_path = 3"
    by (simp add: wbnb_scenario_path_def)
  have v3: "length (filter (\<lambda>dex. sublist ''V3'' dex \<or> sublist ''UNISWAP_V3'' dex)
              (dexes wbnb_scenario_path)) = 0"
    by code_simp
  from wbnb_scenario_figures [OF run final h v3] some run show ?thesis
    by simp
qed

subsection \<open>The quote cache\<close>





subsection \<open>Slippage of freshly quoted swaps\<close>

lemma fetched_upstream_price:
  assumes "fetched_upstream bn q amount"
  shows "pd_price q = bn_div (pd_amountOut q) amount"
proof -
  from assms obtain w st st' n dexName tokenIn tokenOut amount_in where
    g: "getPrice bn w st dexName tokenIn tokenOut amount_in = (Some q, st', Suc n)"
    and a: "bn amount_in = amount"
    unfolding fetched_upstream_def by blast
  from g have "pd_price q = bn_div (pd_amountOut q) (bn amount_in)"
    by (auto simp: getPrice_def Let_def split: option.splits prod.splits)
  with a show ?thesis by simp
qed

lemma round_dp20_zero: "round_dp20 0 = 0"
  by (rule round_dp20_exact [where n = 0]) simp

lemma self_quote_slippage:
  "calculateSlippage amount out (bn_div out amount) = degenerate_slippage (bn_div out amount)"
proof (cases "bn_div out amount")
  case (Fin x)
  then show ?thesis
    by (simp add: calculateSlippage_def Let_def degenerate_slippage_def num_sub_def
        signed_inf_def round_dp20_zero to_double_0)
qed (simp_all add: calculateSlippage_def Let_def degenerate_slippage_def num_sub_def)

lemma swap_loop_self_quoted:
  assumes feed: "\<forall>i dex a b amount q.
      feed_getPrice feed i dex a b amount = Some q \<longrightarrow> fetched_upstream bn q amount"
  shows "swap_loop feed sc tbl None p i ds amt tok details = Some (amt', tok', details')
         \<Longrightarrow> list_all self_quoted details \<Longrightarrow> list_all self_quoted details'"
proof (induction ds arbitrary: i amt tok details)
  case Nil
  then show ?case by simp
next
  case (Cons dex rest)
  from Cons.prems(1) obtain q impact where
    q: "feed_getPrice feed i dex (getTokenAddress tbl tok)
          (getTokenAddress tbl (js_index (tokens p) (int i + 1))) amt = Some q"
    and rec: "swap_loop feed sc tbl None p (i + 1) rest (pd_amountOut q)
                (js_index (tokens p) (int i + 1))
                (details @ [swap_detail_of i tok (js_index (tokens p) (int i + 1)) dex amt q
                              impact])
              = Some (amt', tok', details')"
    by (simp add: Let_def split: option.splits if_splits)
  define d where "d = swap_detail_of i tok (js_index (tokens p) (int i + 1)) dex amt q impact"
  have d: "slippage d = calculateSlippage amt (pd_amountOut q) (pd_price q)"
    "price d = pd_price q"
    by (simp_all add: d_def swap_detail_of_def Let_def)
  from feed q have "fetched_upstream bn q amt" by blast
  then have "pd_price q = bn_div (pd_amountOut q) amt"
    by (rule fetched_upstream_price)
  with d have "self_quoted d"
    by (simp add: self_quoted_def self_quote_slippage)
  with Cons.prems(2) have "list_all self_quoted (details @ [d])"
    by simp
  from Cons.IH [OF rec [folded d_def] this] show ?case .
qed

lemma Math_max_degenerate:
  assumes "list_all (\<lambda>s. s = Fin 0 \<or> s = NaN) xs"
  shows "foldl Math_max2 acc xs = NaN \<or> foldl Math_max2 acc xs = Math_max2 acc (Fin 0)
         \<or> foldl Math_max2 acc xs = acc"
  using assms
proof (induction xs arbitrary: acc)
  case Nil
  then show ?case by simp
next
  case (Cons s xs)
  then have s: "s = Fin 0 \<or> s = NaN" and rest: "list_all (\<lambda>s. s = Fin 0 \<or> s = NaN) xs"
    by simp_all
  have nan: "foldl Math_max2 NaN ys = NaN" for ys
    by (induction ys) simp_all
  from s show ?case
  proof
    assume "s = NaN"
    then have "Math_max2 acc s = NaN" by (cases acc) simp_all
    then show ?thesis by (simp add: nan)
  next
    assume z: "s = Fin 0"
    have idem: "Math_max2 (Math_max2 acc (Fin 0)) (Fin 0) = Math_max2 acc (Fin 0)"
      by (cases acc) simp_all
    from Cons.IH [OF rest, of "Math_max2 acc (Fin 0)"] show ?thesis
      by (auto simp: z idem)
  qed
qed

lemma degenerate_max_not_above:
  assumes "list_all (\<lambda>s. s = Fin 0 \<or> s = NaN) xs" and "0 < c"
  shows "\<not> num_gt (Math_max xs) (Fin c)"
proof -
  from Math_max_degenerate [OF assms(1), of NegInf]
  have "Math_max xs = NaN \<or> Math_max xs = Fin 0 \<or> Math_max xs = NegInf"
    by (simp add: Math_max_def)
  with assms(2) show ?thesis
    by (auto simp: num_gt_def)
qed


lemma fetcher_feed_fetches:
  "feed_getPrice (fetcher_feed bn to_string worlds st) i dex a b amount = Some q
   \<Longrightarrow> fetched_upstream bn q amount"
  unfolding fetcher_feed_def fetched_upstream_def
  by (auto split: option.splits if_splits prod.splits simp: gr0_conv_Suc) blast

lemma maxSlippage_assign_costs: "maxSlippage_of (assign_costs sc p found) = maxSlippage_of found"
  by (simp add: maxSlippage_of_def assign_costs_def Let_def costed_opportunity.defs
      profit_result.defs)

text \<open>
  Claim C10, as stated, fails. A venue that answers 0.0 for 30 WBNB gives a quote with
  unit price 0 (fetched with one contract call), and the swap the scanner's loop builds
  from it has the slippage NaN, not zero: the difference of the two equal prices is
  divided by the price, which is zero.
\<close>

theorem zero_quote_slippage_counterexample:
  "getPrice demo_bn (demo_world [''0.0''] 1700000000000 0) demo_fetcher
     ''PANCAKESWAP_V2'' ''WBNB'' ''USDT'' ''30''
   = (Some zero_quote,
      demo_fetcher\<lparr> priceCache := [cacheKey ''PANCAKESWAP_V2'' ''WBNB'' ''USDT'' ''30''
         \<mapsto> \<lparr> ce_data = zero_quote, ce_timestamp = 1700000000041 \<rparr>] \<rparr>, 1)
   \<and> swap_loop (fetcher_feed demo_bn demo_toString (demo_world [''0.0''] 1700000000000)
                  demo_fetcher)
        default_scanner no_addresses None wbnb_scenario_path 0 [''PANCAKESWAP_V2'']
        (Fin 30) (Some ''WBNB'') []
      = Some (Fin 0, Some ''USDT'',
              [swap_detail_of 0 (Some ''WBNB'') (Some ''USDT'') ''PANCAKESWAP_V2'' (Fin 30)
                 zero_quote (Some (Fin (1 / 10)))])
   \<and> slippage (swap_detail_of 0 (Some ''WBNB'') (Some ''USDT'') ''PANCAKESWAP_V2'' (Fin 30)
                 zero_quote (Some (Fin (1 / 10)))) = NaN"
proof -
  have g: "getPrice demo_bn (demo_world [''0.0''] 1700000000000 0) demo_fetcher
     ''PANCAKESWAP_V2'' ''WBNB'' ''USDT'' ''30''
   = (Some zero_quote,
      demo_fetcher\<lparr> priceCache := [cacheKey ''PANCAKESWAP_V2'' ''WBNB'' ''USDT'' ''30''
         \<mapsto> \<lparr> ce_data = zero_quote, ce_timestamp = 1700000000041 \<rparr>] \<rparr>, 1)"
    by (simp add: getPrice_def cache_lookup_def demo_fetcher_def demo_world_def getPriceV2_def
        demo_bn_def zero_quote_def signed_inf_def round_dp20_zero Let_def)
  have s: "slippage (swap_detail_of 0 (Some ''WBNB'') (Some ''USDT'') ''PANCAKESWAP_V2''
                       (Fin 30) zero_quote (Some (Fin (1 / 10)))) = NaN"
    by (simp add: swap_detail_of_def calculateSlippage_def zero_quote_def Let_def num_sub_def
        signed_inf_def round_dp20_zero)
  have l: "swap_loop (fetcher_feed demo_bn demo_toString (demo_world [''0.0''] 1700000000000)
                  demo_fetcher)
        default_scanner no_addresses None wbnb_scenario_path 0 [''PANCAKESWAP_V2'']
        (Fin 30) (Some ''WBNB'') []
      = Some (Fin 0, Some ''USDT'',
              [swap_detail_of 0 (Some ''WBNB'') (Some ''USDT'') ''PANCAKESWAP_V2'' (Fin 30)
                 zero_quote (Some (Fin (1 / 10)))])"
    by (simp add: fetcher_feed_def g demo_toString_def demo_bn_def no_addresses_def
        getTokenAddress_def js_index_def wbnb_scenario_path_def js_str_def num_gt_def
        default_scanner_def zero_quote_def Let_def)
  from g l s show ?thesis
    by simp
qed

text \<open>
  Claim C10, amended. When every quote of the price feed was fetched upstream by
  \<^verbatim>\<open>getPrice\<close> for the amount of its hop, every swap of the opportunity that
  \<^verbatim>\<open>calculateCircularPathProfit\<close> builds has a slippage of exactly zero if the quote's
  unit price is a nonzero finite number, and of NaN otherwise; in both cases the maximum
  slippage exceeds neither 1 nor 2, so the slippage penalties of the confidence score do
  not apply and the slippage bucket of the risk score is 0.
\<close>

theorem fresh_quote_slippage:
  assumes feed: "\<forall>i dex a b amount q.
      feed_getPrice feed i dex a b amount = Some q \<longrightarrow> fetched_upstream bn q amount"
    and run: "calculateCircularPathProfit feed sc tbl p None = Some found"
  shows "list_all self_quoted (swapDetails found)
    \<and> \<not> num_gt (maxSlippage_of (assign_costs sc p found)) (Fin 1)
    \<and> \<not> num_gt (maxSlippage_of (assign_costs sc p found)) (Fin 2)
    \<and> slippage_points (maxSlippage_of (assign_costs sc p found)) = 0"
proof -
  from run obtain amt' tok' where
    loop: "swap_loop feed sc tbl None p 0 (dexes p) (calculateOptimalFlashLoanAmount p)
             (js_index (tokens p) 0) [] = Some (amt', tok', swapDetails found)"
    by (auto simp: calculateCircularPathProfit_def circular_profit_from_def Let_def
        split: option.splits if_splits)
  from swap_loop_self_quoted [OF feed loop] have all: "list_all self_quoted (swapDetails found)"
    by simp
  have deg: "degenerate_slippage v = Fin 0 \<or> degenerate_slippage v = NaN" for v
    by (cases v) (simp_all add: degenerate_slippage_def)
  from all have "list_all (\<lambda>s. s = Fin 0 \<or> s = NaN) (map slippage (swapDetails found))"
    using deg by (auto simp: list_all_iff self_quoted_def)
  then have "\<not> num_gt (maxSlippage_of found) (Fin 1)" "\<not> num_gt (maxSlippage_of found) (Fin 2)"
    unfolding maxSlippage_of_def by (simp_all add: degenerate_max_not_above)
  with all show ?thesis
    by (simp add: maxSlippage_assign_costs slippage_points_def)
qed

theorem fresh_quote_slippage_witness:
  "calculateCircularPathProfit
     (fetcher_feed demo_bn demo_toString
        (demo_world [''9000.0'', ''0.1935'', ''30.15''] 1700000000000) demo_fetcher)
     default_scanner no_addresses wbnb_scenario_path None \<noteq> None
   \<and> map slippage (swapDetails (the (calculateCircularPathProfit
        (fetcher_feed demo_bn demo_toString
           (demo_world [''9000.0'', ''0.1935'', ''30.15''] 1700000000000) demo_fetcher)
        default_scanner no_addresses wbnb_scenario_path None))) = [Fin 0, Fin 0, Fin 0]
   \<and> slippage_points (maxSlippage_of (assign_costs default_scanner wbnb_scenario_path
        (the (calculateCircularPathProfit
           (fetcher_feed demo_bn demo_toString
              (demo_world [''9000.0'', ''0.1935'', ''30.15''] 1700000000000) demo_fetcher)
           default_scanner no_addresses wbnb_scenario_path None)))) = 0"
proof -
  let ?feed = "fetcher_feed demo_bn demo_toString
                 (demo_world [''9000.0'', ''0.1935'', ''30.15''] 1700000000000) demo_fetcher"
  have eval: "map_option (\<lambda>found. map slippage (swapDetails found))
                (calculateCircularPathProfit ?feed default_scanner no_addresses
                   wbnb_scenario_path None) = Some [Fin 0, Fin 0, Fin 0]"
    by code_simp
  then obtain found where run:
    "calculateCircularPathProfit ?feed default_scanner no_addresses wbnb_scenario_path None
     = Some found"
    by blast
  with eval have zeros: "map slippage (swapDetails found) = [Fin 0, Fin 0, Fin 0]"
    by simp
  have feed: "\<forall>i dex a b amount q.
      feed_getPrice ?feed i dex a b amount = Some q \<longrightarrow> fetched_upstream demo_bn q amount"
    using fetcher_feed_fetches by blast
  from fresh_quote_slippage [OF feed run] zeros run show ?thesis
    by simp
qed

subsection \<open>The scan loop\<close>

text \<open>
  Claim C1, as stated, fails. Eleven cycles that throw, from a started bot: the counter
  is incremented before the delay is computed, so the first delay is 2000 ms, not 1000;
  the delays are 2000, 4000, 8000 and 16000 ms, and the fifth error stops the loop
  without a delay.
\<close>

theorem backoff_counterexample:
  "fst (scanLoop started_bot (replicate 11 (Throws 0 False))) = [2000, 4000, 8000, 16000]
   \<and> fst (scanLoop started_bot (replicate 11 (Throws 0 False)))
       \<noteq> [1000, 2000, 4000, 8000, 16000]
   \<and> isRunning (fst (snd (scanLoop started_bot (replicate 11 (Throws 0 False))))) = False
   \<and> errors (stats (fst (snd (scanLoop started_bot (replicate 11 (Throws 0 False)))))) = 5"
  by (simp add: scanLoop_def started_bot_def maxConsecutiveErrors_def found_more_def stop_def
      numeral_eq_Suc)

text \<open>
  Claim C1, amended. From zero consecutive errors, with the threshold 5 and the base 1000
  ms, five consecutive cycle errors produce the delays min(1000 * 2^k, 30000) for k = 1,
  2, 3, 4, that is 2000, 4000, 8000 and 16000 ms; at the fifth error the loop stops
  (\<^verbatim>\<open>isRunning\<close> is false and the loop is left) without a further delay; and a successful
  cycle resets the counter: the loop continues from it as from a count of zero.
\<close>

theorem five_errors_stop:
  assumes "isRunning b"
  shows "scanLoop b (Throws k1 False # Throws k2 False # Throws k3 False # Throws k4 False
                      # Throws k5 False # later)
         = ([min (1000 * 2 ^ 1) 30000, min (1000 * 2 ^ 2) 30000, min (1000 * 2 ^ 3) 30000,
             min (1000 * 2 ^ 4) 30000],
            stop (b\<lparr> stats := (stats b)\<lparr>
                    circularOpportunitiesFound :=
                      circularOpportunitiesFound (stats b) + k1 + k2 + k3 + k4 + k5,
                    errors := errors (stats b) + 5 \<rparr> \<rparr>),
            Exited)
       \<and> [min (1000 * 2 ^ 1) 30000, min (1000 * 2 ^ 2) 30000, min (1000 * 2 ^ 3) 30000,
           min (1000 * 2 ^ 4) (30000::rat)] = [2000, 4000, 8000, 16000]
       \<and> scanLoop_from n b (Succeeds k called # later)
           = scanLoop_from 0 b (Succeeds k called # later)"
  using assms
  by (simp add: scanLoop_def maxConsecutiveErrors_def found_more_def stop_def)

theorem five_errors_stop_witness:
  "scanLoop started_bot (Throws 0 False # Throws 1 False # Throws 0 False # Throws 0 False
                      # Throws 2 False # [Succeeds 1 False])
   = ([2000, 4000, 8000, 16000],
      \<lparr> isRunning = False, currentScanIndex = 0,
        stats = \<lparr> totalScans = 0, circularOpportunitiesFound = 3, flashLoanExecutions = 0,
                 totalProfit = Fin 0, errors = 5 \<rparr> \<rparr>,
      Exited)
   \<and> fst (scanLoop started_bot [Throws 0 False, Throws 0 False, Succeeds 0 False,
                                  Throws 0 False, Throws 0 False, Throws 0 False])
       = [2000, 4000, 3000, 2000, 4000, 8000]"
proof -
  have r: "isRunning started_bot"
    by (simp add: started_bot_def)
  have "fst (scanLoop started_bot [Throws 0 False, Throws 0 False, Succeeds 0 False,
                                  Throws 0 False, Throws 0 False, Throws 0 False])
       = [2000, 4000, 3000, 2000, 4000, 8000]"
    by (simp add: scanLoop_def started_bot_def maxConsecutiveErrors_def found_more_def stop_def
        calculateScanDelay_def)
  with five_errors_stop [OF r, of 0 1 0 0 2 "[Succeeds 1 False]" 0 0 False] show ?thesis
    by (simp add: started_bot_def stop_def)
qed


subsection \<open>The execution gate\<close>

text \<open>
  Claim C8, as stated, fails. When the gas price equals the configured ceiling (5 gwei
  both), the check that the gas price is below the ceiling fails, and the gate passes
  all the same: it rejects only a gas price above the ceiling.
\<close>

theorem gate_counterexample:
  "gasPrice (the (getFeeData calm_chain)) = maxGasPrice_wei five_gwei_config
   \<and> gas_price_below_ceiling calm_chain five_gwei_config = False
   \<and> performSafetyChecks calm_chain five_gwei_config wbnb_scenario_opportunity
       = (None, [GetBalance, GetFeeData])"
  by (simp add: performSafetyChecks_def calm_chain_def five_gwei_config_def minBalance_def
      gas_price_below_ceiling_def wbnb_scenario_opportunity_def js_index_def)

text \<open>
  Claim C8, amended. The gate evaluates its checks in the order: the balance covers the
  minimum gas reserve; the gas price is not above the configured ceiling; the
  opportunity is flagged circular and its flash-loan asset equals both ends of its path;
  netROI is not below the configured minimum. A check whose reading throws counts as
  failed. The gate passes exactly when all four hold; otherwise the rejection belongs to
  the first check that fails; the fee data is not requested when the balance check
  fails; and on a rejection the bot's state is unchanged and the executor is not called.
\<close>

theorem gate_checks_in_order:
  "check_of_rejection (performSafetyChecks ch cfg opp) = first_failing_check ch cfg opp
   \<and> (fst (performSafetyChecks ch cfg opp) = None
        \<longleftrightarrow> balance_covers_reserve ch \<and> gas_price_not_above_ceiling ch cfg
            \<and> structurally_circular opp \<and> roi_not_below_minimum cfg opp)
   \<and> snd (performSafetyChecks ch cfg opp)
       = (if balance_covers_reserve ch then [GetBalance, GetFeeData] else [GetBalance])
   \<and> (fst (performSafetyChecks ch cfg opp) \<noteq> None
        \<longrightarrow> executeFlashLoanArbitrage ch cfg executor b opp = (b, 0))"
  by (auto simp: performSafetyChecks_def check_of_rejection_def first_failing_check_def
      balance_covers_reserve_def gas_price_not_above_ceiling_def structurally_circular_def
      roi_not_below_minimum_def executeFlashLoanArbitrage_def
      split: option.splits)

theorem gate_checks_in_order_witness:
  "performSafetyChecks (calm_chain\<lparr> getBalance := Some (10 ^ 15) \<rparr>) five_gwei_config
     wbnb_scenario_opportunity = (Some InsufficientBalance, [GetBalance])
   \<and> first_failing_check (calm_chain\<lparr> getBalance := Some (10 ^ 15) \<rparr>) five_gwei_config
       wbnb_scenario_opportunity = 1
   \<and> executeFlashLoanArbitrage (calm_chain\<lparr> getBalance := Some (10 ^ 15) \<rparr>) five_gwei_config
       (\<lambda>opp. Some \<lparr> success = True, actualProfit = Fin (3 / 100) \<rparr>) started_bot
       wbnb_scenario_opportunity = (started_bot, 0)"
proof -
  have r: "performSafetyChecks (calm_chain\<lparr> getBalance := Some (10 ^ 15) \<rparr>) five_gwei_config
     wbnb_scenario_opportunity = (Some InsufficientBalance, [GetBalance])"
    by (simp add: performSafetyChecks_def calm_chain_def minBalance_def)
  from gate_checks_in_order [of "calm_chain\<lparr> getBalance := Some (10 ^ 15) \<rparr>" five_gwei_config
      wbnb_scenario_opportunity "\<lambda>opp. Some \<lparr> success = True, actualProfit = Fin (3 / 100) \<rparr>"
      started_bot] r
  show ?thesis
    by (simp add: check_of_rejection_def)
qed

subsection \<open>Risk classification\<close>

text \<open>
  Claim C7. The risk level of every opportunity is the classification of a score that
  is the sum of four buckets, one for the maximum price impact (1 point above 0.5, 2 above
  1, 3 above 1.5), one for the hop count (1 point above 3, 2 above 4, 3 above 6), one for
  the net ROI (1 point when it reads as a number below 1, 2 below 0.5, 3 below 0.3) and one
  for the maximum slippage (1 point above 1, 2 above 2); each bucket reads only its own
  input and contributes between 0 and 3 points; a total of 6 or more is HIGH, of 4 or more
  MEDIUM, anything else LOW; and the result is one of LOW, MEDIUM, HIGH.
\<close>

theorem risk_level_is_sum_of_buckets:
  "calculateRiskLevel opp =
     classify_risk (price_impact_bucket (map priceImpact (swapDetails opp))
                    + hop_bucket (totalHops opp) + roi_bucket (netROI opp)
                    + slippage_bucket (map slippage (swapDetails opp)))
   \<and> price_impact_bucket impacts \<le> 3 \<and> hop_bucket h \<le> 3 \<and> roi_bucket r \<le> 3
   \<and> slippage_bucket slippages \<le> 3
   \<and> calculateRiskLevel opp \<in> {LOW, MEDIUM, HIGH}"
proof -
  have sum: "calculateRiskLevel opp =
     classify_risk (price_impact_bucket (map priceImpact (swapDetails opp))
                    + hop_bucket (totalHops opp) + roi_bucket (netROI opp)
                    + slippage_bucket (map slippage (swapDetails opp)))"
    unfolding calculateRiskLevel_def Let_def Math_max_exceeds reads_below_three_tenths
      reads_below_half reads_below_one classify_risk_def price_impact_bucket_def
      hop_bucket_def roi_bucket_def slippage_bucket_def
    by simp
  have bounds: "price_impact_bucket impacts \<le> 3" "hop_bucket h \<le> 3" "roi_bucket r \<le> 3"
      "slippage_bucket slippages \<le> 3"
    by (simp_all add: price_impact_bucket_def hop_bucket_def roi_bucket_def
        slippage_bucket_def)
  have range: "calculateRiskLevel opp \<in> {LOW, MEDIUM, HIGH}"
    by (cases "calculateRiskLevel opp") simp_all
  from sum bounds range show ?thesis by blast
qed

theorem risk_level_is_sum_of_buckets_witness:
  "calculateRiskLevel near_three_tenths_opportunity = MEDIUM
   \<and> price_impact_bucket (map priceImpact (swapDetails near_three_tenths_opportunity)) = 1
   \<and> hop_bucket (totalHops near_three_tenths_opportunity) = 1
   \<and> roi_bucket (netROI near_three_tenths_opportunity) = 2
   \<and> slippage_bucket (map slippage (swapDetails near_three_tenths_opportunity)) = 1
   \<and> calculateRiskLevel near_half_opportunity = LOW
   \<and> roi_bucket (netROI near_half_opportunity) = 1"
proof -
  have tenths:
    "price_impact_bucket (map priceImpact (swapDetails near_three_tenths_opportunity)) = 1"
    "hop_bucket (totalHops near_three_tenths_opportunity) = 1"
    "roi_bucket (netROI near_three_tenths_opportunity) = 2"
    "slippage_bucket (map slippage (swapDetails near_three_tenths_opportunity)) = 1"
    by (simp_all add: near_three_tenths_opportunity_def price_impact_bucket_def hop_bucket_def
        roi_bucket_def slippage_bucket_def exceeds_def num_le_def)
  have half:
    "price_impact_bucket (map priceImpact (swapDetails near_half_opportunity)) = 0"
    "hop_bucket (totalHops near_half_opportunity) = 0"
    "roi_bucket (netROI near_half_opportunity) = 1"
    "slippage_bucket (map slippage (swapDetails near_half_opportunity)) = 0"
    by (simp_all add: near_half_opportunity_def price_impact_bucket_def hop_bucket_def
        roi_bucket_def slippage_bucket_def exceeds_def num_le_def)
  from risk_level_is_sum_of_buckets [of near_three_tenths_opportunity]
    risk_level_is_sum_of_buckets [of near_half_opportunity] tenths half
  show ?thesis
    by (simp add: classify_risk_def)
qed

end
